theory Spec2Isabelle
  imports Complex_Main "HOL-Library.AList" "HOL-Library.Char_ord" "HOL-Library.List_Lexorder"
    "HOL-Library.Product_Lexorder"
begin

section \<open>Python floats\<close>

text \<open>
  A Python float is a finite number, an infinity or NaN; the sign of a zero is not kept.
  On finite values the operations of the platform round, and the functions of the C
  library are accurate to about a unit in the last place: neither is fixed here, the
  operations on finite values are a parameter of the model. They take finite values to
  finite values (the distance computation meets only sines, cosines and their products, so
  that nothing overflows there).
\<close>

datatype pyfloat = Fin real | PInf | NInf | NaN

record float_ops =
  fl_add :: "real \<Rightarrow> real \<Rightarrow> real"
  fl_sub :: "real \<Rightarrow> real \<Rightarrow> real"
  fl_mul :: "real \<Rightarrow> real \<Rightarrow> real"
  fl_div :: "real \<Rightarrow> real \<Rightarrow> real"
  fl_pow2 :: "real \<Rightarrow> real"
  fl_radians :: "real \<Rightarrow> real"
  fl_sin :: "real \<Rightarrow> real"
  fl_cos :: "real \<Rightarrow> real"
  fl_sqrt :: "real \<Rightarrow> real"
  fl_atan2 :: "real \<Rightarrow> real \<Rightarrow> real"

text \<open>What a guarded block can raise on the values of this model.\<close>

datatype failure = ConversionError | MathDomainError

text \<open>\<open>x + y\<close>, \<open>x - y\<close> and \<open>x * y\<close> on floats.\<close>

fun py_add :: "float_ops \<Rightarrow> pyfloat \<Rightarrow> pyfloat \<Rightarrow> pyfloat" where
  "py_add ar (Fin x) (Fin y) = Fin (fl_add ar x y)"
| "py_add ar NaN y = NaN"
| "py_add ar x NaN = NaN"
| "py_add ar PInf NInf = NaN"
| "py_add ar NInf PInf = NaN"
| "py_add ar PInf y = PInf"
| "py_add ar NInf y = NInf"
| "py_add ar (Fin x) y = y"

fun py_sub :: "float_ops \<Rightarrow> pyfloat \<Rightarrow> pyfloat \<Rightarrow> pyfloat" where
  "py_sub ar (Fin x) (Fin y) = Fin (fl_sub ar x y)"
| "py_sub ar NaN y = NaN"
| "py_sub ar x NaN = NaN"
| "py_sub ar PInf PInf = NaN"
| "py_sub ar NInf NInf = NaN"
| "py_sub ar PInf y = PInf"
| "py_sub ar NInf y = NInf"
| "py_sub ar (Fin x) PInf = NInf"
| "py_sub ar (Fin x) NInf = PInf"

fun py_mul :: "float_ops \<Rightarrow> pyfloat \<Rightarrow> pyfloat \<Rightarrow> pyfloat" where
  "py_mul ar (Fin x) (Fin y) = Fin (fl_mul ar x y)"
| "py_mul ar NaN y = NaN"
| "py_mul ar x NaN = NaN"
| "py_mul ar (Fin x) y = (if x = 0 then NaN else if (0 < x) = (y = PInf) then PInf else NInf)"
| "py_mul ar x (Fin y) = (if y = 0 then NaN else if (0 < y) = (x = PInf) then PInf else NInf)"
| "py_mul ar x y = (if x = y then PInf else NInf)"

text \<open>\<open>x / 2\<close> and \<open>x ** 2\<close>.\<close>

fun py_half :: "float_ops \<Rightarrow> pyfloat \<Rightarrow> pyfloat" where
  "py_half ar (Fin x) = Fin (fl_div ar x 2)"
| "py_half ar x = x"

fun py_pow2 :: "float_ops \<Rightarrow> pyfloat \<Rightarrow> pyfloat" where
  "py_pow2 ar (Fin x) = Fin (fl_pow2 ar x)"
| "py_pow2 ar NaN = NaN"
| "py_pow2 ar x = PInf"

text \<open>\<open>x < y\<close> and \<open>x <= y\<close>: a comparison with NaN is false.\<close>

fun py_lt :: "pyfloat \<Rightarrow> pyfloat \<Rightarrow> bool" where
  "py_lt (Fin x) (Fin y) = (x < y)"
| "py_lt NaN y = False"
| "py_lt x NaN = False"
| "py_lt x PInf = (x \<noteq> PInf)"
| "py_lt NInf y = (y \<noteq> NInf)"
| "py_lt x y = False"

fun py_le :: "pyfloat \<Rightarrow> pyfloat \<Rightarrow> bool" where
  "py_le (Fin x) (Fin y) = (x \<le> y)"
| "py_le NaN y = False"
| "py_le x NaN = False"
| "py_le x PInf = True"
| "py_le NInf y = True"
| "py_le x y = False"

text \<open>\<open>math.isnan\<close>, \<open>math.isinf\<close> and \<open>math.isfinite\<close>.\<close>

fun isnan :: "pyfloat \<Rightarrow> bool" where
  "isnan NaN = True"
| "isnan x = False"

fun isinf :: "pyfloat \<Rightarrow> bool" where
  "isinf PInf = True"
| "isinf NInf = True"
| "isinf x = False"

fun isfinite :: "pyfloat \<Rightarrow> bool" where
  "isfinite (Fin x) = True"
| "isfinite x = False"

text \<open>
  The functions of \<open>math\<close>. \<open>math.radians\<close> multiplies by a constant. \<open>math.sin\<close> and
  \<open>math.cos\<close> raise \<open>ValueError\<close> on an infinity and \<open>math.sqrt\<close> on a negative
  argument; all of them pass NaN on. \<open>math.atan2\<close> never raises; on infinite arguments it
  returns the angle of the direction they point to.
\<close>

fun py_radians :: "float_ops \<Rightarrow> pyfloat \<Rightarrow> pyfloat" where
  "py_radians ar (Fin x) = Fin (fl_radians ar x)"
| "py_radians ar x = x"

fun py_sin :: "float_ops \<Rightarrow> pyfloat \<Rightarrow> failure + pyfloat" where
  "py_sin ar (Fin x) = Inr (Fin (fl_sin ar x))"
| "py_sin ar NaN = Inr NaN"
| "py_sin ar x = Inl MathDomainError"

fun py_cos :: "float_ops \<Rightarrow> pyfloat \<Rightarrow> failure + pyfloat" where
  "py_cos ar (Fin x) = Inr (Fin (fl_cos ar x))"
| "py_cos ar NaN = Inr NaN"
| "py_cos ar x = Inl MathDomainError"

fun py_sqrt :: "float_ops \<Rightarrow> pyfloat \<Rightarrow> failure + pyfloat" where
  "py_sqrt ar (Fin x) = (if x < 0 then Inl MathDomainError else Inr (Fin (fl_sqrt ar x)))"
| "py_sqrt ar NaN = Inr NaN"
| "py_sqrt ar PInf = Inr PInf"
| "py_sqrt ar NInf = Inl MathDomainError"

fun py_atan2 :: "float_ops \<Rightarrow> pyfloat \<Rightarrow> pyfloat \<Rightarrow> pyfloat" where
  "py_atan2 ar (Fin y) (Fin x) = Fin (fl_atan2 ar y x)"
| "py_atan2 ar NaN x = NaN"
| "py_atan2 ar y NaN = NaN"
| "py_atan2 ar PInf (Fin x) = Fin (fl_atan2 ar 1 0)"
| "py_atan2 ar NInf (Fin x) = Fin (fl_atan2 ar (- 1) 0)"
| "py_atan2 ar (Fin y) PInf = Fin 0"
| "py_atan2 ar (Fin y) NInf = Fin (if y < 0 then - fl_atan2 ar 0 (- 1) else fl_atan2 ar 0 (- 1))"
| "py_atan2 ar PInf PInf = Fin (fl_atan2 ar 1 1)"
| "py_atan2 ar PInf NInf = Fin (fl_atan2 ar 1 (- 1))"
| "py_atan2 ar NInf PInf = Fin (fl_atan2 ar (- 1) 1)"
| "py_atan2 ar NInf NInf = Fin (fl_atan2 ar (- 1) (- 1))"

section \<open>Geodesic primitives (azimuth\_utils.py, coverage\_calculator.py, neighbor\_audit\_window.py)\<close>

text \<open>
  The functions of \<open>math\<close> on the reals, by their mathematical definitions. They are the
  operations of the exact arithmetic below. The bearing functions and the distance of the
  neighbor finder are written with them directly: what is proved of these holds for exact
  values, and rounding is outside it.
\<close>

definition radians :: "real \<Rightarrow> real" where
  "radians d = d * pi / 180"

definition degrees :: "real \<Rightarrow> real" where
  "degrees r = r * 180 / pi"

definition sqrt_py :: "real \<Rightarrow> real option" where
  "sqrt_py x = (if x < 0 then None else Some (sqrt x))"

text \<open>\<open>math.atan2(y, x)\<close>: the angle of the point \<open>(x, y)\<close> in \<open>(-pi, pi]\<close>, and 0 at the origin.\<close>

definition atan2 :: "real \<Rightarrow> real \<Rightarrow> real" where
  "atan2 y x =
     (if 0 < x then arctan (y / x)
      else if x < 0 then (if 0 \<le> y then arctan (y / x) + pi else arctan (y / x) - pi)
      else if 0 < y then pi / 2
      else if y < 0 then - (pi / 2)
      else 0)"

text \<open>Python's \<open>x % m\<close> on floats for a positive modulus: the result has the sign of \<open>m\<close>.\<close>

definition fmod :: "real \<Rightarrow> real \<Rightarrow> real" where
  "fmod x m = x - m * of_int \<lfloor>x / m\<rfloor>"

text \<open>The arithmetic without rounding.\<close>

definition exact :: float_ops where
  "exact =
     \<lparr>fl_add = (\<lambda>x y. x + y), fl_sub = (\<lambda>x y. x - y), fl_mul = (\<lambda>x y. x * y),
      fl_div = (\<lambda>x y. x / y), fl_pow2 = (\<lambda>x. x\<^sup>2), fl_radians = radians,
      fl_sin = sin, fl_cos = cos, fl_sqrt = sqrt, fl_atan2 = atan2\<rparr>"

text \<open>
  \<open>azimuth_utils.calculate_distance\<close>: no range check and no handler, a \<open>ValueError\<close>
  of \<open>math.sin\<close>, \<open>math.cos\<close> or \<open>math.sqrt\<close> escapes.
\<close>

definition calculate_distance ::
  "float_ops \<Rightarrow> pyfloat \<Rightarrow> pyfloat \<Rightarrow> pyfloat \<Rightarrow> pyfloat \<Rightarrow> failure + pyfloat" where
  "calculate_distance ar lat1 lon1 lat2 lon2 =
     (let R = Fin 6371;
          lat1 = py_radians ar lat1; lon1 = py_radians ar lon1;
          lat2 = py_radians ar lat2; lon2 = py_radians ar lon2;
          dlat = py_sub ar lat2 lat1;
          dlon = py_sub ar lon2 lon1
      in case py_sin ar (py_half ar dlat) of Inl e \<Rightarrow> Inl e | Inr sin_dlat \<Rightarrow>
        (case py_cos ar lat1 of Inl e \<Rightarrow> Inl e | Inr cos_lat1 \<Rightarrow>
        (case py_cos ar lat2 of Inl e \<Rightarrow> Inl e | Inr cos_lat2 \<Rightarrow>
        (case py_sin ar (py_half ar dlon) of Inl e \<Rightarrow> Inl e | Inr sin_dlon \<Rightarrow>
        (let a = py_add ar (py_pow2 ar sin_dlat)
                   (py_mul ar (py_mul ar cos_lat1 cos_lat2) (py_pow2 ar sin_dlon))
         in case py_sqrt ar a of Inl e \<Rightarrow> Inl e | Inr sqrt_a \<Rightarrow>
           (case py_sqrt ar (py_sub ar (Fin 1) a) of Inl e \<Rightarrow> Inl e | Inr sqrt_1_a \<Rightarrow>
              (let c = py_mul ar (Fin 2) (py_atan2 ar sqrt_a sqrt_1_a);
                   distance = py_mul ar R c
               in Inr (py_mul ar distance (Fin 1000)))))))))"

text \<open>\<open>CoverageCalculator.calculate_distance\<close>: the same body inside \<open>try\<close>; the handler returns 0.\<close>

definition cov_calculate_distance ::
  "float_ops \<Rightarrow> pyfloat \<Rightarrow> pyfloat \<Rightarrow> pyfloat \<Rightarrow> pyfloat \<Rightarrow> pyfloat" where
  "cov_calculate_distance ar lat1 lon1 lat2 lon2 =
     (case calculate_distance ar lat1 lon1 lat2 lon2 of
        Inr d \<Rightarrow> d
      | Inl e \<Rightarrow> Fin 0)"

text \<open>
  The haversine term \<open>a\<close> that the two functions above compute on finite arguments.
\<close>

definition haversine_term :: "float_ops \<Rightarrow> real \<Rightarrow> real \<Rightarrow> real \<Rightarrow> real \<Rightarrow> real" where
  "haversine_term ar lat1 lon1 lat2 lon2 =
     (let lat1 = fl_radians ar lat1; lon1 = fl_radians ar lon1;
          lat2 = fl_radians ar lat2; lon2 = fl_radians ar lon2;
          dlat = fl_sub ar lat2 lat1;
          dlon = fl_sub ar lon2 lon1
      in fl_add ar (fl_pow2 ar (fl_sin ar (fl_div ar dlat 2)))
           (fl_mul ar (fl_mul ar (fl_cos ar lat1) (fl_cos ar lat2))
              (fl_pow2 ar (fl_sin ar (fl_div ar dlon 2)))))"

text \<open>The distance that they return for a haversine term in the domain of both square roots.\<close>

definition great_circle :: "float_ops \<Rightarrow> real \<Rightarrow> real" where
  "great_circle ar a =
     fl_mul ar (fl_mul ar 6371 (fl_mul ar 2 (fl_atan2 ar (fl_sqrt ar a) (fl_sqrt ar (fl_sub ar 1 a)))))
       1000"

text \<open>
  An arithmetic within the accuracy of binary64 whose additions err upwards by one
  rounding unit: on it the haversine term of an antipodal pair exceeds 1.
\<close>

definition rounding_up :: float_ops where
  "rounding_up = exact\<lparr>fl_add := (\<lambda>x y. (x + y) * (1 + 1 / 2 ^ 53))\<rparr>"

text \<open>
  The haversine term \<open>a\<close> on the reals, and \<open>NeighborCalculator.calculate_distance\<close>
  (radius in metres, no handler) over exact arithmetic.
\<close>

definition haversine_a :: "real \<Rightarrow> real \<Rightarrow> real \<Rightarrow> real \<Rightarrow> real" where
  "haversine_a lat1 lon1 lat2 lon2 =
     (let lat1 = radians lat1; lon1 = radians lon1; lat2 = radians lat2; lon2 = radians lon2;
          dlat = lat2 - lat1;
          dlon = lon2 - lon1
      in (sin (dlat / 2))\<^sup>2 + cos lat1 * cos lat2 * (sin (dlon / 2))\<^sup>2)"

definition nb_calculate_distance :: "real \<Rightarrow> real \<Rightarrow> real \<Rightarrow> real \<Rightarrow> real option" where
  "nb_calculate_distance lat1 lon1 lat2 lon2 =
     (let R = 6371000;
          a = haversine_a lat1 lon1 lat2 lon2
      in case sqrt_py a of
           None \<Rightarrow> None
         | Some sa \<Rightarrow>
             (case sqrt_py (1 - a) of
                None \<Rightarrow> None
              | Some sb \<Rightarrow> Some (R * (2 * atan2 sa sb))))"

text \<open>\<open>calculate_azimuth\<close> (azimuth\_utils.py and \<open>SectorSwapCalculator\<close>, the same text).\<close>

definition calculate_azimuth :: "real \<Rightarrow> real \<Rightarrow> real \<Rightarrow> real \<Rightarrow> real" where
  "calculate_azimuth lat1 lon1 lat2 lon2 =
     (let lat1 = radians lat1; lon1 = radians lon1; lat2 = radians lat2; lon2 = radians lon2;
          dlon = lon2 - lon1;
          y = sin dlon * cos lat2;
          x = cos lat1 * sin lat2 - sin lat1 * cos lat2 * cos dlon;
          azimuth = degrees (atan2 y x)
      in fmod (azimuth + 360) 360)"

text \<open>\<open>NeighborCalculator.calculate_azimuth_difference\<close>.\<close>

definition calculate_azimuth_difference :: "real \<Rightarrow> real \<Rightarrow> real" where
  "calculate_azimuth_difference az1 az2 =
     (let diff = \<bar>az1 - az2\<bar> in min diff (360 - diff))"

section \<open>Input tables\<close>

text \<open>
  One row of the EP table and one row of the MR table, with the columns the engine reads.
  The type parameter is the type of a numeric column value: \<open>real\<close> where the code
  uses the value as a number, \<open>real option\<close> where the code converts it with
  \<open>float(...)\<close> under a handler (\<open>None\<close>: the conversion raises; otherwise the
  value is a finite number).
\<close>

record 'n ep_row =
  ep_site :: string
  ep_cell :: string
  ep_carrier :: string
  ep_latitude :: 'n
  ep_longitude :: 'n
  ep_azimuth :: 'n

record 'n mr_row =
  mr_site :: string
  mr_cell :: string
  mr_latitude :: 'n
  mr_longitude :: 'n
  mr_rsrp :: 'n

type_synonym cell_value = "real option"

section \<open>Number formatting\<close>

text \<open>
  Rounding to the nearest integer, ties to even: the rule of Python's \<open>round\<close> and of
  the \<open>.1f\<close> format applied to the exact value.
\<close>

definition round_half_even :: "real \<Rightarrow> int" where
  "round_half_even r =
     (let f = \<lfloor>r\<rfloor>; d = r - of_int f
      in if d < 1 / 2 then f
         else if 1 / 2 < d then f + 1
         else if even f then f else f + 1)"

text \<open>The number printed by \<open>f"{x:.1f}"\<close>.\<close>

definition fmt1 :: "real \<Rightarrow> real" where
  "fmt1 x = of_int (round_half_even (x * 10)) / 10"

text \<open>\<open>round(x, 2)\<close>.\<close>

definition round2 :: "real \<Rightarrow> real" where
  "round2 x = of_int (round_half_even (x * 100)) / 100"

section \<open>Coverage profiler (coverage\_calculator.py)\<close>

text \<open>An output row: the percentages are kept as the numbers printed before the \<open>%\<close> sign.\<close>

record cov_row =
  cr_site :: string
  cr_cell :: string
  cr_carrier :: string
  cr_coverage :: "real list"
  cr_rsrp :: "real list"
  cr_overall :: real
  cr_total :: nat
  cr_status :: string

definition base_result :: "string \<Rightarrow> string \<Rightarrow> string \<Rightarrow> cov_row" where
  "base_result site_id cell_id carrier =
     \<lparr>cr_site = site_id, cr_cell = cell_id, cr_carrier = carrier,
      cr_coverage = [0, 0, 0, 0, 0], cr_rsrp = [0, 0, 0, 0, 0],
      cr_overall = 0, cr_total = 0, cr_status = ''No MR Data''\<rparr>"

text \<open>\<open>self.distance_ranges[:-1]\<close>: the bounded distance ranges; the last range is handled apart.\<close>

definition distance_ranges_bounded :: "(real \<times> real) list" where
  "distance_ranges_bounded = [(0, 300), (300, 500), (500, 700), (700, 1000)]"

text \<open>
  The measurement loop of \<open>process_cell\<close>: a row whose latitude, longitude or RSRP does
  not convert is skipped by the inner handler; the other rows give a distance and an RSRP.
\<close>

fun collect_measurements ::
  "float_ops \<Rightarrow> real \<Rightarrow> real \<Rightarrow> cell_value mr_row list \<Rightarrow> (pyfloat \<times> real) list" where
  "collect_measurements ar ep_lat ep_lon [] = []"
| "collect_measurements ar ep_lat ep_lon (row # rows) =
     (case mr_latitude row of
        None \<Rightarrow> collect_measurements ar ep_lat ep_lon rows
      | Some lat \<Rightarrow>
          (case mr_longitude row of
             None \<Rightarrow> collect_measurements ar ep_lat ep_lon rows
           | Some lon \<Rightarrow>
               (let distance = cov_calculate_distance ar (Fin ep_lat) (Fin ep_lon) (Fin lat) (Fin lon)
                in case mr_rsrp row of
                     None \<Rightarrow> collect_measurements ar ep_lat ep_lon rows
                   | Some rsrp \<Rightarrow> (distance, rsrp) # collect_measurements ar ep_lat ep_lon rows)))"

text \<open>\<open>np.sum(mask)\<close>: the number of entries that satisfy the mask.\<close>

definition count_where :: "('a \<Rightarrow> bool) \<Rightarrow> 'a list \<Rightarrow> nat" where
  "count_where P xs = length (filter P xs)"

definition percent :: "nat \<Rightarrow> nat \<Rightarrow> real" where
  "percent points total_points = real points / real total_points * 100"

definition weights :: "real list" where
  "weights = [1, 8 / 10, 6 / 10, 4 / 10, 2 / 10]"

definition weighted :: "real list \<Rightarrow> real list \<Rightarrow> real" where
  "weighted vs ws = sum_list (map (\<lambda>(v, w). v * w) (zip vs ws))"

text \<open>The five RSRP counts of \<open>process_cell\<close>, in the order of \<open>rsrp_stats\<close>.\<close>

definition rsrp_counts :: "real list \<Rightarrow> nat list" where
  "rsrp_counts rsrp_values =
     [count_where (\<lambda>v. - 70 \<le> v \<and> - 40 < v) rsrp_values,
      count_where (\<lambda>v. - 85 \<le> v \<and> v < - 70) rsrp_values,
      count_where (\<lambda>v. - 95 \<le> v \<and> v < - 85) rsrp_values,
      count_where (\<lambda>v. - 105 \<le> v \<and> v < - 95) rsrp_values,
      count_where (\<lambda>v. v < - 105) rsrp_values]"

text \<open>
  \<open>process_cell\<close>. After the measurement loop nothing in the body can raise on numbers,
  so the outer handler (which returns \<open>base_result\<close>) has no branch of its own here.
\<close>

definition process_cell ::
  "float_ops \<Rightarrow> string \<Rightarrow> string \<Rightarrow> real \<Rightarrow> real \<Rightarrow> string \<Rightarrow> cell_value mr_row list
     \<Rightarrow> cov_row" where
  "process_cell ar site_id cell_id ep_lat ep_lon carrier mr_data =
     (let cell_mr = filter (\<lambda>r. mr_site r = site_id \<and> mr_cell r = cell_id) mr_data
      in if cell_mr = [] then base_result site_id cell_id carrier
         else
           (let total_mr_points = length cell_mr;
                measurements = collect_measurements ar ep_lat ep_lon cell_mr;
                distances = map fst measurements;
                rsrp_values = map snd measurements
            in if distances = [] then base_result site_id cell_id carrier
               else
                 (let coverage_stats =
                        map (\<lambda>(min_dist, max_dist).
                               fmt1 (percent
                                 (count_where (\<lambda>d. py_le (Fin min_dist) d \<and> py_lt d (Fin max_dist))
                                    distances)
                                 total_mr_points))
                          distance_ranges_bounded
                        @ [fmt1 (percent (count_where (\<lambda>d. py_le (Fin 1000) d) distances)
                                   total_mr_points)];
                      counts = rsrp_counts rsrp_values;
                      rsrp_stats = map (\<lambda>c. fmt1 (percent c total_mr_points)) counts;
                      weighted_coverage = weighted coverage_stats weights;
                      weighted_rsrp = weighted rsrp_stats weights;
                      overall_score =
                        (weighted_coverage + weighted_rsrp) / (sum_list weights + sum_list weights);
                      poor_rsrp_count = counts ! 4;
                      poor_coverage_ratio = percent poor_rsrp_count total_mr_points;
                      coverage_status =
                        (if 50 < poor_coverage_ratio then ''Poor Coverage'' else ''Good Coverage'')
                  in \<lparr>cr_site = site_id, cr_cell = cell_id, cr_carrier = carrier,
                      cr_coverage = coverage_stats, cr_rsrp = rsrp_stats,
                      cr_overall = fmt1 overall_score, cr_total = total_mr_points,
                      cr_status = coverage_status\<rparr>)))"

text \<open>\<open>drop_duplicates()\<close> with the default \<open>keep='first'\<close>: first occurrences, in order.\<close>

definition drop_duplicates :: "'a list \<Rightarrow> 'a list" where
  "drop_duplicates xs = rev (remdups (rev xs))"

text \<open>
  The body of the per-cell \<open>try\<close> of \<open>analyze_coverage\<close>. \<open>None\<close>: the conversion of
  the EP coordinates raised, the handler prints and continues, and no row is appended.
\<close>

definition analyze_cell ::
  "float_ops \<Rightarrow> cell_value mr_row list \<Rightarrow> cell_value ep_row list \<Rightarrow> string \<times> string \<times> string
     \<Rightarrow> cov_row option" where
  "analyze_cell ar mr_data ep_data comb =
     (case comb of (site_id, cell_id, carrier) \<Rightarrow>
        (let ep_cell_data = filter (\<lambda>r. ep_site r = site_id \<and> ep_cell r = cell_id) ep_data
         in case ep_cell_data of
              [] \<Rightarrow> Some ((base_result site_id cell_id carrier)\<lparr>cr_status := ''No EP Data''\<rparr>)
            | first # _ \<Rightarrow>
                (case ep_latitude first of
                   None \<Rightarrow> None
                 | Some lat \<Rightarrow>
                     (case ep_longitude first of
                        None \<Rightarrow> None
                      | Some lon \<Rightarrow> Some (process_cell ar site_id cell_id lat lon carrier mr_data)))))"

text \<open>The loop over \<open>cell_combinations\<close>, appending to \<open>results\<close>.\<close>

fun analyze_rows ::
  "float_ops \<Rightarrow> cell_value mr_row list \<Rightarrow> cell_value ep_row list \<Rightarrow> (string \<times> string \<times> string) list
     \<Rightarrow> cov_row list \<Rightarrow> cov_row list" where
  "analyze_rows ar mr_data ep_data [] results = results"
| "analyze_rows ar mr_data ep_data (comb # combs) results =
     (case analyze_cell ar mr_data ep_data comb of
        None \<Rightarrow> analyze_rows ar mr_data ep_data combs results
      | Some result \<Rightarrow> analyze_rows ar mr_data ep_data combs (results @ [result]))"

text \<open>
  \<open>analyze_coverage\<close>: the result table as the list of its rows, sorted (stably) by site
  and cell id.
\<close>

definition analyze_coverage ::
  "float_ops \<Rightarrow> cell_value mr_row list \<Rightarrow> cell_value ep_row list \<Rightarrow> cov_row list" where
  "analyze_coverage ar mr_data ep_data =
     (let cell_combinations =
            drop_duplicates (map (\<lambda>r. (ep_site r, ep_cell r, ep_carrier r)) ep_data);
          results = analyze_rows ar mr_data ep_data cell_combinations []
      in sort_key (\<lambda>r. (cr_site r, cr_cell r)) results)"

section \<open>The coverage row of a cell, stated on the tables\<close>

text \<open>
  What the row of a cell holds, written as counts over the MR table and not as the loops of
  \<open>process_cell\<close>: the samples of a cell are the MR rows with its site and cell id,
  whatever their carrier; a sample is valid when its latitude, longitude and RSRP convert;
  distances are measured from the coordinates \<open>(lat, lon)\<close>; every percentage is a count
  of valid samples over the number of all samples of the cell.
\<close>

definition cell_samples :: "cell_value mr_row list \<Rightarrow> string \<Rightarrow> string \<Rightarrow> cell_value mr_row list" where
  "cell_samples mr_data site_id cell_id =
     filter (\<lambda>r. mr_site r = site_id \<and> mr_cell r = cell_id) mr_data"

definition valid_sample :: "cell_value mr_row \<Rightarrow> bool" where
  "valid_sample r \<longleftrightarrow> mr_latitude r \<noteq> None \<and> mr_longitude r \<noteq> None \<and> mr_rsrp r \<noteq> None"

definition sample_distance :: "float_ops \<Rightarrow> real \<Rightarrow> real \<Rightarrow> cell_value mr_row \<Rightarrow> pyfloat" where
  "sample_distance ar lat lon r =
     (case mr_latitude r of
        None \<Rightarrow> NaN
      | Some mr_lat \<Rightarrow>
          (case mr_longitude r of
             None \<Rightarrow> NaN
           | Some mr_lon \<Rightarrow> cov_calculate_distance ar (Fin lat) (Fin lon) (Fin mr_lat) (Fin mr_lon)))"

definition rsrp_below :: "real \<Rightarrow> cell_value mr_row \<Rightarrow> bool" where
  "rsrp_below limit r = (case mr_rsrp r of None \<Rightarrow> False | Some v \<Rightarrow> v < limit)"

definition rsrp_at_least :: "real \<Rightarrow> cell_value mr_row \<Rightarrow> bool" where
  "rsrp_at_least limit r = (case mr_rsrp r of None \<Rightarrow> False | Some v \<Rightarrow> limit \<le> v)"

definition rsrp_above :: "real \<Rightarrow> cell_value mr_row \<Rightarrow> bool" where
  "rsrp_above limit r = (case mr_rsrp r of None \<Rightarrow> False | Some v \<Rightarrow> limit < v)"

definition expected_row ::
  "float_ops \<Rightarrow> cell_value mr_row list \<Rightarrow> string \<Rightarrow> string \<Rightarrow> string \<Rightarrow> real \<Rightarrow> real \<Rightarrow> cov_row" where
  "expected_row ar mr_data site_id cell_id carrier lat lon =
     (let samples = cell_samples mr_data site_id cell_id;
          valid = filter valid_sample samples;
          share = (\<lambda>P. fmt1 (real (length (filter P valid)) / real (length samples) * 100));
          dist = sample_distance ar lat lon;
          d1 = share (\<lambda>r. py_le (Fin 0) (dist r) \<and> py_lt (dist r) (Fin 300));
          d2 = share (\<lambda>r. py_le (Fin 300) (dist r) \<and> py_lt (dist r) (Fin 500));
          d3 = share (\<lambda>r. py_le (Fin 500) (dist r) \<and> py_lt (dist r) (Fin 700));
          d4 = share (\<lambda>r. py_le (Fin 700) (dist r) \<and> py_lt (dist r) (Fin 1000));
          d5 = share (\<lambda>r. py_le (Fin 1000) (dist r));
          s1 = share (\<lambda>r. rsrp_at_least (- 70) r \<and> rsrp_above (- 40) r);
          s2 = share (\<lambda>r. rsrp_at_least (- 85) r \<and> rsrp_below (- 70) r);
          s3 = share (\<lambda>r. rsrp_at_least (- 95) r \<and> rsrp_below (- 85) r);
          s4 = share (\<lambda>r. rsrp_at_least (- 105) r \<and> rsrp_below (- 95) r);
          s5 = share (rsrp_below (- 105))
      in if valid = [] then
           \<lparr>cr_site = site_id, cr_cell = cell_id, cr_carrier = carrier,
            cr_coverage = [0, 0, 0, 0, 0], cr_rsrp = [0, 0, 0, 0, 0],
            cr_overall = 0, cr_total = 0, cr_status = ''No MR Data''\<rparr>
         else
           \<lparr>cr_site = site_id, cr_cell = cell_id, cr_carrier = carrier,
            cr_coverage = [d1, d2, d3, d4, d5], cr_rsrp = [s1, s2, s3, s4, s5],
            cr_overall =
              fmt1 (((d1 + d2 * (8 / 10) + d3 * (6 / 10) + d4 * (4 / 10) + d5 * (2 / 10))
                     + (s1 + s2 * (8 / 10) + s3 * (6 / 10) + s4 * (4 / 10) + s5 * (2 / 10))) / 6),
            cr_total = length samples,
            cr_status =
              (if length samples < 2 * length (filter (rsrp_below (- 105)) valid)
               then ''Poor Coverage'' else ''Good Coverage'')\<rparr>)"
section \<open>Actual-azimuth estimator (azimuth\_utils.py)\<close>


text \<open>The join key \<open>site_id + "_" + cell_id\<close>.\<close>

definition join_key :: "string \<Rightarrow> string \<Rightarrow> string" where
  "join_key site_id cell_id = site_id @ ''_'' @ cell_id"










section \<open>Neighbor finder (neighbor\_audit\_window.py)\<close>

record neighbor_rel =
  nb_serving_site :: string
  nb_serving_cell :: string
  nb_neighbor_site :: string
  nb_neighbor_cell :: string
  nb_distance :: real
  nb_azimuth_difference :: real
  nb_type :: string
  nb_serving_carrier :: string
  nb_neighbor_carrier :: string

text \<open>
  The body of the inner \<open>try\<close> of \<open>find_neighbors\<close> for one pair of rows: an exception,
  no entry (the pair is out of range), or the entry appended to \<open>cell_neighbors\<close>.
\<close>

definition neighbor_entry ::
  "cell_value ep_row \<Rightarrow> cell_value ep_row \<Rightarrow> real \<Rightarrow> failure + neighbor_rel option" where
  "neighbor_entry serving_cell neighbor_cell search_radius =
     (case ep_latitude serving_cell of None \<Rightarrow> Inl ConversionError | Some lat1 \<Rightarrow>
     (case ep_longitude serving_cell of None \<Rightarrow> Inl ConversionError | Some lon1 \<Rightarrow>
     (case ep_latitude neighbor_cell of None \<Rightarrow> Inl ConversionError | Some lat2 \<Rightarrow>
     (case ep_longitude neighbor_cell of None \<Rightarrow> Inl ConversionError | Some lon2 \<Rightarrow>
     (case nb_calculate_distance lat1 lon1 lat2 lon2 of None \<Rightarrow> Inl MathDomainError | Some distance \<Rightarrow>
        if distance \<le> search_radius then
          (case ep_azimuth serving_cell of None \<Rightarrow> Inl ConversionError | Some az1 \<Rightarrow>
          (case ep_azimuth neighbor_cell of None \<Rightarrow> Inl ConversionError | Some az2 \<Rightarrow>
             (let azimuth_diff = calculate_azimuth_difference az1 az2;
                  neighbor_type =
                    (if ep_carrier serving_cell = ep_carrier neighbor_cell
                     then ''Intra-Frequency'' else ''Inter-Frequency'')
              in Inr (Some
                   \<lparr>nb_serving_site = ep_site serving_cell,
                    nb_serving_cell = ep_cell serving_cell,
                    nb_neighbor_site = ep_site neighbor_cell,
                    nb_neighbor_cell = ep_cell neighbor_cell,
                    nb_distance = round2 distance,
                    nb_azimuth_difference = round2 azimuth_diff,
                    nb_type = neighbor_type,
                    nb_serving_carrier = ep_carrier serving_cell,
                    nb_neighbor_carrier = ep_carrier neighbor_cell\<rparr>))))
        else Inr None)))))"

text \<open>What the inner loop keeps of a pair: the entry, when the block appended one.\<close>

definition entry_of :: "failure + neighbor_rel option \<Rightarrow> neighbor_rel option" where
  "entry_of r = (case r of Inr (Some entry) \<Rightarrow> Some entry | Inr None \<Rightarrow> None | Inl e \<Rightarrow> None)"

text \<open>The inner loop over the rows \<open>(idx2, neighbor_cell)\<close>; the handler skips a failing pair.\<close>

fun scan_neighbors ::
  "nat \<Rightarrow> cell_value ep_row \<Rightarrow> real \<Rightarrow> (nat \<times> cell_value ep_row) list \<Rightarrow> neighbor_rel list
     \<Rightarrow> neighbor_rel list" where
  "scan_neighbors idx1 serving_cell search_radius [] cell_neighbors = cell_neighbors"
| "scan_neighbors idx1 serving_cell search_radius ((idx2, neighbor_cell) # rows) cell_neighbors =
     (if idx1 \<noteq> idx2 then
        (case neighbor_entry serving_cell neighbor_cell search_radius of
           Inr (Some entry) \<Rightarrow>
             scan_neighbors idx1 serving_cell search_radius rows (cell_neighbors @ [entry])
         | Inr None \<Rightarrow> scan_neighbors idx1 serving_cell search_radius rows cell_neighbors
         | Inl e \<Rightarrow> scan_neighbors idx1 serving_cell search_radius rows cell_neighbors)
      else scan_neighbors idx1 serving_cell search_radius rows cell_neighbors)"

text \<open>
  The outer loop over the rows \<open>(idx1, serving_cell)\<close>. \<open>list.sort\<close> is stable, as
  \<open>sort_key\<close> is; \<open>max_neighbors\<close> is the slider's value, a natural number.
\<close>

fun serve_cells ::
  "(nat \<times> cell_value ep_row) list \<Rightarrow> real \<Rightarrow> nat \<Rightarrow> (nat \<times> cell_value ep_row) list
     \<Rightarrow> neighbor_rel list \<Rightarrow> neighbor_rel list" where
  "serve_cells ep_rows search_radius max_neighbors [] neighbors_list = neighbors_list"
| "serve_cells ep_rows search_radius max_neighbors ((idx1, serving_cell) # rows) neighbors_list =
     (let cell_neighbors = scan_neighbors idx1 serving_cell search_radius ep_rows [];
          cell_neighbors = sort_key nb_distance cell_neighbors;
          cell_neighbors = take max_neighbors cell_neighbors
      in serve_cells ep_rows search_radius max_neighbors rows (neighbors_list @ cell_neighbors))"

definition find_neighbors :: "cell_value ep_row list \<Rightarrow> real \<Rightarrow> nat \<Rightarrow> neighbor_rel list" where
  "find_neighbors ep_data search_radius max_neighbors =
     (let ep_rows = enumerate 0 ep_data
      in serve_cells ep_rows search_radius max_neighbors ep_rows [])"

section \<open>Sector swap detector (sectorswap.py)\<close>

text \<open>
  The detector reads the numeric columns of its tables without conversion, so its rows are
  \<open>real ep_row\<close> and \<open>real mr_row\<close>. Site ids, cell ids and carriers are strings, on
  which \<open>str(...)\<close> is the identity. The settings of \<open>Parameter_Settings.json\<close> are a
  parameter of the model.
\<close>

record split_setting =
  sp_layer :: string
  sp_parent :: string
  sp_child :: string

record mimo_setting =
  mm_layer :: string
  mm_beam0 :: string
  mm_beam1 :: string
  mm_beam2 :: string
  mm_beam3 :: string

record param_settings =
  sector_split :: "split_setting list"
  massive_mimo :: "mimo_setting list"

text \<open>A row with the given cell id exists at the site (\<open>ep_data[...].shape[0] > 0\<close>).\<close>

definition cell_exists :: "string \<Rightarrow> string \<Rightarrow> real ep_row list \<Rightarrow> bool" where
  "cell_exists site_name cell_id ep_data =
     (filter (\<lambda>r. ep_site r = site_name \<and> ep_cell r = cell_id) ep_data \<noteq> [])"

text \<open>
  \<open>check_sector_split_pair\<close>: \<open>Some partner\<close> stands for \<open>(True, partner)\<close>, \<open>None\<close> for
  \<open>(False, None)\<close>.
\<close>

fun check_sector_split_pair ::
  "split_setting list \<Rightarrow> string \<Rightarrow> string \<Rightarrow> string \<Rightarrow> real ep_row list \<Rightarrow> string option" where
  "check_sector_split_pair [] site_name cell_id carrier ep_data = None"
| "check_sector_split_pair (split # splits) site_name cell_id carrier ep_data =
     (if sp_layer split = carrier then
        (if cell_id = sp_parent split then
           (if cell_exists site_name (sp_child split) ep_data then Some (sp_child split)
            else check_sector_split_pair splits site_name cell_id carrier ep_data)
         else if cell_id = sp_child split then
           (if cell_exists site_name (sp_parent split) ep_data then Some (sp_parent split)
            else check_sector_split_pair splits site_name cell_id carrier ep_data)
         else check_sector_split_pair splits site_name cell_id carrier ep_data)
      else check_sector_split_pair splits site_name cell_id carrier ep_data)"

text \<open>\<open>check_massive_mimo_group\<close>: \<open>Some beam_ids\<close> stands for \<open>(True, beam_ids)\<close>.\<close>

fun check_massive_mimo_group ::
  "mimo_setting list \<Rightarrow> string \<Rightarrow> string \<Rightarrow> string \<Rightarrow> real ep_row list \<Rightarrow> string list option" where
  "check_massive_mimo_group [] site_name cell_id carrier ep_data = None"
| "check_massive_mimo_group (mimo # mimos) site_name cell_id carrier ep_data =
     (if mm_layer mimo = carrier then
        (let beam_ids = [mm_beam0 mimo, mm_beam1 mimo, mm_beam2 mimo, mm_beam3 mimo]
         in if cell_id \<in> set beam_ids then
              (if list_all (\<lambda>beam_id. cell_exists site_name beam_id ep_data) beam_ids
               then Some beam_ids
               else check_massive_mimo_group mimos site_name cell_id carrier ep_data)
            else check_massive_mimo_group mimos site_name cell_id carrier ep_data)
      else check_massive_mimo_group mimos site_name cell_id carrier ep_data)"

text \<open>An entry of \<open>cell_configurations\<close>, without \<open>final_type\<close>, which is kept apart.\<close>

record cell_config =
  is_mimo :: bool
  mimo_group :: "string list option"
  is_split :: bool
  split_partner :: "string option"

text \<open>The key \<open>f"{cell_id}_{carrier}"\<close>.\<close>

definition cell_key_of :: "string \<Rightarrow> string \<Rightarrow> string" where
  "cell_key_of cell_id carrier = cell_id @ ''_'' @ carrier"

text \<open>\<open>s.split('_')\<close>.\<close>

fun split_underscore :: "string \<Rightarrow> string list" where
  "split_underscore [] = [[]]"
| "split_underscore (c # cs) =
     (let parts = split_underscore cs
      in if c = CHR ''_'' then [] # parts else (c # hd parts) # tl parts)"

text \<open>
  \<open>cell_key.split('_')[0]\<close> and \<open>cell_key.split('_')[1]\<close>. A cell key holds an
  underscore, so the list has a second element.
\<close>

definition key_cell_id :: "string \<Rightarrow> string" where
  "key_cell_id cell_key = split_underscore cell_key ! 0"

definition key_carrier :: "string \<Rightarrow> string" where
  "key_carrier cell_key = split_underscore cell_key ! 1"

text \<open>The first loop of \<open>process_enodeb\<close>: the dictionary \<open>cell_configurations\<close>, in insertion order.\<close>

definition configure_cells ::
  "param_settings \<Rightarrow> string \<Rightarrow> real ep_row list \<Rightarrow> (string \<times> cell_config) list" where
  "configure_cells settings enodeb ep_enodeb_data =
     fold (\<lambda>ep_row cell_configurations.
             (let cell_id = ep_cell ep_row;
                  carrier = ep_carrier ep_row;
                  cell_key = cell_key_of cell_id carrier;
                  mimo = check_massive_mimo_group (massive_mimo settings) enodeb cell_id carrier
                           ep_enodeb_data;
                  split = check_sector_split_pair (sector_split settings) enodeb cell_id carrier
                            ep_enodeb_data
              in AList.update cell_key
                   \<lparr>is_mimo = (mimo \<noteq> None), mimo_group = mimo,
                    is_split = (split \<noteq> None), split_partner = split\<rparr>
                   cell_configurations))
       ep_enodeb_data []"

text \<open>
  The key \<open>f"{tuple(sorted(group))}_{carrier}"\<close> of a MIMO group, kept as the pair of the
  sorted group and the carrier text: the printed tuple determines the group, and what
  follows it determines the carrier text.
\<close>

type_synonym mimo_group_key = "string list \<times> string"

definition mimo_group_key_of :: "string list \<Rightarrow> string \<Rightarrow> mimo_group_key" where
  "mimo_group_key_of beam_ids carrier = (sort beam_ids, carrier)"

text \<open>\<open>config['is_mimo'] and config['mimo_group']\<close>: the group is a non-empty list.\<close>

definition has_mimo_group :: "cell_config \<Rightarrow> bool" where
  "has_mimo_group config = (is_mimo config \<and> (case mimo_group config of None \<Rightarrow> False | Some g \<Rightarrow> g \<noteq> []))"

definition group_of :: "cell_config \<Rightarrow> string list" where
  "group_of config = (case mimo_group config of None \<Rightarrow> [] | Some g \<Rightarrow> g)"

text \<open>\<open>config['is_split'] and config['split_partner']\<close>: the partner is a non-empty string.\<close>

definition has_split_partner :: "cell_config \<Rightarrow> bool" where
  "has_split_partner config =
     (is_split config \<and> (case split_partner config of None \<Rightarrow> False | Some p \<Rightarrow> p \<noteq> []))"

text \<open>The partner as the f-string prints it.\<close>

definition partner_text :: "cell_config \<Rightarrow> string" where
  "partner_text config = (case split_partner config of None \<Rightarrow> ''None'' | Some p \<Rightarrow> p)"

text \<open>The loop that fills \<open>valid_mimo_groups\<close>.\<close>

definition validate_mimo_groups ::
  "(string \<times> cell_config) list \<Rightarrow> mimo_group_key \<rightharpoonup> bool" where
  "validate_mimo_groups cell_configurations =
     fold (\<lambda>(cell_key, config) valid_mimo_groups.
             if has_mimo_group config then
               (let carrier = key_carrier cell_key;
                    mimo_group_key = mimo_group_key_of (group_of config) carrier
                in if valid_mimo_groups mimo_group_key = None then
                     (let all_beams_exist =
                            list_all (\<lambda>beam_id. map_of cell_configurations (cell_key_of beam_id carrier) \<noteq> None)
                              (group_of config)
                      in valid_mimo_groups(mimo_group_key \<mapsto> all_beams_exist))
                   else valid_mimo_groups)
             else valid_mimo_groups)
       cell_configurations Map.empty"

text \<open>The loop that fills \<open>split_mimo_overlap\<close>.\<close>

definition find_split_mimo_overlap ::
  "(string \<times> cell_config) list \<Rightarrow> string \<rightharpoonup> mimo_group_key" where
  "find_split_mimo_overlap cell_configurations =
     fold (\<lambda>(cell_key, config) split_mimo_overlap.
             if has_split_partner config then
               (let carrier = key_carrier cell_key;
                    cell_id = key_cell_id cell_key;
                    partner_id = partner_text config
                in case find (\<lambda>(other_key, other_config).
                                has_mimo_group other_config
                                \<and> cell_id \<in> set (group_of other_config)
                                \<and> partner_id \<in> set (group_of other_config)) cell_configurations of
                     None \<Rightarrow> split_mimo_overlap
                   | Some (other_key, other_config) \<Rightarrow>
                       (let mimo_group_key = mimo_group_key_of (group_of other_config) carrier;
                            partner_key = cell_key_of partner_id carrier
                        in (split_mimo_overlap(cell_key \<mapsto> mimo_group_key))(partner_key \<mapsto> mimo_group_key)))
             else split_mimo_overlap)
       cell_configurations Map.empty"

text \<open>\<open>valid_mimo_groups.get(mimo_group_key, False)\<close>.\<close>

definition group_is_valid :: "(mimo_group_key \<rightharpoonup> bool) \<Rightarrow> mimo_group_key \<Rightarrow> bool" where
  "group_is_valid valid_mimo_groups mimo_group_key =
     (case valid_mimo_groups mimo_group_key of None \<Rightarrow> False | Some b \<Rightarrow> b)"

text \<open>The loop that sets \<open>final_type\<close>: the map from a cell key to its final type, where set.\<close>

definition resolve_final_types ::
  "(string \<times> cell_config) list \<Rightarrow> (mimo_group_key \<rightharpoonup> bool) \<Rightarrow> (string \<rightharpoonup> mimo_group_key)
     \<Rightarrow> string \<rightharpoonup> string" where
  "resolve_final_types cell_configurations valid_mimo_groups split_mimo_overlap =
     fold (\<lambda>(cell_key, config) final_type.
             (let carrier = key_carrier cell_key
              in case split_mimo_overlap cell_key of
                   Some mimo_group_key \<Rightarrow>
                     (if group_is_valid valid_mimo_groups mimo_group_key
                      then final_type(cell_key \<mapsto> ''Massive MIMO'')
                      else final_type(cell_key \<mapsto> ''Sector Split''))
                 | None \<Rightarrow>
                     (if has_mimo_group config then
                        (let mimo_group_key = mimo_group_key_of (group_of config) carrier
                         in if group_is_valid valid_mimo_groups mimo_group_key
                            then final_type(cell_key \<mapsto> ''Massive MIMO'')
                            else final_type)
                      else if is_split config \<and> final_type cell_key = None then
                        (let partner_key = cell_key_of (partner_text config) carrier
                         in if map_of cell_configurations partner_key \<noteq> None
                               \<and> final_type partner_key \<noteq> Some ''Massive MIMO''
                            then (final_type(cell_key \<mapsto> ''Sector Split''))(partner_key \<mapsto> ''Sector Split'')
                            else final_type)
                      else final_type)))
       cell_configurations Map.empty"

text \<open>The final types of a site, from its rows and the settings.\<close>

definition final_types :: "param_settings \<Rightarrow> string \<Rightarrow> real ep_row list \<Rightarrow> string \<rightharpoonup> string" where
  "final_types settings enodeb ep_enodeb_data =
     (let cell_configurations = configure_cells settings enodeb ep_enodeb_data
      in resolve_final_types cell_configurations
           (validate_mimo_groups cell_configurations)
           (find_split_mimo_overlap cell_configurations))"

text \<open>\<open>.get('final_type', "")\<close> on the entry of a cell.\<close>

definition cell_type_of :: "(string \<rightharpoonup> string) \<Rightarrow> string \<Rightarrow> string \<Rightarrow> string" where
  "cell_type_of final_type cell_id carrier =
     (case final_type (cell_key_of cell_id carrier) of None \<Rightarrow> [] | Some t \<Rightarrow> t)"

text \<open>\<open>sector_info_by_carrier[carrier]\<close>: cell id to (azimuth, latitude, longitude), in insertion order.\<close>

definition sector_info_of :: "real ep_row list \<Rightarrow> string \<Rightarrow> (string \<times> real \<times> real \<times> real) list" where
  "sector_info_of ep_enodeb_data carrier =
     fold (\<lambda>ep_row sector_info.
             AList.update (ep_cell ep_row)
               (fmod (ep_azimuth ep_row) 360, ep_latitude ep_row, ep_longitude ep_row) sector_info)
       (filter (\<lambda>r. ep_carrier r = carrier) ep_enodeb_data) []"

text \<open>The MR rows of a cell: \<open>mr_enodeb_data['MR_key'] == ep_cell_key\<close>.\<close>

definition mr_of_cell :: "real mr_row list \<Rightarrow> real ep_row \<Rightarrow> real mr_row list" where
  "mr_of_cell mr_enodeb_data ep_row =
     filter (\<lambda>m. join_key (mr_site m) (mr_cell m) = join_key (ep_site ep_row) (ep_cell ep_row))
       mr_enodeb_data"

text \<open>The test of the histogram pass: the sample lies in the cone of the other sector.\<close>

definition in_cone :: "real \<times> real \<times> real \<Rightarrow> real mr_row \<Rightarrow> bool" where
  "in_cone info mr_row =
     (case info of (other_az, other_lat, other_lon) \<Rightarrow>
        (let FIXED_BEAMWIDTH = 65;
             mr_az = fmod (calculate_azimuth other_lat other_lon (mr_latitude mr_row) (mr_longitude mr_row)) 360;
             az_diff = \<bar>fmod (mr_az - other_az + 180) 360 - 180\<bar>
         in az_diff \<le> FIXED_BEAMWIDTH / 2))"

text \<open>The histogram loops: over the MR rows of the cell, and for each over \<open>sector_info\<close>.\<close>

definition count_directions ::
  "(string \<times> real \<times> real \<times> real) list \<Rightarrow> real mr_row list \<Rightarrow> (string \<times> nat) list" where
  "count_directions sector_info mr_cell_data =
     fold (\<lambda>mr_row direction_counts.
             fold (\<lambda>(other_cid, info) direction_counts.
                     if in_cone info mr_row then AList.map_entry other_cid Suc direction_counts
                     else direction_counts)
               sector_info direction_counts)
       mr_cell_data (map (\<lambda>(cid, info). (cid, 0)) sector_info)"

text \<open>
  \<open>max(direction_counts, key=...)\<close> with its count: the first key, in insertion order,
  that carries the greatest count. \<open>None\<close> on an empty dictionary, where \<open>max\<close> raises;
  the dictionary of a pass holds the cell itself, so this does not happen.
\<close>

fun max_entry_from :: "string \<times> nat \<Rightarrow> (string \<times> nat) list \<Rightarrow> string \<times> nat" where
  "max_entry_from best [] = best"
| "max_entry_from best (entry # entries) =
     (if snd best < snd entry then max_entry_from entry entries else max_entry_from best entries)"

definition max_entry :: "(string \<times> nat) list \<Rightarrow> (string \<times> nat) option" where
  "max_entry direction_counts =
     (case direction_counts of [] \<Rightarrow> None | entry # entries \<Rightarrow> Some (max_entry_from entry entries))"

text \<open>An entry of \<open>swap_candidates\<close>, with the fields the second pass reads.\<close>

record candidate =
  cd_target :: string
  cd_max_count :: nat
  cd_total_mr :: nat
  cd_second_max_count :: nat
  cd_cell_type :: string
  cd_is_split :: bool
  cd_direction_counts :: "(string \<times> nat) list"

text \<open>The statistics of one cell of the first pass.\<close>

definition candidate_of ::
  "(string \<times> real \<times> real \<times> real) list \<Rightarrow> string \<Rightarrow> real mr_row list \<Rightarrow> candidate option" where
  "candidate_of sector_info cell_type mr_cell_data =
     (let direction_counts = count_directions sector_info mr_cell_data;
          total_mr = sum_list (map snd direction_counts);
          sorted_counts = rev (sort (map snd direction_counts))
      in case max_entry direction_counts of
           None \<Rightarrow> None
         | Some (max_cell, max_count) \<Rightarrow>
             Some \<lparr>cd_target = max_cell, cd_max_count = max_count, cd_total_mr = total_mr,
                   cd_second_max_count = (if 1 < length sorted_counts then sorted_counts ! 1 else 0),
                   cd_cell_type = cell_type,
                   cd_is_split = (cell_type = ''Sector Split''),
                   cd_direction_counts = direction_counts\<rparr>)"

text \<open>
  The first pass: \<open>swap_candidates\<close>, in insertion order. \<open>cell_stats\<close> has the same keys
  in the same order, and its \<open>cell_type\<close> is the one of the candidate.
\<close>

definition first_pass ::
  "(string \<rightharpoonup> string) \<Rightarrow> real ep_row list \<Rightarrow> real mr_row list \<Rightarrow> string
     \<Rightarrow> (string \<times> candidate) list" where
  "first_pass final_type ep_enodeb_data mr_enodeb_data carrier =
     (let sector_info = sector_info_of ep_enodeb_data carrier
      in fold (\<lambda>ep_row swap_candidates.
                 (let cell_id = ep_cell ep_row;
                      cell_type = cell_type_of final_type cell_id carrier;
                      mr_cell_data = mr_of_cell mr_enodeb_data ep_row
                  in if cell_type = ''Massive MIMO'' then swap_candidates
                     else if mr_cell_data = [] \<or> length mr_cell_data < 50 then swap_candidates
                     else
                       (case candidate_of sector_info cell_type mr_cell_data of
                          None \<Rightarrow> swap_candidates
                        | Some candidate \<Rightarrow> AList.update cell_id candidate swap_candidates)))
           (filter (\<lambda>r. ep_carrier r = carrier) ep_enodeb_data) [])"

text \<open>A result row: site, cell id, result text, cell type.\<close>

type_synonym swap_row = "string \<times> string \<times> string \<times> string"

definition swap_found_text :: "string \<Rightarrow> string \<Rightarrow> string" where
  "swap_found_text cell_id target = ''Sector Swap Found Between '' @ cell_id @ '' and '' @ target"

record pass_state =
  processed_pairs :: "(string \<times> string) set"
  added_cells :: "(string \<times> string) set"
  swap_found_cells :: "(string \<times> string) set"
  results :: "swap_row list"

text \<open>\<open>tuple(sorted([cell_id, target]))\<close>.\<close>

definition sorted_pair :: "string \<Rightarrow> string \<Rightarrow> string \<times> string" where
  "sorted_pair cell_id target = (if cell_id \<le> target then (cell_id, target) else (target, cell_id))"

text \<open>The two guarded appends of a confirmed pair.\<close>

definition append_swap :: "string \<Rightarrow> string \<Rightarrow> string \<Rightarrow> string \<Rightarrow> pass_state \<Rightarrow> pass_state" where
  "append_swap enodeb cell_id target cell_type st =
     (if (cell_id, target) \<notin> added_cells st then
        st\<lparr>results := results st @ [(enodeb, cell_id, swap_found_text cell_id target, cell_type)],
           added_cells := insert (cell_id, target) (added_cells st),
           swap_found_cells := insert (enodeb, cell_id) (swap_found_cells st)\<rparr>
      else st)"

text \<open>
  The rules of the second pass. The thresholds are compared exactly; on counts of samples
  the floating-point comparisons of the code decide the same way.
\<close>

definition direction_ratio :: "candidate \<Rightarrow> string \<Rightarrow> real" where
  "direction_ratio candidate target =
     (let dir_count = (case map_of (cd_direction_counts candidate) target of None \<Rightarrow> 0 | Some n \<Rightarrow> n)
      in if 0 < cd_total_mr candidate then real dir_count / real (cd_total_mr candidate) else 0)"

definition adaptive_swap :: "real \<Rightarrow> real \<Rightarrow> bool" where
  "adaptive_swap cell_ratio target_ratio =
     ((6 / 10 < cell_ratio \<and> 3 / 10 < target_ratio) \<or> (3 / 10 < cell_ratio \<and> 6 / 10 < target_ratio))"

definition strict_rule :: "candidate \<Rightarrow> bool" where
  "strict_rule candidate =
     (7 / 10 * real (cd_total_mr candidate) \<le> real (cd_max_count candidate)
      \<and> 2 / 10 * real (cd_total_mr candidate)
          \<le> real_of_int (int (cd_max_count candidate) - int (cd_second_max_count candidate)))"

text \<open>One iteration of the second pass, for the item \<open>(cell_id, candidate)\<close>.\<close>

definition swap_step ::
  "string \<Rightarrow> (string \<times> candidate) list \<Rightarrow> string \<times> candidate \<Rightarrow> pass_state \<Rightarrow> pass_state" where
  "swap_step enodeb swap_candidates item st =
     (case item of (cell_id, candidate) \<Rightarrow>
        if cd_total_mr candidate = 0 then st
        else
          (let target = cd_target candidate
           in case map_of swap_candidates target of
                None \<Rightarrow> st
              | Some target_candidate \<Rightarrow>
                  if cd_total_mr target_candidate = 0 then st
                  else
                    (let pair = sorted_pair cell_id target;
                         cell_ratio = direction_ratio candidate target;
                         target_ratio = direction_ratio target_candidate cell_id;
                         adaptive = adaptive_swap cell_ratio target_ratio;
                         mutual = (cd_target target_candidate = cell_id);
                         strict_swap = (strict_rule candidate \<and> strict_rule target_candidate);
                         confirmed =
                           (if cd_is_split candidate
                            then mutual \<and> pair \<notin> processed_pairs st \<and> cd_is_split target_candidate
                            else (mutual \<and> (adaptive \<or> strict_swap)) \<and> pair \<notin> processed_pairs st)
                     in if confirmed then
                          (if cell_id = target then st
                           else
                             append_swap enodeb target cell_id (cd_cell_type target_candidate)
                               (append_swap enodeb cell_id target (cd_cell_type candidate)
                                  (st\<lparr>processed_pairs := insert pair (processed_pairs st)\<rparr>)))
                        else st)))"

text \<open>The loop over \<open>cell_stats\<close> that reports the cells without a swap.\<close>

definition append_no_swap :: "string \<Rightarrow> (string \<times> candidate) list \<Rightarrow> pass_state \<Rightarrow> swap_row list" where
  "append_no_swap enodeb swap_candidates st =
     fold (\<lambda>(cell_id, candidate) results.
             if (enodeb, cell_id) \<notin> swap_found_cells st
             then results @ [(enodeb, cell_id, ''No Sector Swap Found'', cd_cell_type candidate)]
             else results)
       swap_candidates (results st)"

text \<open>Both passes for the carrier of a cell that has enough samples, appending to \<open>results\<close>.\<close>

definition carrier_passes ::
  "(string \<rightharpoonup> string) \<Rightarrow> string \<Rightarrow> real ep_row list \<Rightarrow> real mr_row list \<Rightarrow> string
     \<Rightarrow> swap_row list \<Rightarrow> swap_row list" where
  "carrier_passes final_type enodeb ep_enodeb_data mr_enodeb_data carrier results0 =
     (let swap_candidates = first_pass final_type ep_enodeb_data mr_enodeb_data carrier;
          st = fold (swap_step enodeb swap_candidates) swap_candidates
                 \<lparr>processed_pairs = {}, added_cells = {}, swap_found_cells = {}, results = results0\<rparr>
      in append_no_swap enodeb swap_candidates st)"

text \<open>One iteration of the loop over the cells of the site.\<close>

definition process_cell_row ::
  "(string \<rightharpoonup> string) \<Rightarrow> string \<Rightarrow> real ep_row list \<Rightarrow> real mr_row list \<Rightarrow> real ep_row
     \<Rightarrow> swap_row list \<Rightarrow> swap_row list" where
  "process_cell_row final_type enodeb ep_enodeb_data mr_enodeb_data ep_row results0 =
     (let cell_id = ep_cell ep_row;
          carrier = ep_carrier ep_row;
          cell_type = cell_type_of final_type cell_id carrier
      in if cell_type = ''Massive MIMO'' then
           results0 @ [(enodeb, cell_id, ''No Sector Swap Found - '' @ cell_type, cell_type)]
         else
           (let mr_cell_data = mr_of_cell mr_enodeb_data ep_row
            in if mr_cell_data = [] then
                 results0 @ [(enodeb, cell_id, ''NO MR Data found for the cell'', cell_type)]
               else if length mr_cell_data < 50 then
                 results0 @ [(enodeb, cell_id, ''Less Number of MR Points'', cell_type)]
               else carrier_passes final_type enodeb ep_enodeb_data mr_enodeb_data carrier results0))"

text \<open>\<open>drop_duplicates(subset=...)\<close>: the first row of each value of the subset, in order.\<close>

fun drop_duplicates_on :: "('a \<Rightarrow> 'k) \<Rightarrow> 'k list \<Rightarrow> 'a list \<Rightarrow> 'a list" where
  "drop_duplicates_on columns seen [] = []"
| "drop_duplicates_on columns seen (row # rows) =
     (if columns row \<in> set seen then drop_duplicates_on columns seen rows
      else row # drop_duplicates_on columns (columns row # seen) rows)"

text \<open>\<open>process_enodeb\<close>.\<close>

definition process_enodeb ::
  "param_settings \<Rightarrow> string \<Rightarrow> real ep_row list \<Rightarrow> real mr_row list \<Rightarrow> swap_row list" where
  "process_enodeb settings enodeb ep_enodeb_data mr_enodeb_data =
     (let final_type = final_types settings enodeb ep_enodeb_data;
          results = fold (process_cell_row final_type enodeb ep_enodeb_data mr_enodeb_data)
                      ep_enodeb_data []
      in drop_duplicates_on (\<lambda>(name, cell_id, result, cell_type). (name, cell_id, result)) [] results)"

subsection \<open>Notions for the proofs about the second pass\<close>

text \<open>The conditions under which an iteration of the second pass confirms its pair.\<close>

definition confirms :: "(string \<times> candidate) list \<Rightarrow> string \<Rightarrow> candidate \<Rightarrow> candidate \<Rightarrow> bool" where
  "confirms cs k c tc \<longleftrightarrow>
     map_of cs (cd_target c) = Some tc \<and> cd_total_mr c \<noteq> 0 \<and> cd_total_mr tc \<noteq> 0
     \<and> cd_target tc = k \<and> k \<noteq> cd_target c
     \<and> (if cd_is_split c then cd_is_split tc
         else adaptive_swap (direction_ratio c (cd_target c)) (direction_ratio tc k)
              \<or> (strict_rule c \<and> strict_rule tc))"

text \<open>
  What the second pass maintains: a pair recorded in \<open>added_cells\<close> has its row in
  \<open>results\<close>, and a pair recorded in \<open>processed_pairs\<close> is in \<open>added_cells\<close> both ways.
\<close>

definition pass_inv :: "string \<Rightarrow> pass_state \<Rightarrow> bool" where
  "pass_inv e st \<longleftrightarrow>
     (\<forall>x y. (x, y) \<in> added_cells st \<longrightarrow> (\<exists>ty. (e, x, swap_found_text x y, ty) \<in> set (results st)))
     \<and> (\<forall>x y. sorted_pair x y \<in> processed_pairs st \<longrightarrow> (x, y) \<in> added_cells st \<and> (y, x) \<in> added_cells st)"

text \<open>The candidate the first pass stores for a row, if it stores one.\<close>

definition entry_for ::
  "(string \<rightharpoonup> string) \<Rightarrow> real ep_row list \<Rightarrow> real mr_row list \<Rightarrow> string \<Rightarrow> real ep_row
     \<Rightarrow> candidate option" where
  "entry_for final_type ep_enodeb_data mr_enodeb_data carrier ep_row =
     (let cell_type = cell_type_of final_type (ep_cell ep_row) carrier;
          mr_cell_data = mr_of_cell mr_enodeb_data ep_row
      in if cell_type = ''Massive MIMO'' \<or> length mr_cell_data < 50 then None
         else candidate_of (sector_info_of ep_enodeb_data carrier) cell_type mr_cell_data)"

text \<open>
  The MR rows attributed to a cell of the site, and the statistics of the cell in the pass
  of its carrier: target, counts and histogram over the sectors of the carrier.
\<close>

definition attributed :: "real mr_row list \<Rightarrow> string \<Rightarrow> string \<Rightarrow> real mr_row list" where
  "attributed mr_enodeb_data enodeb cell_id =
     filter (\<lambda>m. join_key (mr_site m) (mr_cell m) = join_key enodeb cell_id) mr_enodeb_data"

definition candidate_for ::
  "param_settings \<Rightarrow> string \<Rightarrow> real ep_row list \<Rightarrow> real mr_row list \<Rightarrow> string \<Rightarrow> string
     \<Rightarrow> candidate option" where
  "candidate_for settings enodeb ep_enodeb_data mr_enodeb_data carrier cell_id =
     candidate_of (sector_info_of ep_enodeb_data carrier)
       (cell_type_of (final_types settings enodeb ep_enodeb_data) cell_id carrier)
       (attributed mr_enodeb_data enodeb cell_id)"

text \<open>
  The condition on a pair of cells of a carrier under which the second pass confirms a
  swap: the pair is mutual, both totals are positive, and the strict or the adaptive rule
  holds.
\<close>

definition swap_condition ::
  "param_settings \<Rightarrow> string \<Rightarrow> real ep_row list \<Rightarrow> real mr_row list \<Rightarrow> string \<Rightarrow> string \<Rightarrow> string
     \<Rightarrow> bool" where
  "swap_condition settings e ep mr carrier a b \<longleftrightarrow>
     (\<exists>ca cb. candidate_for settings e ep mr carrier a = Some ca
        \<and> candidate_for settings e ep mr carrier b = Some cb
        \<and> cd_target ca = b \<and> cd_target cb = a
        \<and> cd_total_mr ca \<noteq> 0 \<and> cd_total_mr cb \<noteq> 0
        \<and> ((strict_rule ca \<and> strict_rule cb)
           \<or> adaptive_swap (direction_ratio ca b) (direction_ratio cb a)))"

section \<open>Properties of the geodesic primitives\<close>

lemma sin_half_sq: "(sin (u / 2))\<^sup>2 = (1 - cos u) / 2" for u :: real
  using cos_double_sin [of "u / 2"] by simp

lemma abs_prod_le: "2 * \<bar>a * b\<bar> \<le> a\<^sup>2 + b\<^sup>2" for a b :: real
proof -
  have "0 \<le> (\<bar>a\<bar> - \<bar>b\<bar>)\<^sup>2" by simp
  then show ?thesis by (simp add: power2_diff abs_mult)
qed

lemma haversine_a_eq:
  "haversine_a lat1 lon1 lat2 lon2 =
     (1 - (sin (radians lat1) * sin (radians lat2)
           + cos (radians lat1) * cos (radians lat2) * cos (radians lon2 - radians lon1))) / 2"
proof -
  have "cos (radians lat2 - radians lat1)
          = cos (radians lat2) * cos (radians lat1) + sin (radians lat2) * sin (radians lat1)"
    by (rule cos_diff)
  then show ?thesis
    unfolding haversine_a_def Let_def sin_half_sq
    by (simp add: field_simps)
qed

lemma dot_bounded:
  fixes s1 c1 s2 c2 k :: real
  assumes "s1\<^sup>2 + c1\<^sup>2 = 1" "s2\<^sup>2 + c2\<^sup>2 = 1" "\<bar>k\<bar> \<le> 1"
  shows "\<bar>s1 * s2 + c1 * c2 * k\<bar> \<le> 1"
proof -
  define p where "p = \<bar>s1 * s2\<bar>"
  define q where "q = \<bar>c1 * c2\<bar>"
  have "\<bar>c1 * c2 * k\<bar> = q * \<bar>k\<bar>"
    by (simp add: q_def abs_mult)
  also have "\<dots> \<le> q * 1"
    by (rule mult_left_mono) (use assms(3) in \<open>simp_all add: q_def\<close>)
  finally have k: "\<bar>c1 * c2 * k\<bar> \<le> q" by simp
  have "\<bar>s1 * s2 + c1 * c2 * k\<bar> \<le> p + \<bar>c1 * c2 * k\<bar>"
    unfolding p_def by (rule abs_triangle_ineq)
  with k have 1: "\<bar>s1 * s2 + c1 * c2 * k\<bar> \<le> p + q" by simp
  have "2 * p \<le> s1\<^sup>2 + s2\<^sup>2" "2 * q \<le> c1\<^sup>2 + c2\<^sup>2"
    unfolding p_def q_def by (rule abs_prod_le)+
  with assms(1,2) have "p + q \<le> 1" by simp
  with 1 show ?thesis by simp
qed

lemma haversine_a_range: "0 \<le> haversine_a lat1 lon1 lat2 lon2 \<and> haversine_a lat1 lon1 lat2 lon2 \<le> 1"
proof -
  define d where "d = sin (radians lat1) * sin (radians lat2)
           + cos (radians lat1) * cos (radians lat2) * cos (radians lon2 - radians lon1)"
  have "\<bar>d\<bar> \<le> 1"
    unfolding d_def by (rule dot_bounded) simp_all
  moreover have "haversine_a lat1 lon1 lat2 lon2 = (1 - d) / 2"
    unfolding d_def by (rule haversine_a_eq)
  ultimately show ?thesis by (simp add: abs_le_iff)
qed

lemma atan2_nonneg_range: "0 \<le> y \<Longrightarrow> 0 \<le> x \<Longrightarrow> 0 \<le> atan2 y x \<and> atan2 y x \<le> pi / 2"
  unfolding atan2_def
  using arctan_ubound [of "y / x"] by (auto simp: zero_le_arctan_iff intro: less_imp_le)

lemma atan2_zero_iff: "0 \<le> y \<Longrightarrow> 0 \<le> x \<Longrightarrow> atan2 y x = 0 \<longleftrightarrow> y = 0"
  unfolding atan2_def by auto

text \<open>On finite arguments only a square root can raise.\<close>

lemma calculate_distance_finite:
  "calculate_distance ar (Fin lat1) (Fin lon1) (Fin lat2) (Fin lon2) =
     (if 0 \<le> haversine_term ar lat1 lon1 lat2 lon2
           \<and> 0 \<le> fl_sub ar 1 (haversine_term ar lat1 lon1 lat2 lon2)
      then Inr (Fin (great_circle ar (haversine_term ar lat1 lon1 lat2 lon2)))
      else Inl MathDomainError)"
  by (simp add: calculate_distance_def haversine_term_def great_circle_def Let_def)

lemma haversine_term_exact: "haversine_term exact lat1 lon1 lat2 lon2 = haversine_a lat1 lon1 lat2 lon2"
  by (simp add: haversine_term_def haversine_a_def exact_def Let_def)

lemma great_circle_exact: "great_circle exact a = 6371 * (2 * atan2 (sqrt a) (sqrt (1 - a))) * 1000"
  by (simp add: great_circle_def exact_def)

lemma calculate_distance_exact:
  "calculate_distance exact (Fin lat1) (Fin lon1) (Fin lat2) (Fin lon2) =
     Inr (Fin (great_circle exact (haversine_a lat1 lon1 lat2 lon2)))"
  using haversine_a_range [of lat1 lon1 lat2 lon2]
  by (simp add: calculate_distance_finite haversine_term_exact) (simp add: exact_def)

text \<open>NaN passes through every operation of the body; an infinity stops at a sine or cosine.\<close>

lemma calculate_distance_nan:
  assumes "\<not> isinf lat1" "\<not> isinf lon1" "\<not> isinf lat2" "\<not> isinf lon2"
    and "isnan lat1 \<or> isnan lon1 \<or> isnan lat2 \<or> isnan lon2"
  shows "calculate_distance ar lat1 lon1 lat2 lon2 = Inr NaN"
  using assms
  by (cases lat1; cases lon1; cases lat2; cases lon2)
     (simp_all add: calculate_distance_def Let_def)

lemma calculate_distance_inf:
  assumes "isinf lat1 \<or> isinf lat2 \<or> (isinf lon1 \<and> isfinite lon2) \<or> (isfinite lon1 \<and> isinf lon2)"
  shows "calculate_distance ar lat1 lon1 lat2 lon2 = Inl MathDomainError"
  using assms
  by (cases lat1; cases lon1; cases lat2; cases lon2)
     (simp_all add: calculate_distance_def Let_def)

lemma haversine_term_antipodal: "haversine_term rounding_up 8 90 (- 8) (- 90) = 1 + 1 / 2 ^ 53"
proof -
  define x :: real where "x = 8 * pi / 180"
  have 1: "(- x - x) / 2 = - x"
    by simp
  have 2: "(radians (- 90) - radians 90) / 2 = - (pi / 2)"
    by (simp add: radians_def)
  have 3: "radians 8 = x" "radians (- 8) = - x"
    by (simp_all add: radians_def x_def)
  have "haversine_term rounding_up 8 90 (- 8) (- 90)
          = ((sin (- x))\<^sup>2 + cos x * cos (- x) * (sin (- (pi / 2)))\<^sup>2) * (1 + 1 / 2 ^ 53)"
    unfolding haversine_term_def rounding_up_def exact_def Let_def
    by (simp only: float_ops.simps 1 2 3)
  also have "(sin (- x))\<^sup>2 + cos x * cos (- x) * (sin (- (pi / 2)))\<^sup>2 = (sin x)\<^sup>2 + (cos x)\<^sup>2"
    by (simp add: power2_eq_square)
  finally show ?thesis by simp
qed

lemma great_circle_range:
  assumes "0 \<le> a" "a \<le> 1"
  shows "great_circle exact a = 6371000 * (2 * atan2 (sqrt a) (sqrt (1 - a)))"
    and "0 \<le> great_circle exact a" and "great_circle exact a \<le> 6371000 * pi"
    and "great_circle exact a = 0 \<longleftrightarrow> a = 0"
proof -
  have r: "0 \<le> atan2 (sqrt a) (sqrt (1 - a))" "atan2 (sqrt a) (sqrt (1 - a)) \<le> pi / 2"
    using atan2_nonneg_range [of "sqrt a" "sqrt (1 - a)"] assms by simp_all
  have z: "atan2 (sqrt a) (sqrt (1 - a)) = 0 \<longleftrightarrow> a = 0"
    using atan2_zero_iff [of "sqrt a" "sqrt (1 - a)"] assms by simp
  show "great_circle exact a = 6371000 * (2 * atan2 (sqrt a) (sqrt (1 - a)))"
    by (simp add: great_circle_exact)
  show "0 \<le> great_circle exact a" using r by (simp add: great_circle_exact)
  show "great_circle exact a \<le> 6371000 * pi" using r by (simp add: great_circle_exact)
  show "great_circle exact a = 0 \<longleftrightarrow> a = 0" using z by (simp add: great_circle_exact)
qed

text \<open>
  Claim C8, as amended. The distance functions check no range. On finite arguments, in
  range or not, they evaluate the haversine formula: when the computed haversine term
  \<open>a\<close> has \<open>0 \<le> a\<close> and \<open>0 \<le> 1 - a\<close> they return
  \<open>6371 * (2 * atan2 (sqrt a) (sqrt (1 - a))) * 1000\<close>, and otherwise \<open>math.sqrt\<close>
  raises \<open>ValueError\<close>: \<open>azimuth_utils.calculate_distance\<close> raises, and the handler
  of \<open>CoverageCalculator.calculate_distance\<close> returns 0. In exact arithmetic the term is
  always in \<open>[0, 1]\<close>, neither function raises, and the distance lies between 0 and
  \<open>6371000 * pi\<close> and is 0 only when the term is 0; with rounding the term can exceed 1.
  With NaN in an argument and no infinite argument both functions return NaN without
  raising. With an infinite latitude, or one infinite and one finite longitude,
  \<open>math.sin\<close> or \<open>math.cos\<close> raises: the first function raises and the second
  returns 0.
\<close>

theorem calculate_distance_cases:
  "(let a = haversine_term ar lat1 lon1 lat2 lon2
    in calculate_distance ar (Fin lat1) (Fin lon1) (Fin lat2) (Fin lon2) =
         (if 0 \<le> a \<and> 0 \<le> fl_sub ar 1 a then Inr (Fin (great_circle ar a))
          else Inl MathDomainError)
     \<and> cov_calculate_distance ar (Fin lat1) (Fin lon1) (Fin lat2) (Fin lon2) =
         (if 0 \<le> a \<and> 0 \<le> fl_sub ar 1 a then Fin (great_circle ar a) else Fin 0))
   \<and> (let a = haversine_term exact lat1 lon1 lat2 lon2
      in 0 \<le> a \<and> a \<le> 1
       \<and> calculate_distance exact (Fin lat1) (Fin lon1) (Fin lat2) (Fin lon2)
           = Inr (Fin (6371000 * (2 * atan2 (sqrt a) (sqrt (1 - a)))))
       \<and> 0 \<le> 6371000 * (2 * atan2 (sqrt a) (sqrt (1 - a)))
       \<and> 6371000 * (2 * atan2 (sqrt a) (sqrt (1 - a))) \<le> 6371000 * pi
       \<and> (6371000 * (2 * atan2 (sqrt a) (sqrt (1 - a))) = 0 \<longleftrightarrow> a = 0))
   \<and> (\<not> isinf p1 \<and> \<not> isinf q1 \<and> \<not> isinf p2 \<and> \<not> isinf q2
        \<and> (isnan p1 \<or> isnan q1 \<or> isnan p2 \<or> isnan q2)
      \<longrightarrow> calculate_distance ar p1 q1 p2 q2 = Inr NaN
          \<and> cov_calculate_distance ar p1 q1 p2 q2 = NaN)
   \<and> (isinf p1 \<or> isinf p2 \<or> (isinf q1 \<and> isfinite q2) \<or> (isfinite q1 \<and> isinf q2)
      \<longrightarrow> calculate_distance ar p1 q1 p2 q2 = Inl MathDomainError
          \<and> cov_calculate_distance ar p1 q1 p2 q2 = Fin 0)"
proof (intro conjI impI)
  show "let a = haversine_term ar lat1 lon1 lat2 lon2
    in calculate_distance ar (Fin lat1) (Fin lon1) (Fin lat2) (Fin lon2) =
         (if 0 \<le> a \<and> 0 \<le> fl_sub ar 1 a then Inr (Fin (great_circle ar a))
          else Inl MathDomainError)
     \<and> cov_calculate_distance ar (Fin lat1) (Fin lon1) (Fin lat2) (Fin lon2) =
         (if 0 \<le> a \<and> 0 \<le> fl_sub ar 1 a then Fin (great_circle ar a) else Fin 0)"
    by (simp add: cov_calculate_distance_def calculate_distance_finite Let_def)
next
  define a where "a = haversine_a lat1 lon1 lat2 lon2"
  have a: "0 \<le> a" "a \<le> 1"
    unfolding a_def using haversine_a_range by simp_all
  note g = great_circle_range [OF a]
  have "calculate_distance exact (Fin lat1) (Fin lon1) (Fin lat2) (Fin lon2)
          = Inr (Fin (6371000 * (2 * atan2 (sqrt a) (sqrt (1 - a)))))"
    unfolding calculate_distance_exact a_def [symmetric] g(1) ..
  with a g show "let a = haversine_term exact lat1 lon1 lat2 lon2
      in 0 \<le> a \<and> a \<le> 1
       \<and> calculate_distance exact (Fin lat1) (Fin lon1) (Fin lat2) (Fin lon2)
           = Inr (Fin (6371000 * (2 * atan2 (sqrt a) (sqrt (1 - a)))))
       \<and> 0 \<le> 6371000 * (2 * atan2 (sqrt a) (sqrt (1 - a)))
       \<and> 6371000 * (2 * atan2 (sqrt a) (sqrt (1 - a))) \<le> 6371000 * pi
       \<and> (6371000 * (2 * atan2 (sqrt a) (sqrt (1 - a))) = 0 \<longleftrightarrow> a = 0)"
    unfolding haversine_term_exact a_def [symmetric] Let_def by simp
next
  assume h: "\<not> isinf p1 \<and> \<not> isinf q1 \<and> \<not> isinf p2 \<and> \<not> isinf q2
        \<and> (isnan p1 \<or> isnan q1 \<or> isnan p2 \<or> isnan q2)"
  then show n: "calculate_distance ar p1 q1 p2 q2 = Inr NaN"
    by (intro calculate_distance_nan) simp_all
  then show "cov_calculate_distance ar p1 q1 p2 q2 = NaN"
    by (simp add: cov_calculate_distance_def)
next
  assume h: "isinf p1 \<or> isinf p2 \<or> (isinf q1 \<and> isfinite q2) \<or> (isfinite q1 \<and> isinf q2)"
  then show n: "calculate_distance ar p1 q1 p2 q2 = Inl MathDomainError"
    by (rule calculate_distance_inf)
  then show "cov_calculate_distance ar p1 q1 p2 q2 = Fin 0"
    by (simp add: cov_calculate_distance_def)
qed

text \<open>
  The antipodal pair (8, 90) and (-8, -90) is in range and its haversine term is 1 in exact
  arithmetic; where the addition rounds upwards the term exceeds 1 and the distance raises.
\<close>

theorem calculate_distance_cases_witness:
  "calculate_distance rounding_up (Fin 8) (Fin 90) (Fin (- 8)) (Fin (- 90)) = Inl MathDomainError
   \<and> cov_calculate_distance rounding_up (Fin 8) (Fin 90) (Fin (- 8)) (Fin (- 90)) = Fin 0
   \<and> calculate_distance exact (Fin 8) (Fin 90) (Fin (- 8)) (Fin (- 90)) = Inr (Fin (6371000 * pi))
   \<and> calculate_distance exact (Fin 10) NaN (Fin 20) (Fin 30) = Inr NaN
   \<and> cov_calculate_distance exact (Fin 10) NaN (Fin 20) (Fin 30) = NaN
   \<and> calculate_distance exact (Fin 10) (Fin 0) NInf (Fin 0) = Inl MathDomainError
   \<and> cov_calculate_distance exact (Fin 10) (Fin 0) NInf (Fin 0) = Fin 0"
proof -
  note r = calculate_distance_cases
    [where ar = rounding_up and ?lat1.0 = 8 and ?lon1.0 = 90 and ?lat2.0 = "- 8" and ?lon2.0 = "- 90"
       and ?p1.0 = "Fin 10" and ?q1.0 = NaN and ?p2.0 = "Fin 20" and ?q2.0 = "Fin 30"]
  note e = calculate_distance_cases
    [where ar = exact and ?lat1.0 = 8 and ?lon1.0 = 90 and ?lat2.0 = "- 8" and ?lon2.0 = "- 90"
       and ?p1.0 = "Fin 10" and ?q1.0 = NaN and ?p2.0 = "Fin 20" and ?q2.0 = "Fin 30"]
  note i = calculate_distance_cases
    [where ar = exact and ?lat1.0 = 8 and ?lon1.0 = 90 and ?lat2.0 = "- 8" and ?lon2.0 = "- 90"
       and ?p1.0 = "Fin 10" and ?q1.0 = "Fin 0" and ?p2.0 = NInf and ?q2.0 = "Fin 0"]
  have a: "haversine_term exact 8 90 (- 8) (- 90) = 1"
    using haversine_term_antipodal
    by (simp add: haversine_term_def rounding_up_def exact_def Let_def)
  have 1: "calculate_distance rounding_up (Fin 8) (Fin 90) (Fin (- 8)) (Fin (- 90)) = Inl MathDomainError"
    "cov_calculate_distance rounding_up (Fin 8) (Fin 90) (Fin (- 8)) (Fin (- 90)) = Fin 0"
    using r [THEN conjunct1]
    by (simp_all add: haversine_term_antipodal Let_def) (simp_all add: rounding_up_def exact_def)
  have 2: "calculate_distance exact (Fin 8) (Fin 90) (Fin (- 8)) (Fin (- 90)) = Inr (Fin (6371000 * pi))"
    using e [THEN conjunct2, THEN conjunct1]
    by (simp add: a Let_def atan2_def)
  have 3: "calculate_distance exact (Fin 10) NaN (Fin 20) (Fin 30) = Inr NaN"
    "cov_calculate_distance exact (Fin 10) NaN (Fin 20) (Fin 30) = NaN"
    using e [THEN conjunct2, THEN conjunct2, THEN conjunct1] by simp_all
  have 4: "calculate_distance exact (Fin 10) (Fin 0) NInf (Fin 0) = Inl MathDomainError"
    "cov_calculate_distance exact (Fin 10) (Fin 0) NInf (Fin 0) = Fin 0"
    using i [THEN conjunct2, THEN conjunct2, THEN conjunct2] by simp_all
  from 1 2 3 4 show ?thesis by (intro conjI)
qed

text \<open>
  Claim C8 as stated fails. Latitude 180 is out of range, and the distance from (180, 0) to
  (0, 0) is half the circumference, not 0. A NaN latitude gives NaN, not 0. An infinite
  latitude makes \<open>azimuth_utils.calculate_distance\<close> raise.
\<close>

theorem calculate_distance_out_of_range:
  "calculate_distance exact (Fin 180) (Fin 0) (Fin 0) (Fin 0) = Inr (Fin (6371000 * pi))
   \<and> cov_calculate_distance exact (Fin 180) (Fin 0) (Fin 0) (Fin 0) \<noteq> Fin 0
   \<and> calculate_distance exact NaN (Fin 0) (Fin 0) (Fin 0) = Inr NaN
   \<and> cov_calculate_distance exact NaN (Fin 0) (Fin 0) (Fin 0) \<noteq> Fin 0
   \<and> calculate_distance exact PInf (Fin 0) (Fin 0) (Fin 0) = Inl MathDomainError"
proof -
  have a: "haversine_a 180 0 0 0 = 1"
    by (simp add: haversine_a_def radians_def)
  have 1: "calculate_distance exact (Fin 180) (Fin 0) (Fin 0) (Fin 0) = Inr (Fin (6371000 * pi))"
    by (simp add: calculate_distance_exact a great_circle_exact atan2_def)
  have 2: "calculate_distance exact NaN (Fin 0) (Fin 0) (Fin 0) = Inr NaN"
    by (simp add: calculate_distance_nan)
  have 3: "calculate_distance exact PInf (Fin 0) (Fin 0) (Fin 0) = Inl MathDomainError"
    by (simp add: calculate_distance_inf)
  from 1 2 3 show ?thesis by (simp add: cov_calculate_distance_def)
qed



lemma fmod_shift: "0 < m \<Longrightarrow> m \<le> x \<Longrightarrow> x < 2 * m \<Longrightarrow> fmod x m = x - m"
proof -
  assume m: "0 < m" "m \<le> x" "x < 2 * m"
  then have "\<lfloor>x / m\<rfloor> = 1"
    by (simp add: floor_eq_iff field_simps)
  then show ?thesis unfolding fmod_def by simp
qed

lemma degrees_simps: "degrees (pi / 4) = 45" "degrees (- (pi / 2)) = - 90" "degrees (pi / 2) = 90"
  "degrees 0 = 0" "degrees pi = 180"
  by (simp_all add: degrees_def)





lemma sin_radians_pos: "0 < d \<Longrightarrow> d < 180 \<Longrightarrow> 0 < sin (radians d)"
  unfolding radians_def by (rule sin_gt_zero) (simp_all add: field_simps)


lemma radians_diff: "radians a - radians b = radians (a - b)"
  by (simp add: radians_def field_simps)

lemma radians_minus: "radians (- a) = - radians a"
  by (simp add: radians_def)

lemma azimuth_meridian:
  "calculate_azimuth lat1 lon lat2 lon
     = fmod (degrees (atan2 0 (sin (radians (lat2 - lat1)))) + 360) 360"
proof -
  have "cos (radians lat1) * sin (radians lat2) - sin (radians lat1) * cos (radians lat2)
          = sin (radians lat2 - radians lat1)"
    by (simp add: sin_diff)
  then show ?thesis
    unfolding calculate_azimuth_def Let_def radians_diff [symmetric] by simp
qed

lemma azimuth_equator:
  "calculate_azimuth 0 lon1 0 lon2
     = fmod (degrees (atan2 (sin (radians (lon2 - lon1))) 0) + 360) 360"
  unfolding calculate_azimuth_def Let_def radians_diff [symmetric]
  by (simp add: radians_def)

lemma bearing_north: "0 < x \<Longrightarrow> fmod (degrees (atan2 0 x) + 360) 360 = 0"
  by (simp add: atan2_def degrees_simps fmod_def)

lemma bearing_south: "x < 0 \<Longrightarrow> fmod (degrees (atan2 0 x) + 360) 360 = 180"
  by (simp add: atan2_def degrees_simps fmod_shift)

lemma bearing_east: "0 < y \<Longrightarrow> fmod (degrees (atan2 y 0) + 360) 360 = 90"
  by (simp add: atan2_def degrees_simps fmod_shift)


lemma reciprocal_meridian:
  assumes "0 < d" "d < 180"
  shows "fmod (degrees (atan2 0 (sin (radians d))) + 360) 360 = 0"
    and "fmod (degrees (atan2 0 (sin (radians (- d)))) + 360) 360 = 180"
  using sin_radians_pos [OF assms]
  by (simp_all add: bearing_north bearing_south radians_minus)





section \<open>Properties of the coverage profiler\<close>

lemma cov_distance_same: "cov_calculate_distance exact (Fin la) (Fin lo) (Fin la) (Fin lo) = Fin 0"
proof -
  have "haversine_a la lo la lo = 0"
    by (simp add: haversine_a_def)
  then show ?thesis
    by (simp add: cov_calculate_distance_def calculate_distance_exact great_circle_exact atan2_def)
qed

lemma fmt1_0: "fmt1 0 = 0"
  by (simp add: fmt1_def round_half_even_def)

subsection \<open>The loops and the row stated on the tables\<close>

lemma collect_measurements_eq:
  "collect_measurements ar lat lon rows =
     map (\<lambda>r. (sample_distance ar lat lon r, the (mr_rsrp r))) (filter valid_sample rows)"
  by (induction rows) (auto simp: valid_sample_def sample_distance_def split: option.splits)

lemma count_where_map: "count_where P (map f xs) = length (filter (\<lambda>x. P (f x)) xs)"
  by (simp add: count_where_def filter_map comp_def)

lemma rsrp_counts_eq:
  "rsrp_counts (map (\<lambda>r. the (mr_rsrp r)) (filter valid_sample rows)) =
     [length (filter (\<lambda>r. rsrp_at_least (- 70) r \<and> rsrp_above (- 40) r) (filter valid_sample rows)),
      length (filter (\<lambda>r. rsrp_at_least (- 85) r \<and> rsrp_below (- 70) r) (filter valid_sample rows)),
      length (filter (\<lambda>r. rsrp_at_least (- 95) r \<and> rsrp_below (- 85) r) (filter valid_sample rows)),
      length (filter (\<lambda>r. rsrp_at_least (- 105) r \<and> rsrp_below (- 95) r) (filter valid_sample rows)),
      length (filter (rsrp_below (- 105)) (filter valid_sample rows))]"
  unfolding rsrp_counts_def count_where_map
  by (auto intro!: arg_cong [where f = length] filter_cong
      simp: valid_sample_def rsrp_at_least_def rsrp_above_def rsrp_below_def)

lemma percent_gt_50: "0 < t \<Longrightarrow> 50 < percent c t \<longleftrightarrow> t < 2 * c"
proof -
  assume t: "0 < t"
  have "real t < real (2 * c) \<longleftrightarrow> t < 2 * c"
    by (rule of_nat_less_iff)
  with t show ?thesis
    by (simp add: percent_def field_simps)
qed

lemma sum_weights: "sum_list weights = 3"
  by (simp add: weights_def)

lemma weighted_5:
  "weighted [v1, v2, v3, v4, v5] weights =
     v1 + v2 * (8 / 10) + v3 * (6 / 10) + v4 * (4 / 10) + v5 * (2 / 10)"
  by (simp add: weighted_def weights_def)

text \<open>The loops of \<open>process_cell\<close> compute the row stated on the tables.\<close>

lemma process_cell_expected:
  "process_cell ar site_id cell_id lat lon carrier mr_data
     = expected_row ar mr_data site_id cell_id carrier lat lon"
proof -
  define samples where "samples = filter (\<lambda>r. mr_site r = site_id \<and> mr_cell r = cell_id) mr_data"
  define valid where "valid = filter valid_sample samples"
  show ?thesis
  proof (cases "valid = []")
    case True
    then show ?thesis
      unfolding process_cell_def expected_row_def cell_samples_def Let_def
        samples_def [symmetric] collect_measurements_eq valid_def [symmetric]
      by (simp add: base_result_def)
  next
    case False
    then have s: "samples \<noteq> []" "0 < length samples"
      by (auto simp: valid_def)
    from False s show ?thesis
      unfolding process_cell_def expected_row_def cell_samples_def Let_def
        samples_def [symmetric] collect_measurements_eq valid_def [symmetric]
      by (simp add: distance_ranges_bounded_def count_where_map comp_def percent_gt_50
          rsrp_counts_eq [of samples, folded valid_def] weighted_5 sum_weights)
         (simp add: percent_def)
  qed
qed

lemma expected_row_status:
  assumes "filter valid_sample (cell_samples mr_data site_id cell_id) \<noteq> []"
  shows "cr_status (expected_row ar mr_data site_id cell_id carrier lat lon) =
           (if length (cell_samples mr_data site_id cell_id)
                 < 2 * length (filter (rsrp_below (- 105))
                                 (filter valid_sample (cell_samples mr_data site_id cell_id)))
            then ''Poor Coverage'' else ''Good Coverage'')"
  using assms by (simp add: expected_row_def Let_def)

subsection \<open>The RSRP bins and the status\<close>

text \<open>
  Claim C4. The claim counts a sample of -60 dBm in the first (strongest) RSRP bin. The
  code's mask for that bin is \<open>(rsrp >= -70) & (rsrp > -40)\<close>, which holds only above
  -40 dBm: for a cell whose single sample has -60 dBm all five RSRP percentages are 0.0, and
  the sample is counted in no bin, whatever the arithmetic of the distances.
\<close>

theorem strongest_rsrp_bin_misses_minus_60:
  "cr_rsrp (process_cell ar ''S1'' ''1'' 0 0 ''L1800''
      [\<lparr>mr_site = ''S1'', mr_cell = ''1'', mr_latitude = Some 0, mr_longitude = Some 0,
        mr_rsrp = Some (- 60)\<rparr>]) = [0, 0, 0, 0, 0]"
  by (simp add: process_cell_def rsrp_counts_def count_where_def percent_def
      fmt1_0 Let_def)

text \<open>
  Claim C5, as amended. For a cell with at least one valid MR sample the status is
  \<open>Poor Coverage\<close> exactly when the valid samples with an RSRP strictly below -105 dBm
  are more than half of all the MR rows of the cell, and \<open>Good Coverage\<close> otherwise
  (also at exactly one half). The rows of the cell are the MR rows with its site and cell
  id; a row is valid when its latitude, longitude and RSRP convert to numbers. A row that
  is not valid is in the denominator and never in the numerator.
\<close>

theorem poor_coverage_iff_majority_below_105:
  assumes "\<exists>r \<in> set (cell_samples mr_data site_id cell_id). valid_sample r"
  shows "cr_status (process_cell ar site_id cell_id ep_lat ep_lon carrier mr_data) =
           (if 1 / 2 <
                 real (length (filter (\<lambda>r. valid_sample r \<and> rsrp_below (- 105) r)
                                 (cell_samples mr_data site_id cell_id)))
                 / real (length (cell_samples mr_data site_id cell_id))
            then ''Poor Coverage'' else ''Good Coverage'')"
proof -
  let ?samples = "cell_samples mr_data site_id cell_id"
  let ?below = "length (filter (\<lambda>r. valid_sample r \<and> rsrp_below (- 105) r) ?samples)"
  from assms have v: "filter valid_sample ?samples \<noteq> []"
    by (auto simp: filter_empty_conv)
  then have t: "0 < length ?samples"
    by auto
  have b: "length (filter (rsrp_below (- 105)) (filter valid_sample ?samples)) = ?below"
    by (simp add: conj_commute)
  have "real (length ?samples) < real (2 * ?below) \<longleftrightarrow> length ?samples < 2 * ?below"
    by (rule of_nat_less_iff)
  with t have "1 / 2 < real ?below / real (length ?samples) \<longleftrightarrow> length ?samples < 2 * ?below"
    by (simp add: field_simps)
  then show ?thesis
    unfolding process_cell_expected expected_row_status [OF v] b by simp
qed

theorem poor_coverage_boundary_witness:
  "cr_status (process_cell exact ''S1'' ''1'' 0 0 ''L1800''
      [\<lparr>mr_site = ''S1'', mr_cell = ''1'', mr_latitude = Some 0, mr_longitude = Some 0,
        mr_rsrp = Some (- 110)\<rparr>,
       \<lparr>mr_site = ''S1'', mr_cell = ''1'', mr_latitude = Some 0, mr_longitude = Some 0,
        mr_rsrp = Some (- 60)\<rparr>]) = ''Good Coverage''
   \<and> cr_status (process_cell exact ''S1'' ''1'' 0 0 ''L1800''
      [\<lparr>mr_site = ''S1'', mr_cell = ''1'', mr_latitude = Some 0, mr_longitude = Some 0,
        mr_rsrp = Some (- 110)\<rparr>,
       \<lparr>mr_site = ''S1'', mr_cell = ''1'', mr_latitude = Some 0, mr_longitude = Some 0,
        mr_rsrp = Some (- 106)\<rparr>,
       \<lparr>mr_site = ''S1'', mr_cell = ''1'', mr_latitude = Some 0, mr_longitude = Some 0,
        mr_rsrp = Some (- 60)\<rparr>]) = ''Poor Coverage''"
  using poor_coverage_iff_majority_below_105 [where ar = exact and ep_lat = 0 and ep_lon = 0
      and site_id = "''S1''" and cell_id = "''1''" and carrier = "''L1800''" and mr_data =
      "[\<lparr>mr_site = ''S1'', mr_cell = ''1'', mr_latitude = Some 0, mr_longitude = Some 0,
        mr_rsrp = Some (- 110)\<rparr>,
       \<lparr>mr_site = ''S1'', mr_cell = ''1'', mr_latitude = Some 0, mr_longitude = Some 0,
        mr_rsrp = Some (- 60)\<rparr>]"]
    poor_coverage_iff_majority_below_105 [where ar = exact and ep_lat = 0 and ep_lon = 0
      and site_id = "''S1''" and cell_id = "''1''" and carrier = "''L1800''" and mr_data =
      "[\<lparr>mr_site = ''S1'', mr_cell = ''1'', mr_latitude = Some 0, mr_longitude = Some 0,
        mr_rsrp = Some (- 110)\<rparr>,
       \<lparr>mr_site = ''S1'', mr_cell = ''1'', mr_latitude = Some 0, mr_longitude = Some 0,
        mr_rsrp = Some (- 106)\<rparr>,
       \<lparr>mr_site = ''S1'', mr_cell = ''1'', mr_latitude = Some 0, mr_longitude = Some 0,
        mr_rsrp = Some (- 60)\<rparr>]"]
  by (simp add: cell_samples_def valid_sample_def rsrp_below_def)

text \<open>
  Claim C5 as stated fails: the three MR rows of the cell all have an RSRP of -110 dBm,
  below -105 dBm, and one of them is valid; the latitude of the other two does not convert.
  The two rows are skipped by the measurement loop and still counted in
  \<open>total_mr_points\<close>: one of three is not more than half, and the status is
  \<open>Good Coverage\<close>.
\<close>

theorem good_coverage_with_every_sample_below_105:
  "cr_status (process_cell exact ''S1'' ''1'' 0 0 ''L1800''
      [\<lparr>mr_site = ''S1'', mr_cell = ''1'', mr_latitude = Some 0, mr_longitude = Some 0,
        mr_rsrp = Some (- 110)\<rparr>,
       \<lparr>mr_site = ''S1'', mr_cell = ''1'', mr_latitude = None, mr_longitude = Some 0,
        mr_rsrp = Some (- 110)\<rparr>,
       \<lparr>mr_site = ''S1'', mr_cell = ''1'', mr_latitude = None, mr_longitude = Some 0,
        mr_rsrp = Some (- 110)\<rparr>]) = ''Good Coverage''"
  by (simp add: process_cell_def rsrp_counts_def count_where_def percent_def Let_def)

subsection \<open>The rows of the table\<close>

text \<open>
  Claim C7. The claim promises one output row per distinct (site, cell, carrier) of the EP
  table whatever fails inside a cell. When the EP latitude of a cell does not convert to a
  number, the handler of the per-cell block continues without appending a row: the table
  for one EP row is empty.
\<close>

theorem analyze_coverage_drops_row:
  "analyze_coverage ar []
     [\<lparr>ep_site = ''S1'', ep_cell = ''1'', ep_carrier = ''L1800'', ep_latitude = None,
       ep_longitude = Some 0, ep_azimuth = Some 0\<rparr>] = []"
  by (simp add: analyze_coverage_def drop_duplicates_def analyze_cell_def)

lemma set_drop_duplicates: "set (drop_duplicates xs) = set xs"
  by (simp add: drop_duplicates_def)

lemma set_analyze_rows:
  "set (analyze_rows ar mr_data ep_data combs rows) =
     set rows \<union> {r. \<exists>c \<in> set combs. analyze_cell ar mr_data ep_data c = Some r}"
  by (induction combs arbitrary: rows) (auto split: option.splits)

lemma set_analyze_coverage:
  "set (analyze_coverage ar mr_data ep_data) =
     {r. \<exists>e \<in> set ep_data. analyze_cell ar mr_data ep_data (ep_site e, ep_cell e, ep_carrier e) = Some r}"
  by (auto simp: analyze_coverage_def Let_def set_analyze_rows set_drop_duplicates)

lemma find_filter: "find P xs = Some x \<Longrightarrow> \<exists>rest. filter P xs = x # rest"
  by (induction xs) (auto split: if_splits)

lemma analyze_cell_first:
  assumes "find (\<lambda>r. ep_site r = site_id \<and> ep_cell r = cell_id) ep_data = Some first"
    and "ep_latitude first = Some lat" "ep_longitude first = Some lon"
  shows "analyze_cell ar mr_data ep_data (site_id, cell_id, carrier)
           = Some (process_cell ar site_id cell_id lat lon carrier mr_data)"
proof -
  from find_filter [OF assms(1)] obtain rest
    where "filter (\<lambda>r. ep_site r = site_id \<and> ep_cell r = cell_id) ep_data = first # rest" ..
  with assms(2,3) show ?thesis
    by (simp add: analyze_cell_def)
qed

lemma process_cell_key:
  "cr_site (process_cell ar s c la lo k mr) = s \<and> cr_cell (process_cell ar s c la lo k mr) = c
   \<and> cr_carrier (process_cell ar s c la lo k mr) = k"
  by (simp add: process_cell_def base_result_def Let_def)

lemma analyze_cell_key:
  "analyze_cell ar mr ep (s, c, k) = Some r \<Longrightarrow> (cr_site r, cr_cell r, cr_carrier r) = (s, c, k)"
  by (auto simp: analyze_cell_def base_result_def process_cell_key Let_def
      split: list.splits option.splits)

text \<open>
  Claim C10, as amended. MR samples are attributed by site and cell id only. For two EP
  rows with the same site and cell id (whatever their carriers), when the coordinates of
  the first EP row with that site and cell id convert to numbers, the result table holds a
  row for each of the two carriers, and every row of the table with that site and cell id
  is the row stated on the tables: its distances are measured from the coordinates of that
  first EP row, its percentages count the valid samples among all MR rows of the site and
  cell, whatever their carrier, and its sample count is the number of those MR rows, or 0
  with the status \<open>No MR Data\<close> when none of them is valid. The two rows differ in the
  carrier column only.
\<close>

theorem coverage_ignores_carrier:
  assumes "r1 \<in> set ep_data" and "r2 \<in> set ep_data"
    and "ep_site r1 = site_id" and "ep_cell r1 = cell_id"
    and "ep_site r2 = site_id" and "ep_cell r2 = cell_id"
    and "find (\<lambda>r. ep_site r = site_id \<and> ep_cell r = cell_id) ep_data = Some first"
    and "ep_latitude first = Some lat" and "ep_longitude first = Some lon"
  shows "expected_row ar mr_data site_id cell_id (ep_carrier r1) lat lon
           \<in> set (analyze_coverage ar mr_data ep_data)
       \<and> expected_row ar mr_data site_id cell_id (ep_carrier r2) lat lon
           \<in> set (analyze_coverage ar mr_data ep_data)
       \<and> (\<forall>row \<in> set (analyze_coverage ar mr_data ep_data).
            cr_site row = site_id \<and> cr_cell row = cell_id
            \<longrightarrow> row = expected_row ar mr_data site_id cell_id (cr_carrier row) lat lon)
       \<and> expected_row ar mr_data site_id cell_id (ep_carrier r2) lat lon
           = (expected_row ar mr_data site_id cell_id (ep_carrier r1) lat lon)
               \<lparr>cr_carrier := ep_carrier r2\<rparr>"
proof -
  have c: "analyze_cell ar mr_data ep_data (site_id, cell_id, carrier)
             = Some (expected_row ar mr_data site_id cell_id carrier lat lon)" for carrier
    using analyze_cell_first [OF assms(7-9)] by (simp add: process_cell_expected)
  have 1: "expected_row ar mr_data site_id cell_id (ep_carrier r1) lat lon
             \<in> set (analyze_coverage ar mr_data ep_data)"
    unfolding set_analyze_coverage using assms(1,3,4) c by auto
  have 2: "expected_row ar mr_data site_id cell_id (ep_carrier r2) lat lon
             \<in> set (analyze_coverage ar mr_data ep_data)"
    unfolding set_analyze_coverage using assms(2,5,6) c by auto
  have 3: "row = expected_row ar mr_data site_id cell_id (cr_carrier row) lat lon"
    if row: "row \<in> set (analyze_coverage ar mr_data ep_data)"
      and key: "cr_site row = site_id \<and> cr_cell row = cell_id" for row
  proof -
    from row obtain e :: "cell_value ep_row" where
      e: "analyze_cell ar mr_data ep_data (ep_site e, ep_cell e, ep_carrier e) = Some row"
      unfolding set_analyze_coverage by auto
    from analyze_cell_key [OF e] key have "ep_site e = site_id" "ep_cell e = cell_id"
      "ep_carrier e = cr_carrier row"
      by simp_all
    with e c [of "cr_carrier row"] show ?thesis by simp
  qed
  have 4: "expected_row ar mr_data site_id cell_id (ep_carrier r2) lat lon
           = (expected_row ar mr_data site_id cell_id (ep_carrier r1) lat lon)
               \<lparr>cr_carrier := ep_carrier r2\<rparr>"
    by (simp add: expected_row_def Let_def)
  from 1 2 3 4 show ?thesis by blast
qed

lemma fmt1_100: "fmt1 100 = 100"
  by (simp add: fmt1_def round_half_even_def)

lemma fmt1_50: "fmt1 50 = 50"
  by (simp add: fmt1_def round_half_even_def)

lemma fmt1_140_6: "fmt1 (140 / 6) = 233 / 10"
proof -
  have "\<lfloor>1400 / 6 :: real\<rfloor> = 233"
    by (simp add: floor_eq_iff)
  then show ?thesis
    by (simp add: fmt1_def round_half_even_def)
qed

theorem coverage_ignores_carrier_witness:
  "\<lparr>cr_site = ''S1'', cr_cell = ''1'', cr_carrier = ''L1800'',
     cr_coverage = [100, 0, 0, 0, 0], cr_rsrp = [0, 0, 50, 0, 50],
     cr_overall = 233 / 10, cr_total = 2, cr_status = ''Good Coverage''\<rparr>
     \<in> set (analyze_coverage exact
         [\<lparr>mr_site = ''S1'', mr_cell = ''1'', mr_latitude = Some 10, mr_longitude = Some 20,
           mr_rsrp = Some (- 90)\<rparr>,
          \<lparr>mr_site = ''S1'', mr_cell = ''1'', mr_latitude = Some 10, mr_longitude = Some 20,
           mr_rsrp = Some (- 110)\<rparr>]
         [\<lparr>ep_site = ''S1'', ep_cell = ''1'', ep_carrier = ''L1800'', ep_latitude = Some 10,
           ep_longitude = Some 20, ep_azimuth = Some 0\<rparr>,
          \<lparr>ep_site = ''S1'', ep_cell = ''1'', ep_carrier = ''L2100'', ep_latitude = Some 11,
           ep_longitude = Some 21, ep_azimuth = Some 120\<rparr>])
   \<and> \<lparr>cr_site = ''S1'', cr_cell = ''1'', cr_carrier = ''L2100'',
     cr_coverage = [100, 0, 0, 0, 0], cr_rsrp = [0, 0, 50, 0, 50],
     cr_overall = 233 / 10, cr_total = 2, cr_status = ''Good Coverage''\<rparr>
     \<in> set (analyze_coverage exact
         [\<lparr>mr_site = ''S1'', mr_cell = ''1'', mr_latitude = Some 10, mr_longitude = Some 20,
           mr_rsrp = Some (- 90)\<rparr>,
          \<lparr>mr_site = ''S1'', mr_cell = ''1'', mr_latitude = Some 10, mr_longitude = Some 20,
           mr_rsrp = Some (- 110)\<rparr>]
         [\<lparr>ep_site = ''S1'', ep_cell = ''1'', ep_carrier = ''L1800'', ep_latitude = Some 10,
           ep_longitude = Some 20, ep_azimuth = Some 0\<rparr>,
          \<lparr>ep_site = ''S1'', ep_cell = ''1'', ep_carrier = ''L2100'', ep_latitude = Some 11,
           ep_longitude = Some 21, ep_azimuth = Some 120\<rparr>])"
proof -
  let ?r1 = "\<lparr>ep_site = ''S1'', ep_cell = ''1'', ep_carrier = ''L1800'', ep_latitude = Some 10,
           ep_longitude = Some 20, ep_azimuth = Some 0 :: cell_value\<rparr>"
  let ?r2 = "\<lparr>ep_site = ''S1'', ep_cell = ''1'', ep_carrier = ''L2100'', ep_latitude = Some 11,
           ep_longitude = Some 21, ep_azimuth = Some 120 :: cell_value\<rparr>"
  let ?mr = "[\<lparr>mr_site = ''S1'', mr_cell = ''1'', mr_latitude = Some 10, mr_longitude = Some 20,
           mr_rsrp = Some (- 90) :: cell_value\<rparr>,
          \<lparr>mr_site = ''S1'', mr_cell = ''1'', mr_latitude = Some 10, mr_longitude = Some 20,
           mr_rsrp = Some (- 110)\<rparr>]"
  have e: "expected_row exact ?mr ''S1'' ''1'' carrier 10 20 =
     \<lparr>cr_site = ''S1'', cr_cell = ''1'', cr_carrier = carrier,
      cr_coverage = [100, 0, 0, 0, 0], cr_rsrp = [0, 0, 50, 0, 50],
      cr_overall = 233 / 10, cr_total = 2, cr_status = ''Good Coverage''\<rparr>" for carrier
    using fmt1_140_6
    by (simp add: expected_row_def cell_samples_def valid_sample_def sample_distance_def
        cov_distance_same rsrp_below_def rsrp_at_least_def rsrp_above_def fmt1_0 fmt1_100
        fmt1_50 Let_def)
  note h = coverage_ignores_carrier [where ?r1.0 = ?r1 and ?r2.0 = ?r2 and ep_data = "[?r1, ?r2]"
      and site_id = "''S1''" and cell_id = "''1''" and first = ?r1 and lat = 10 and lon = 20
      and mr_data = ?mr and ar = exact]
  have 1: "expected_row exact ?mr ''S1'' ''1'' ''L1800'' 10 20
             \<in> set (analyze_coverage exact ?mr [?r1, ?r2])"
    using h [THEN conjunct1] by simp
  have 2: "expected_row exact ?mr ''S1'' ''1'' ''L2100'' 10 20
             \<in> set (analyze_coverage exact ?mr [?r1, ?r2])"
    using h [THEN conjunct2, THEN conjunct1] by simp
  from 1 2 show ?thesis unfolding e by (intro conjI)
qed

text \<open>
  Claim C10 as stated fails. The MR row of the cell has an RSRP that does not convert: both
  carriers get a row, and neither counts the sample (0 points, \<open>No MR Data\<close>). And when
  the latitude of the first EP row of the cell does not convert, neither carrier gets a row,
  although the second EP row has coordinates.
\<close>

theorem coverage_rows_without_the_sample:
  "analyze_coverage exact
     [\<lparr>mr_site = ''S1'', mr_cell = ''1'', mr_latitude = Some 10, mr_longitude = Some 20,
       mr_rsrp = None\<rparr>]
     [\<lparr>ep_site = ''S1'', ep_cell = ''1'', ep_carrier = ''L1800'', ep_latitude = Some 10,
       ep_longitude = Some 20, ep_azimuth = Some 0\<rparr>,
      \<lparr>ep_site = ''S1'', ep_cell = ''1'', ep_carrier = ''L2100'', ep_latitude = Some 11,
       ep_longitude = Some 21, ep_azimuth = Some 120\<rparr>]
     = [\<lparr>cr_site = ''S1'', cr_cell = ''1'', cr_carrier = ''L1800'',
         cr_coverage = [0, 0, 0, 0, 0], cr_rsrp = [0, 0, 0, 0, 0],
         cr_overall = 0, cr_total = 0, cr_status = ''No MR Data''\<rparr>,
        \<lparr>cr_site = ''S1'', cr_cell = ''1'', cr_carrier = ''L2100'',
         cr_coverage = [0, 0, 0, 0, 0], cr_rsrp = [0, 0, 0, 0, 0],
         cr_overall = 0, cr_total = 0, cr_status = ''No MR Data''\<rparr>]
   \<and> analyze_coverage exact
     [\<lparr>mr_site = ''S1'', mr_cell = ''1'', mr_latitude = Some 10, mr_longitude = Some 20,
       mr_rsrp = Some (- 90)\<rparr>]
     [\<lparr>ep_site = ''S1'', ep_cell = ''1'', ep_carrier = ''L1800'', ep_latitude = None,
       ep_longitude = Some 20, ep_azimuth = Some 0\<rparr>,
      \<lparr>ep_site = ''S1'', ep_cell = ''1'', ep_carrier = ''L2100'', ep_latitude = Some 11,
       ep_longitude = Some 21, ep_azimuth = Some 120\<rparr>]
     = []"
  by (simp add: analyze_coverage_def drop_duplicates_def analyze_cell_def process_cell_def
      base_result_def Let_def)

lemma analyze_cell_Some:
  assumes "\<forall>r \<in> set ep. ep_latitude r \<noteq> None \<and> ep_longitude r \<noteq> None"
  shows "\<exists>r. analyze_cell ar mr ep comb = Some r"
proof -
  obtain s c k where comb: "comb = (s, c, k)" by (cases comb)
  show ?thesis
  proof (cases "filter (\<lambda>r. ep_site r = s \<and> ep_cell r = c) ep")
    case Nil
    then show ?thesis by (simp add: analyze_cell_def comb)
  next
    case (Cons first rest)
    then have "first \<in> set (filter (\<lambda>r. ep_site r = s \<and> ep_cell r = c) ep)" by simp
    then have "first \<in> set ep" by simp
    with assms obtain la lo where "ep_latitude first = Some la" "ep_longitude first = Some lo"
      by auto
    with Cons show ?thesis by (simp add: analyze_cell_def comb)
  qed
qed

lemma analyze_rows_keys:
  assumes "\<forall>r \<in> set ep. ep_latitude r \<noteq> None \<and> ep_longitude r \<noteq> None"
  shows "map (\<lambda>r. (cr_site r, cr_cell r, cr_carrier r)) (analyze_rows ar mr ep combs rows)
           = map (\<lambda>r. (cr_site r, cr_cell r, cr_carrier r)) rows @ combs"
proof (induction combs arbitrary: rows)
  case Nil
  show ?case by simp
next
  case (Cons comb combs)
  from analyze_cell_Some [OF assms, of ar mr comb] obtain r where r: "analyze_cell ar mr ep comb = Some r" ..
  obtain s c k where comb: "comb = (s, c, k)" by (cases comb)
  from r analyze_cell_key [of ar mr ep s c k r] have "(cr_site r, cr_cell r, cr_carrier r) = comb"
    by (simp add: comb)
  with r Cons.IH [of "rows @ [r]"] show ?case by simp
qed

lemma distinct_drop_duplicates: "distinct (drop_duplicates xs)"
  by (simp add: drop_duplicates_def)

text \<open>
  The row count of the coverage table. When the coordinates of every EP row convert to
  numbers, the table has exactly one row for each distinct (site, cell, carrier) of the EP
  table, whatever the MR table holds: as many rows as distinct combinations, and the same
  set of combinations.
\<close>

theorem analyze_coverage_one_row_per_cell:
  assumes "\<forall>r \<in> set ep. ep_latitude r \<noteq> None \<and> ep_longitude r \<noteq> None"
  shows "length (analyze_coverage ar mr ep) = card ((\<lambda>r. (ep_site r, ep_cell r, ep_carrier r)) ` set ep)
       \<and> (\<lambda>r. (cr_site r, cr_cell r, cr_carrier r)) ` set (analyze_coverage ar mr ep)
           = (\<lambda>r. (ep_site r, ep_cell r, ep_carrier r)) ` set ep"
proof -
  let ?combs = "drop_duplicates (map (\<lambda>r. (ep_site r, ep_cell r, ep_carrier r)) ep)"
  let ?rows = "analyze_rows ar mr ep ?combs []"
  have k: "map (\<lambda>r. (cr_site r, cr_cell r, cr_carrier r)) ?rows = ?combs"
    using analyze_rows_keys [OF assms, of ar mr ?combs "[]"] by simp
  then have "length (map (\<lambda>r. (cr_site r, cr_cell r, cr_carrier r)) ?rows) = length ?combs"
    by (rule arg_cong)
  then have "length ?rows = length ?combs"
    by (simp only: length_map)
  also have "\<dots> = card (set ?combs)"
    by (simp add: distinct_card distinct_drop_duplicates)
  finally have 1: "length ?rows = card ((\<lambda>r. (ep_site r, ep_cell r, ep_carrier r)) ` set ep)"
    by (simp add: set_drop_duplicates)
  from k have "set (map (\<lambda>r. (cr_site r, cr_cell r, cr_carrier r)) ?rows) = set ?combs"
    by simp
  then have 2: "(\<lambda>r. (cr_site r, cr_cell r, cr_carrier r)) ` set ?rows
                 = (\<lambda>r. (ep_site r, ep_cell r, ep_carrier r)) ` set ep"
    by (simp add: set_drop_duplicates)
  from 1 2 show ?thesis
    by (simp add: analyze_coverage_def Let_def)
qed

theorem analyze_coverage_one_row_per_cell_witness:
  "length (analyze_coverage exact []
     [\<lparr>ep_site = ''S1'', ep_cell = ''1'', ep_carrier = ''L1800'', ep_latitude = Some 10,
       ep_longitude = Some 20, ep_azimuth = None\<rparr>,
      \<lparr>ep_site = ''S1'', ep_cell = ''1'', ep_carrier = ''L1800'', ep_latitude = Some 10,
       ep_longitude = Some 20, ep_azimuth = None\<rparr>,
      \<lparr>ep_site = ''S1'', ep_cell = ''2'', ep_carrier = ''L1800'', ep_latitude = Some 10,
       ep_longitude = Some 20, ep_azimuth = None\<rparr>]) = 2"
  using analyze_coverage_one_row_per_cell
    [of "[\<lparr>ep_site = ''S1'', ep_cell = ''1'', ep_carrier = ''L1800'', ep_latitude = Some 10,
       ep_longitude = Some 20, ep_azimuth = None\<rparr>,
      \<lparr>ep_site = ''S1'', ep_cell = ''1'', ep_carrier = ''L1800'', ep_latitude = Some 10,
       ep_longitude = Some 20, ep_azimuth = None\<rparr>,
      \<lparr>ep_site = ''S1'', ep_cell = ''2'', ep_carrier = ''L1800'', ep_latitude = Some 10,
       ep_longitude = Some 20, ep_azimuth = None\<rparr>]" exact "[]"]
  by simp

text \<open>What the code computes for the first RSRP bin: the share of the samples above -40 dBm.\<close>

lemma first_rsrp_bin:
  assumes "filter valid_sample (cell_samples mr_data site_id cell_id) \<noteq> []"
  shows "cr_rsrp (process_cell ar site_id cell_id ep_lat ep_lon carrier mr_data) ! 0 =
           fmt1 (real (length (filter (rsrp_above (- 40))
                                 (filter valid_sample (cell_samples mr_data site_id cell_id))))
                 / real (length (cell_samples mr_data site_id cell_id)) * 100)"
proof -
  have "(\<lambda>r. rsrp_at_least (- 70) r \<and> rsrp_above (- 40) r) = rsrp_above (- 40)"
    by (auto simp: rsrp_at_least_def rsrp_above_def split: option.splits)
  with assms show ?thesis
    by (simp add: process_cell_expected expected_row_def Let_def)
qed
section \<open>Properties of the actual-azimuth estimator\<close>
















section \<open>Properties of the neighbor finder\<close>

lemma scan_neighbors_eq:
  "scan_neighbors idx1 serving_cell search_radius rows cell_neighbors =
     cell_neighbors @
     List.map_filter (\<lambda>(idx2, neighbor_cell).
         if idx1 \<noteq> idx2 then entry_of (neighbor_entry serving_cell neighbor_cell search_radius) else None)
       rows"
proof (induction rows arbitrary: cell_neighbors idx1)
  case Nil
  show ?case by (simp add: map_filter_simps)
next
  case (Cons row rows)
  obtain idx2 neighbor_cell where row: "row = (idx2, neighbor_cell)" by (cases row)
  show ?case
    unfolding row
    by (simp add: Cons.IH map_filter_simps entry_of_def split: sum.splits option.splits)
qed

lemma serve_cells_eq:
  "serve_cells ep_rows search_radius max_neighbors rows neighbors_list =
     neighbors_list @
     concat (map (\<lambda>(idx1, serving_cell).
                take max_neighbors (sort_key nb_distance
                  (List.map_filter (\<lambda>(idx2, neighbor_cell).
                       if idx1 \<noteq> idx2
                       then entry_of (neighbor_entry serving_cell neighbor_cell search_radius)
                       else None) ep_rows)))
        rows)"
proof (induction rows arbitrary: neighbors_list)
  case Nil
  show ?case by simp
next
  case (Cons row rows)
  obtain idx1 serving_cell where row: "row = (idx1, serving_cell)" by (cases row)
  show ?case
    unfolding row
    by (simp add: Cons.IH scan_neighbors_eq Let_def)
qed

lemma neighbor_entry_Some_iff:
  "neighbor_entry a b search_radius = Inr (Some entry) \<longleftrightarrow>
     (\<exists>lat1 lon1 lat2 lon2 distance az1 az2.
        ep_latitude a = Some lat1 \<and> ep_longitude a = Some lon1
        \<and> ep_latitude b = Some lat2 \<and> ep_longitude b = Some lon2
        \<and> ep_azimuth a = Some az1 \<and> ep_azimuth b = Some az2
        \<and> nb_calculate_distance lat1 lon1 lat2 lon2 = Some distance
        \<and> distance \<le> search_radius
        \<and> entry =
            \<lparr>nb_serving_site = ep_site a, nb_serving_cell = ep_cell a,
             nb_neighbor_site = ep_site b, nb_neighbor_cell = ep_cell b,
             nb_distance = round2 distance,
             nb_azimuth_difference = round2 (calculate_azimuth_difference az1 az2),
             nb_type = (if ep_carrier a = ep_carrier b then ''Intra-Frequency'' else ''Inter-Frequency''),
             nb_serving_carrier = ep_carrier a, nb_neighbor_carrier = ep_carrier b\<rparr>
        \<and> (nb_type entry = ''Intra-Frequency'') = (ep_carrier a = ep_carrier b))"
  by (auto simp: neighbor_entry_def Let_def split: option.splits)

text \<open>
  Claim C6, as amended. The relations emitted for a serving row are the entries of the other
  rows (by position) whose block did not raise and whose distance is at most
  \<open>search_radius\<close>, in input order, stably sorted by the distance rounded to two
  decimals, and cut to the first \<open>max_neighbors\<close>; the relations of the serving rows
  follow each other in input order. An entry exists exactly when the coordinates and
  azimuths of both rows convert and the distance is at most \<open>search_radius\<close>, and its
  type is \<open>Intra-Frequency\<close> exactly when the two carriers are equal.
\<close>

theorem find_neighbors_rounded_order:
  "find_neighbors ep_data search_radius max_neighbors =
     concat (map (\<lambda>(idx1, serving_cell).
                take max_neighbors (sort_key nb_distance
                  (List.map_filter (\<lambda>(idx2, neighbor_cell).
                       if idx1 \<noteq> idx2
                       then entry_of (neighbor_entry serving_cell neighbor_cell search_radius)
                       else None) (enumerate 0 ep_data))))
        (enumerate 0 ep_data))
   \<and> (entry_of (neighbor_entry a b search_radius) = Some entry) =
     (\<exists>lat1 lon1 lat2 lon2 distance az1 az2.
        ep_latitude a = Some lat1 \<and> ep_longitude a = Some lon1
        \<and> ep_latitude b = Some lat2 \<and> ep_longitude b = Some lon2
        \<and> ep_azimuth a = Some az1 \<and> ep_azimuth b = Some az2
        \<and> nb_calculate_distance lat1 lon1 lat2 lon2 = Some distance
        \<and> distance \<le> search_radius
        \<and> entry =
            \<lparr>nb_serving_site = ep_site a, nb_serving_cell = ep_cell a,
             nb_neighbor_site = ep_site b, nb_neighbor_cell = ep_cell b,
             nb_distance = round2 distance,
             nb_azimuth_difference = round2 (calculate_azimuth_difference az1 az2),
             nb_type = (if ep_carrier a = ep_carrier b then ''Intra-Frequency'' else ''Inter-Frequency''),
             nb_serving_carrier = ep_carrier a, nb_neighbor_carrier = ep_carrier b\<rparr>
        \<and> (nb_type entry = ''Intra-Frequency'') = (ep_carrier a = ep_carrier b))"
proof -
  have "entry_of (neighbor_entry a b search_radius) = Some entry
          \<longleftrightarrow> neighbor_entry a b search_radius = Inr (Some entry)"
    by (auto simp: entry_of_def split: sum.splits option.splits)
  then show ?thesis
    unfolding neighbor_entry_Some_iff
    by (simp add: find_neighbors_def Let_def serve_cells_eq)
qed

lemma haversine_equator: "haversine_a 0 lon1 0 lon2 = (sin (radians (lon2 - lon1) / 2))\<^sup>2"
proof -
  have "radians lon2 - radians lon1 = radians (lon2 - lon1)"
    by (simp add: radians_def field_simps)
  then show ?thesis
    by (simp add: haversine_a_def radians_def [of 0])
qed

lemma sin_half_diff_sq: "(sin ((x - y) / 2))\<^sup>2 = (sin ((y - x) / 2))\<^sup>2" for x y :: real
proof -
  have "(x - y) / 2 = - ((y - x) / 2)" by argo
  then have "sin ((x - y) / 2) = - sin ((y - x) / 2)"
    by (simp only: sin_minus)
  then show ?thesis by simp
qed

lemma sin_sq_le_1: "(sin x)\<^sup>2 \<le> 1" for x :: real
  using sin_cos_squared_add [of x] zero_le_power2 [of "cos x"] by linarith

lemma atan2_sin_cos:
  assumes "0 \<le> x" "x < pi / 2"
  shows "atan2 (sqrt ((sin x)\<^sup>2)) (sqrt (1 - (sin x)\<^sup>2)) = x"
proof -
  have c: "0 < cos x" using assms by (intro cos_gt_zero_pi) simp_all
  have s: "0 \<le> sin x" using assms by (intro sin_ge_zero) simp_all
  have "1 - (sin x)\<^sup>2 = (cos x)\<^sup>2" by (simp add: sin_squared_eq)
  then have "atan2 (sqrt ((sin x)\<^sup>2)) (sqrt (1 - (sin x)\<^sup>2)) = atan2 (sin x) (cos x)"
    using c s by simp
  also have "\<dots> = arctan (tan x)"
    using c by (simp add: atan2_def tan_def)
  also have "\<dots> = x"
    using assms by (intro arctan_tan) simp_all
  finally show ?thesis .
qed

lemma nb_distance_equator:
  assumes "0 \<le> lon2 - lon1" "lon2 - lon1 < 180"
  shows "nb_calculate_distance 0 lon1 0 lon2 = Some (6371000 * radians (lon2 - lon1))"
proof -
  have r: "0 \<le> radians (lon2 - lon1) / 2" "radians (lon2 - lon1) / 2 < pi / 2"
    using assms by (simp_all add: radians_def)
  show ?thesis
    unfolding nb_calculate_distance_def Let_def haversine_equator sqrt_py_def
    using atan2_sin_cos [OF r] sin_sq_le_1 [of "radians (lon2 - lon1) / 2"]
    by (simp add: not_less)
qed

lemma nb_distance_symmetric:
  "nb_calculate_distance lat1 lon1 lat2 lon2 = nb_calculate_distance lat2 lon2 lat1 lon1"
proof -
  have "haversine_a lat1 lon1 lat2 lon2 = haversine_a lat2 lon2 lat1 lon1"
    unfolding haversine_a_def Let_def
    using sin_half_diff_sq [of "radians lat2" "radians lat1"]
      sin_half_diff_sq [of "radians lon2" "radians lon1"]
    by (simp add: mult.commute)
  then show ?thesis by (simp add: nb_calculate_distance_def)
qed

lemma round_half_even_small: "0 \<le> x \<Longrightarrow> x < 1 / 2 \<Longrightarrow> round_half_even x = 0"
proof -
  assume "0 \<le> x" "x < 1 / 2"
  then have "\<lfloor>x\<rfloor> = 0" by (simp add: floor_eq_iff)
  with \<open>x < 1 / 2\<close> show ?thesis
    unfolding round_half_even_def Let_def by simp
qed

lemma nb_distance_tiny_east: "nb_calculate_distance 0 0 0 (1 / 100000000) = Some (6371 * pi / 18000000)"
  using nb_distance_equator [where ?lon1.0 = 0 and ?lon2.0 = "1 / 100000000"] by (simp add: radians_def)

lemma nb_distance_tiny_west: "nb_calculate_distance 0 (1 / 100000000) 0 0 = Some (6371 * pi / 18000000)"
  using nb_distance_symmetric [of 0 "1 / 100000000" 0 0] nb_distance_tiny_east by simp

lemma nb_distance_same_place: "nb_calculate_distance 0 0 0 0 = Some 0"
  using nb_distance_equator [where ?lon1.0 = 0 and ?lon2.0 = 0] by (simp add: radians_def)

lemma round2_tiny: "round2 (6371 * pi / 18000000) = 0"
proof -
  have "6371 * pi / 18000000 * 100 < 1 / 2"
    using pi_less_4 by simp
  then show ?thesis
    unfolding round2_def using pi_gt_zero by (simp add: round_half_even_small)
qed

lemma round2_zero: "round2 0 = 0"
  by (simp add: round2_def round_half_even_small)

text \<open>
  Claim C6 as stated fails. Three rows on the equator: A at longitude 0, B1 further east by
  a hundred-millionth of a degree, B2 at the place of A. With \<open>max_neighbors = 1\<close> the
  neighbor kept for A is B1, at a positive distance, although B2 is at distance 0: both
  distances round to 0.0, and the sort on the rounded value keeps the input order.
\<close>

theorem nearest_neighbor_not_emitted:
  "map (\<lambda>entry. (nb_serving_cell entry, nb_neighbor_cell entry))
     (find_neighbors
        [\<lparr>ep_site = ''S1'', ep_cell = ''A'', ep_carrier = ''L1800'', ep_latitude = Some 0,
          ep_longitude = Some 0, ep_azimuth = Some 0\<rparr>,
         \<lparr>ep_site = ''S2'', ep_cell = ''B1'', ep_carrier = ''L1800'', ep_latitude = Some 0,
          ep_longitude = Some (1 / 100000000), ep_azimuth = Some 0\<rparr>,
         \<lparr>ep_site = ''S3'', ep_cell = ''B2'', ep_carrier = ''L1800'', ep_latitude = Some 0,
          ep_longitude = Some 0, ep_azimuth = Some 0\<rparr>] 5000 1)
     = [(''A'', ''B1''), (''B1'', ''A''), (''B2'', ''A'')]
   \<and> nb_calculate_distance 0 0 0 (1 / 100000000) = Some (6371 * pi / 18000000)
   \<and> nb_calculate_distance 0 0 0 0 = Some 0
   \<and> 0 < 6371 * pi / 18000000"
proof -
  have le: "6371 * pi / 18000000 \<le> 5000"
    using pi_less_4 by simp
  show ?thesis
    using le
    by (simp add: find_neighbors_def enumerate_eq_zip upt_rec neighbor_entry_def nb_distance_tiny_east nb_distance_tiny_west nb_distance_same_place
        round2_tiny round2_zero calculate_azimuth_difference_def Let_def)
qed

section \<open>Properties of the sector swap detector\<close>

subsection \<open>The histogram\<close>

lemma map_entry_keyed:
  "distinct (map fst si) \<Longrightarrow>
   AList.map_entry k f (map (\<lambda>(c, i). (c, g c)) si) = map (\<lambda>(c, i). (c, (g(k := f (g k))) c)) si"
proof (induction si)
  case Nil
  show ?case by simp
next
  case (Cons p ps)
  obtain c i where p: "p = (c, i)" by (cases p)
  show ?case
  proof (cases "c = k")
    case True
    with Cons.prems p have "k \<notin> fst ` set ps" by auto
    then have "map (\<lambda>(c, i). (c, g c)) ps = map (\<lambda>(c, i). (c, (g(k := f (g k))) c)) ps"
      by (intro map_cong) (auto simp: rev_image_eqI)
    with True p show ?thesis by simp
  next
    case False
    with Cons p show ?thesis by simp
  qed
qed

lemma sector_fold_keyed:
  "distinct (map fst si) \<Longrightarrow>
   fold (\<lambda>(cid, info) dc. if P info then AList.map_entry cid Suc dc else dc) xs
     (map (\<lambda>(c, i). (c, g c)) si)
   = map (\<lambda>(c, i). (c, fold (\<lambda>(cid, info) g. if P info then g(cid := Suc (g cid)) else g) xs g c)) si"
proof (induction xs arbitrary: g)
  case Nil
  show ?case by simp
next
  case (Cons x xs)
  obtain cid info where x: "x = (cid, info)" by (cases x)
  let ?F = "\<lambda>(cid, info) dc. if P info then AList.map_entry cid Suc dc else dc"
  let ?G = "\<lambda>(cid, info) g. if P info then g(cid := Suc (g cid)) else g"
  show ?case
  proof (cases "P info")
    case True
    have "fold ?F (x # xs) (map (\<lambda>(c, i). (c, g c)) si)
            = fold ?F xs (AList.map_entry cid Suc (map (\<lambda>(c, i). (c, g c)) si))"
      using True by (simp add: x)
    also have "\<dots> = fold ?F xs (map (\<lambda>(c, i). (c, (g(cid := Suc (g cid))) c)) si)"
      by (simp only: map_entry_keyed [OF Cons.prems])
    also have "\<dots> = map (\<lambda>(c, i). (c, fold ?G xs (g(cid := Suc (g cid))) c)) si"
      by (rule Cons.IH [OF Cons.prems])
    also have "fold ?G xs (g(cid := Suc (g cid))) = fold ?G (x # xs) g"
      using True by (simp add: x)
    finally show ?thesis .
  next
    case False
    then show ?thesis
      unfolding x using Cons.IH [OF Cons.prems, of g] by simp
  qed
qed

lemma sector_fold_count:
  assumes "distinct (map fst xs)"
  shows "fold (\<lambda>(cid, info) g. if P info then g(cid := Suc (g cid)) else g) xs g c =
           g c + (case map_of xs c of None \<Rightarrow> 0 | Some i \<Rightarrow> if P i then 1 else 0)"
  using assms
proof (induction xs arbitrary: g)
  case Nil
  show ?case by simp
next
  case (Cons x xs)
  obtain cid info where x: "x = (cid, info)" by (cases x)
  from Cons.prems x have d: "distinct (map fst xs)" "cid \<notin> fst ` set xs" by auto
  from d(2) have n: "map_of xs cid = None" by (simp add: map_of_eq_None_iff)
  show ?case
    unfolding x using Cons.IH [OF d(1)] n by (auto split: option.splits)
qed

lemma count_directions_keyed:
  assumes d: "distinct (map fst si)"
  shows "fold (\<lambda>mr_row direction_counts.
             fold (\<lambda>(other_cid, info) direction_counts.
                     if in_cone info mr_row then AList.map_entry other_cid Suc direction_counts
                     else direction_counts)
               si direction_counts)
       mrs (map (\<lambda>(c, i). (c, g c)) si)
     = map (\<lambda>(c, i). (c, g c + count_where (in_cone i) mrs)) si"
proof (induction mrs arbitrary: g)
  case Nil
  show ?case by (simp add: count_where_def)
next
  case (Cons m mrs)
  let ?g = "\<lambda>c. g c + (case map_of si c of None \<Rightarrow> 0 | Some i \<Rightarrow> if in_cone i m then 1 else 0)"
  have "fold (\<lambda>(other_cid, info) direction_counts.
                     if in_cone info m then AList.map_entry other_cid Suc direction_counts
                     else direction_counts) si (map (\<lambda>(c, i). (c, g c)) si)
        = map (\<lambda>(c, i). (c, ?g c)) si"
    using sector_fold_keyed [OF d, of "\<lambda>info. in_cone info m" si g]
      sector_fold_count [OF d, of "\<lambda>info. in_cone info m" g]
    by simp
  then have "fold (\<lambda>mr_row direction_counts.
             fold (\<lambda>(other_cid, info) direction_counts.
                     if in_cone info mr_row then AList.map_entry other_cid Suc direction_counts
                     else direction_counts)
               si direction_counts)
       (m # mrs) (map (\<lambda>(c, i). (c, g c)) si)
     = map (\<lambda>(c, i). (c, ?g c + count_where (in_cone i) mrs)) si"
    using Cons.IH [of ?g] by simp
  also have "\<dots> = map (\<lambda>(c, i). (c, g c + count_where (in_cone i) (m # mrs))) si"
  proof (intro map_cong refl)
    fix p assume "p \<in> set si"
    moreover obtain c i where p: "p = (c, i)" by (rule prod.exhaust)
    ultimately have "(c, i) \<in> set si" by simp
    with d have "map_of si c = Some i" by simp
    then show "(case p of (c, i) \<Rightarrow> (c, ?g c + count_where (in_cone i) mrs))
             = (case p of (c, i) \<Rightarrow> (c, g c + count_where (in_cone i) (m # mrs)))"
      unfolding p by (simp add: count_where_def)
  qed
  finally show ?case .
qed

lemma count_directions_eq:
  assumes "distinct (map fst si)"
  shows "count_directions si mrs = map (\<lambda>(c, i). (c, count_where (in_cone i) mrs)) si"
  unfolding count_directions_def
  using count_directions_keyed [OF assms, of mrs "\<lambda>c. 0"] by simp

lemma sector_info_distinct: "distinct (map fst (sector_info_of ep carrier))"
proof -
  have "distinct (map fst acc) \<Longrightarrow>
        distinct (map fst (fold (\<lambda>ep_row sector_info. AList.update (ep_cell ep_row)
               (fmod (ep_azimuth ep_row) 360, ep_latitude ep_row, ep_longitude ep_row) sector_info)
            rows acc))" for rows acc
    by (induction rows arbitrary: acc) (simp_all add: distinct_update)
  from this [of "[]"] show ?thesis unfolding sector_info_of_def by simp
qed

text \<open>
  The histogram pass counts, for every sector of the carrier, the samples of the cell that
  lie in the cone of that sector: the bearing from the sector's place to the sample is
  within half the beamwidth of the sector's azimuth. The cell itself is one of the sectors.
\<close>

theorem direction_counts_of_site:
  "count_directions (sector_info_of ep carrier) mrs =
     map (\<lambda>(cid, info). (cid, count_where (in_cone info) mrs)) (sector_info_of ep carrier)"
  by (rule count_directions_eq [OF sector_info_distinct])

lemma count_where_replicate: "count_where P (replicate n x) = (if P x then n else 0)"
  by (simp add: count_where_def filter_replicate)

text \<open>
  The dictionary of a pass has an entry for every cell of the carrier, the cell of the pass
  among them, so \<open>max\<close> is never applied to an empty dictionary in \<open>candidate_of\<close>.
\<close>

lemma sector_info_nonempty:
  assumes "r \<in> set ep" "ep_carrier r = carrier"
  shows "sector_info_of ep carrier \<noteq> []"
proof -
  have "acc \<noteq> [] \<or> rows \<noteq> [] \<Longrightarrow>
        fold (\<lambda>ep_row sector_info. AList.update (ep_cell ep_row)
               (fmod (ep_azimuth ep_row) 360, ep_latitude ep_row, ep_longitude ep_row) sector_info)
            rows acc \<noteq> []" for rows acc
    by (induction rows arbitrary: acc) auto
  moreover from assms have "filter (\<lambda>r. ep_carrier r = carrier) ep \<noteq> []"
    by (auto simp: filter_empty_conv)
  ultimately show ?thesis unfolding sector_info_of_def by blast
qed

lemma candidate_of_defined:
  assumes "r \<in> set ep" "ep_carrier r = carrier"
  shows "\<exists>c. candidate_of (sector_info_of ep carrier) ty mrs = Some c"
proof -
  from sector_info_nonempty [OF assms] obtain x xs where "sector_info_of ep carrier = x # xs"
    by (cases "sector_info_of ep carrier") auto
  then have "\<exists>y ys. count_directions (sector_info_of ep carrier) mrs = y # ys"
    unfolding count_directions_eq [OF sector_info_distinct] by simp
  then show ?thesis
    by (auto simp: candidate_of_def max_entry_def Let_def split: prod.splits)
qed

subsection \<open>The second pass\<close>

lemma sorted_pair_cases:
  "sorted_pair x y = sorted_pair k t \<Longrightarrow> (x = k \<and> y = t) \<or> (x = t \<and> y = k)"
  by (auto simp: sorted_pair_def split: if_splits)

lemma sorted_pair_commute: "sorted_pair x y = sorted_pair y x"
  by (auto simp: sorted_pair_def)

lemma append_swap_results:
  "set (results (append_swap e k t ty st)) \<subseteq> set (results st) \<union> {(e, k, swap_found_text k t, ty)}"
  by (auto simp: append_swap_def)

lemma append_swap_mono: "set (results st) \<subseteq> set (results (append_swap e k t ty st))"
  by (auto simp: append_swap_def)

lemma append_swap_processed [simp]:
  "processed_pairs (append_swap e k t ty st) = processed_pairs st"
  by (simp add: append_swap_def)

lemma append_swap_added [simp]:
  "added_cells (append_swap e k t ty st) = insert (k, t) (added_cells st)"
  by (auto simp: append_swap_def)

lemma swap_step_cases:
  "swap_step e cs (k, c) st = st
   \<or> (\<exists>tc. confirms cs k c tc \<and> sorted_pair k (cd_target c) \<notin> processed_pairs st
        \<and> swap_step e cs (k, c) st =
            append_swap e (cd_target c) k (cd_cell_type tc)
              (append_swap e k (cd_target c) (cd_cell_type c)
                 (st\<lparr>processed_pairs := insert (sorted_pair k (cd_target c)) (processed_pairs st)\<rparr>)))"
  by (auto simp: swap_step_def confirms_def Let_def split: option.splits)

lemma swap_step_confirmed:
  assumes "confirms cs k c tc"
  shows "swap_step e cs (k, c) st =
           (if sorted_pair k (cd_target c) \<in> processed_pairs st then st
            else append_swap e (cd_target c) k (cd_cell_type tc)
              (append_swap e k (cd_target c) (cd_cell_type c)
                 (st\<lparr>processed_pairs := insert (sorted_pair k (cd_target c)) (processed_pairs st)\<rparr>)))"
  using assms by (auto simp: swap_step_def confirms_def Let_def split: if_splits)

lemma swap_step_mono: "set (results st) \<subseteq> set (results (swap_step e cs item st))"
proof -
  obtain k c where item: "item = (k, c)" by (cases item)
  let ?st1 = "st\<lparr>processed_pairs := insert (sorted_pair k (cd_target c)) (processed_pairs st)\<rparr>"
  let ?st2 = "append_swap e k (cd_target c) (cd_cell_type c) ?st1"
  have "set (results st) \<subseteq> set (results (append_swap e (cd_target c) k ty ?st2))" for ty
    using append_swap_mono [of ?st1 e k "cd_target c" "cd_cell_type c"]
      append_swap_mono [of ?st2 e "cd_target c" k ty] by auto
  then have "set (results st) \<subseteq> set (results (append_swap e (cd_target c) k ty ?st2))" for ty .
  with swap_step_cases [of e cs k c st] show ?thesis
    unfolding item by (elim disjE exE conjE) (simp, simp)
qed

lemma swap_step_new:
  assumes "r \<in> set (results (swap_step e cs (k, c) st))"
  shows "r \<in> set (results st)
       \<or> (\<exists>tc. confirms cs k c tc
            \<and> (r = (e, k, swap_found_text k (cd_target c), cd_cell_type c)
               \<or> r = (e, cd_target c, swap_found_text (cd_target c) k, cd_cell_type tc)))"
  using swap_step_cases [of e cs k c st]
proof (elim disjE exE conjE)
  assume "swap_step e cs (k, c) st = st"
  with assms show ?thesis by simp
next
  fix tc
  let ?st1 = "st\<lparr>processed_pairs := insert (sorted_pair k (cd_target c)) (processed_pairs st)\<rparr>"
  let ?st2 = "append_swap e k (cd_target c) (cd_cell_type c) ?st1"
  assume c: "confirms cs k c tc"
    and s: "swap_step e cs (k, c) st = append_swap e (cd_target c) k (cd_cell_type tc) ?st2"
  from assms s have "r \<in> set (results (append_swap e (cd_target c) k (cd_cell_type tc) ?st2))"
    by simp
  then have "r \<in> set (results ?st2) \<or> r = (e, cd_target c, swap_found_text (cd_target c) k, cd_cell_type tc)"
    using append_swap_results [of e "cd_target c" k "cd_cell_type tc" ?st2] by auto
  moreover have "r \<in> set (results ?st2) \<Longrightarrow>
      r \<in> set (results st) \<or> r = (e, k, swap_found_text k (cd_target c), cd_cell_type c)"
    using append_swap_results [of e k "cd_target c" "cd_cell_type c" ?st1] by auto
  ultimately show ?thesis using c by blast
qed

lemma pass_inv_append:
  assumes "pass_inv e st"
  shows "pass_inv e
           (append_swap e t k ty2
              (append_swap e k t ty1 (st\<lparr>processed_pairs := insert (sorted_pair k t) (processed_pairs st)\<rparr>)))"
proof -
  let ?st1 = "st\<lparr>processed_pairs := insert (sorted_pair k t) (processed_pairs st)\<rparr>"
  let ?st2 = "append_swap e k t ty1 ?st1"
  let ?st3 = "append_swap e t k ty2 ?st2"
  have r1: "set (results st) \<subseteq> set (results ?st3)"
    using append_swap_mono [of ?st1 e k t ty1] append_swap_mono [of ?st2 e t k ty2] by auto
  have a1: "\<exists>ty. (e, k, swap_found_text k t, ty) \<in> set (results ?st3)"
  proof (cases "(k, t) \<in> added_cells st")
    case True
    with assms r1 show ?thesis unfolding pass_inv_def by blast
  next
    case False
    then have "(e, k, swap_found_text k t, ty1) \<in> set (results ?st2)"
      by (simp add: append_swap_def)
    with append_swap_mono [of ?st2 e t k ty2] show ?thesis by blast
  qed
  have a2: "\<exists>ty. (e, t, swap_found_text t k, ty) \<in> set (results ?st3)"
  proof (cases "t = k")
    case True
    from a1 show ?thesis unfolding True .
  next
    case neq: False
    show ?thesis
    proof (cases "(t, k) \<in> added_cells st")
      case True
      with assms r1 show ?thesis unfolding pass_inv_def by blast
    next
      case False
      with neq have "(t, k) \<notin> added_cells ?st2" by simp
      then show ?thesis by (auto simp: append_swap_def)
    qed
  qed
  show ?thesis
    unfolding pass_inv_def
  proof (intro conjI allI impI)
    fix x y assume "(x, y) \<in> added_cells ?st3"
    then have "(x, y) = (t, k) \<or> (x, y) = (k, t) \<or> (x, y) \<in> added_cells st" by simp
    then show "\<exists>ty. (e, x, swap_found_text x y, ty) \<in> set (results ?st3)"
      using a1 a2 assms r1 unfolding pass_inv_def by blast
  next
    fix x y assume "sorted_pair x y \<in> processed_pairs ?st3"
    then have "sorted_pair x y = sorted_pair k t \<or> sorted_pair x y \<in> processed_pairs st" by simp
    then have "(x = k \<and> y = t) \<or> (x = t \<and> y = k) \<or> ((x, y) \<in> added_cells st \<and> (y, x) \<in> added_cells st)"
      using assms sorted_pair_cases [of x y k t] unfolding pass_inv_def by blast
    then show "(x, y) \<in> added_cells ?st3" "(y, x) \<in> added_cells ?st3" by auto
  qed
qed

lemma swap_step_inv: "pass_inv e st \<Longrightarrow> pass_inv e (swap_step e cs item st)"
proof -
  assume inv: "pass_inv e st"
  obtain k c where item: "item = (k, c)" by (cases item)
  have "pass_inv e (append_swap e (cd_target c) k ty2
              (append_swap e k (cd_target c) ty1
                 (st\<lparr>processed_pairs := insert (sorted_pair k (cd_target c)) (processed_pairs st)\<rparr>)))"
    for ty1 ty2
    by (rule pass_inv_append [OF inv])
  then show ?thesis
    unfolding item
    using swap_step_cases [of e cs k c st] inv by auto
qed

lemma swap_step_adds:
  assumes inv: "pass_inv e st" and c: "confirms cs k c tc"
  shows "(\<exists>ty. (e, k, swap_found_text k (cd_target c), ty) \<in> set (results (swap_step e cs (k, c) st)))
       \<and> (\<exists>ty. (e, cd_target c, swap_found_text (cd_target c) k, ty) \<in> set (results (swap_step e cs (k, c) st)))"
proof (cases "sorted_pair k (cd_target c) \<in> processed_pairs st")
  case True
  then have "swap_step e cs (k, c) st = st"
    using swap_step_confirmed [OF c] by simp
  moreover from True inv have "(k, cd_target c) \<in> added_cells st" "(cd_target c, k) \<in> added_cells st"
    unfolding pass_inv_def by blast+
  ultimately show ?thesis using inv unfolding pass_inv_def by simp
next
  case False
  let ?st3 = "swap_step e cs (k, c) st"
  have i3: "pass_inv e ?st3" by (rule swap_step_inv [OF inv])
  have "(k, cd_target c) \<in> added_cells ?st3" "(cd_target c, k) \<in> added_cells ?st3"
    using False swap_step_confirmed [OF c, of e st] by simp_all
  with i3 show ?thesis unfolding pass_inv_def by blast
qed

lemma fold_swap_step_mono:
  "set (results st) \<subseteq> set (results (fold (swap_step e cs) items st))"
proof (induction items arbitrary: st)
  case Nil
  show ?case by simp
next
  case (Cons item items)
  from swap_step_mono [of st e cs item] Cons.IH [of "swap_step e cs item st"]
  show ?case by auto
qed

lemma fold_swap_step_inv:
  "pass_inv e st \<Longrightarrow> pass_inv e (fold (swap_step e cs) items st)"
  by (induction items arbitrary: st) (simp_all add: swap_step_inv)

lemma fold_swap_step_new:
  assumes "r \<in> set (results (fold (swap_step e cs) items st))"
  shows "r \<in> set (results st)
       \<or> (\<exists>k c tc. (k, c) \<in> set items \<and> confirms cs k c tc
            \<and> (r = (e, k, swap_found_text k (cd_target c), cd_cell_type c)
               \<or> r = (e, cd_target c, swap_found_text (cd_target c) k, cd_cell_type tc)))"
  using assms
proof (induction items arbitrary: st)
  case Nil
  then show ?case by simp
next
  case (Cons item items)
  obtain k c where item: "item = (k, c)" by (cases item)
  from Cons.prems have "r \<in> set (results (fold (swap_step e cs) items (swap_step e cs (k, c) st)))"
    by (simp add: item)
  from Cons.IH [OF this] swap_step_new [of r e cs k c st]
  show ?case unfolding item by auto
qed

lemma fold_swap_step_adds:
  assumes inv: "pass_inv e st" and m: "(k, c) \<in> set items" and c: "confirms cs k c tc"
  shows "(\<exists>ty. (e, k, swap_found_text k (cd_target c), ty) \<in> set (results (fold (swap_step e cs) items st)))
       \<and> (\<exists>ty. (e, cd_target c, swap_found_text (cd_target c) k, ty)
              \<in> set (results (fold (swap_step e cs) items st)))"
proof -
  from m obtain pre post where items: "items = pre @ (k, c) # post"
    by (auto simp: in_set_conv_decomp)
  let ?st1 = "fold (swap_step e cs) pre st"
  let ?st2 = "swap_step e cs (k, c) ?st1"
  have "pass_inv e ?st1" by (rule fold_swap_step_inv [OF inv])
  from swap_step_adds [OF this c]
  have "(\<exists>ty. (e, k, swap_found_text k (cd_target c), ty) \<in> set (results ?st2))
       \<and> (\<exists>ty. (e, cd_target c, swap_found_text (cd_target c) k, ty) \<in> set (results ?st2))" .
  moreover have "set (results ?st2) \<subseteq> set (results (fold (swap_step e cs) items st))"
    unfolding items using fold_swap_step_mono [of ?st2 e cs post] by simp
  ultimately show ?thesis by blast
qed

lemma append_no_swap_set:
  "set (append_no_swap e cs st) =
     set (results st) \<union> {(e, k, ''No Sector Swap Found'', cd_cell_type c) | k c.
                            (k, c) \<in> set cs \<and> (e, k) \<notin> swap_found_cells st}"
proof -
  have "set (fold (\<lambda>(cell_id, candidate) results.
             if (e, cell_id) \<notin> swap_found_cells st
             then results @ [(e, cell_id, ''No Sector Swap Found'', cd_cell_type candidate)]
             else results) items rs) =
        set rs \<union> {(e, k, ''No Sector Swap Found'', cd_cell_type c) | k c.
                            (k, c) \<in> set items \<and> (e, k) \<notin> swap_found_cells st}" for items rs
    by (induction items arbitrary: rs) (auto split: if_splits)
  then show ?thesis by (simp add: append_no_swap_def)
qed

lemma pass_inv_initial:
  "pass_inv e \<lparr>processed_pairs = {}, added_cells = {}, swap_found_cells = {}, results = rs\<rparr>"
  by (simp add: pass_inv_def)

lemma carrier_passes_mono:
  "set rs \<subseteq> set (carrier_passes ft e ep mr carrier rs)"
proof -
  let ?cs = "first_pass ft ep mr carrier"
  let ?st0 = "\<lparr>processed_pairs = {}, added_cells = {}, swap_found_cells = {}, results = rs\<rparr>"
  have "set rs \<subseteq> set (results (fold (swap_step e ?cs) ?cs ?st0))"
    using fold_swap_step_mono [of ?st0 e ?cs ?cs] by simp
  then show ?thesis
    unfolding carrier_passes_def Let_def append_no_swap_set by blast
qed

lemma carrier_passes_new:
  assumes "r \<in> set (carrier_passes ft e ep mr carrier rs)"
  shows "r \<in> set rs
       \<or> (\<exists>k ty. r = (e, k, ''No Sector Swap Found'', ty))
       \<or> (\<exists>k c tc. (k, c) \<in> set (first_pass ft ep mr carrier)
            \<and> confirms (first_pass ft ep mr carrier) k c tc
            \<and> (r = (e, k, swap_found_text k (cd_target c), cd_cell_type c)
               \<or> r = (e, cd_target c, swap_found_text (cd_target c) k, cd_cell_type tc)))"
proof -
  let ?cs = "first_pass ft ep mr carrier"
  let ?st0 = "\<lparr>processed_pairs = {}, added_cells = {}, swap_found_cells = {}, results = rs\<rparr>"
  from assms have "r \<in> set (results (fold (swap_step e ?cs) ?cs ?st0))
      \<or> (\<exists>k ty. r = (e, k, ''No Sector Swap Found'', ty))"
    unfolding carrier_passes_def Let_def append_no_swap_set by auto
  then show ?thesis
    using fold_swap_step_new [of r e ?cs ?cs ?st0] by auto
qed

lemma carrier_passes_adds:
  assumes "(k, c) \<in> set (first_pass ft ep mr carrier)"
    and "confirms (first_pass ft ep mr carrier) k c tc"
  shows "(\<exists>ty. (e, k, swap_found_text k (cd_target c), ty) \<in> set (carrier_passes ft e ep mr carrier rs))
       \<and> (\<exists>ty. (e, cd_target c, swap_found_text (cd_target c) k, ty)
              \<in> set (carrier_passes ft e ep mr carrier rs))"
  unfolding carrier_passes_def Let_def append_no_swap_set
  using fold_swap_step_adds [OF pass_inv_initial assms, of e rs] by auto

subsection \<open>The first pass\<close>

lemma first_pass_eq:
  "first_pass ft ep mr carrier =
     fold (\<lambda>r cands. case entry_for ft ep mr carrier r of
                        None \<Rightarrow> cands
                      | Some c \<Rightarrow> AList.update (ep_cell r) c cands)
       (filter (\<lambda>r. ep_carrier r = carrier) ep) []"
proof -
  have "(\<lambda>ep_row swap_candidates.
                 (let cell_id = ep_cell ep_row;
                      cell_type = cell_type_of ft cell_id carrier;
                      mr_cell_data = mr_of_cell mr ep_row
                  in if cell_type = ''Massive MIMO'' then swap_candidates
                     else if mr_cell_data = [] \<or> length mr_cell_data < 50 then swap_candidates
                     else
                       (case candidate_of (sector_info_of ep carrier) cell_type mr_cell_data of
                          None \<Rightarrow> swap_candidates
                        | Some candidate \<Rightarrow> AList.update cell_id candidate swap_candidates)))
        = (\<lambda>r cands. case entry_for ft ep mr carrier r of
                        None \<Rightarrow> cands
                      | Some c \<Rightarrow> AList.update (ep_cell r) c cands)"
    by (intro ext) (auto simp: entry_for_def Let_def)
  then show ?thesis
    unfolding first_pass_def Let_def by simp
qed

lemma fold_update_distinct:
  "distinct (map fst acc) \<Longrightarrow>
   distinct (map fst (fold (\<lambda>r cands. case g r of None \<Rightarrow> cands
                                       | Some c \<Rightarrow> AList.update (h r) c cands) rows acc))"
  by (induction rows arbitrary: acc) (auto simp: distinct_update split: option.splits)

lemma fold_update_lookup_Some:
  "map_of (fold (\<lambda>r cands. case g r of None \<Rightarrow> cands
                          | Some c \<Rightarrow> AList.update (h r) c cands) rows acc) k = Some c
   \<Longrightarrow> map_of acc k = Some c \<or> (\<exists>r \<in> set rows. h r = k \<and> g r = Some c)"
proof (induction rows arbitrary: acc)
  case Nil
  then show ?case by simp
next
  case (Cons r rows)
  let ?acc = "case g r of None \<Rightarrow> acc | Some c \<Rightarrow> AList.update (h r) c acc"
  from Cons.prems have "map_of (fold (\<lambda>r cands. case g r of None \<Rightarrow> cands
                          | Some c \<Rightarrow> AList.update (h r) c cands) rows ?acc) k = Some c"
    by simp
  from Cons.IH [OF this]
  show ?case
    by (auto simp: update_conv' split: option.splits if_splits)
qed

lemma fold_update_lookup_uniform:
  assumes "\<forall>r \<in> set rows. h r = k \<longrightarrow> g r = Some c"
    and "\<exists>r \<in> set rows. h r = k"
  shows "map_of (fold (\<lambda>r cands. case g r of None \<Rightarrow> cands
                          | Some c \<Rightarrow> AList.update (h r) c cands) rows acc) k = Some c"
  using assms
proof (induction rows arbitrary: acc)
  case Nil
  then show ?case by simp
next
  case (Cons r rows)
  let ?f = "\<lambda>r cands. case g r of None \<Rightarrow> cands | Some c \<Rightarrow> AList.update (h r) c cands"
  show ?case
  proof (cases "\<exists>r' \<in> set rows. h r' = k")
    case True
    with Cons.prems Cons.IH [of "?f r acc"] show ?thesis by simp
  next
    case False
    with Cons.prems have hr: "h r = k" "g r = Some c" by auto
    have "map_of (fold ?f rows acc') k = map_of acc' k" for acc'
      using False
    proof (induction rows arbitrary: acc')
      case Nil
      show ?case by simp
    next
      case (Cons x xs)
      then show ?case by (auto simp: update_conv' split: option.splits)
    qed
    then show ?thesis using hr by (simp add: update_conv')
  qed
qed

lemma first_pass_distinct: "distinct (map fst (first_pass ft ep mr carrier))"
  unfolding first_pass_eq by (rule fold_update_distinct) simp

lemma first_pass_member:
  assumes "(k, c) \<in> set (first_pass ft ep mr carrier)"
  shows "map_of (first_pass ft ep mr carrier) k = Some c
       \<and> (\<exists>r \<in> set ep. ep_carrier r = carrier \<and> ep_cell r = k \<and> entry_for ft ep mr carrier r = Some c)"
proof -
  from assms first_pass_distinct have m: "map_of (first_pass ft ep mr carrier) k = Some c"
    by simp
  from m [unfolded first_pass_eq] fold_update_lookup_Some
    [where g = "entry_for ft ep mr carrier" and h = ep_cell
       and rows = "filter (\<lambda>r. ep_carrier r = carrier) ep" and acc = "[]" and k = k and c = c]
  have "\<exists>r \<in> set ep. ep_carrier r = carrier \<and> ep_cell r = k \<and> entry_for ft ep mr carrier r = Some c"
    by auto
  with m show ?thesis by simp
qed

lemma first_pass_lookup:
  assumes "\<forall>r \<in> set ep. ep_carrier r = carrier \<and> ep_cell r = k \<longrightarrow> entry_for ft ep mr carrier r = Some c"
    and "\<exists>r \<in> set ep. ep_carrier r = carrier \<and> ep_cell r = k"
  shows "map_of (first_pass ft ep mr carrier) k = Some c"
  unfolding first_pass_eq
  by (rule fold_update_lookup_uniform) (use assms in auto)

subsection \<open>The loop over the cells and the final table\<close>

lemma swap_found_text_inj: "swap_found_text x y = swap_found_text x y' \<Longrightarrow> y = y'"
  by (simp add: swap_found_text_def)

lemma status_text_not_swap [simp]:
  "swap_found_text x y \<noteq> CHR ''N'' # s" "CHR ''N'' # s \<noteq> swap_found_text x y"
  "swap_found_text x y \<noteq> CHR ''L'' # s" "CHR ''L'' # s \<noteq> swap_found_text x y"
  by (simp_all add: swap_found_text_def)

lemma process_cell_row_mono: "set rs \<subseteq> set (process_cell_row ft e ep mr r rs)"
  using carrier_passes_mono [of rs ft e ep mr "ep_carrier r"]
  by (auto simp: process_cell_row_def Let_def)

lemma fold_process_cell_row_mono:
  "set rs \<subseteq> set (fold (process_cell_row ft e ep mr) rows rs)"
proof (induction rows arbitrary: rs)
  case Nil
  show ?case by simp
next
  case (Cons r rows)
  from process_cell_row_mono [of rs ft e ep mr r] Cons.IH [of "process_cell_row ft e ep mr r rs"]
  show ?case by auto
qed

lemma process_cell_row_swap:
  assumes "(e', a, swap_found_text a b, ty) \<in> set (process_cell_row ft e ep mr r rs)"
  shows "(e', a, swap_found_text a b, ty) \<in> set rs
       \<or> (\<exists>k c tc. (k, c) \<in> set (first_pass ft ep mr (ep_carrier r))
            \<and> confirms (first_pass ft ep mr (ep_carrier r)) k c tc
            \<and> ((k = a \<and> cd_target c = b) \<or> (cd_target c = a \<and> k = b)))"
proof (cases "(e', a, swap_found_text a b, ty) \<in> set rs")
  case True
  then show ?thesis by simp
next
  case False
  with assms have "(e', a, swap_found_text a b, ty)
      \<in> set (carrier_passes ft e ep mr (ep_carrier r) rs)"
    by (auto simp: process_cell_row_def Let_def split: if_splits)
  from carrier_passes_new [OF this] False
  obtain k c tc where kc: "(k, c) \<in> set (first_pass ft ep mr (ep_carrier r))"
      "confirms (first_pass ft ep mr (ep_carrier r)) k c tc"
      "(e', a, swap_found_text a b, ty) = (e, k, swap_found_text k (cd_target c), cd_cell_type c)
       \<or> (e', a, swap_found_text a b, ty) = (e, cd_target c, swap_found_text (cd_target c) k, cd_cell_type tc)"
    by auto
  from kc(3) have "(k = a \<and> cd_target c = b) \<or> (cd_target c = a \<and> k = b)"
    by (auto dest: swap_found_text_inj)
  with kc(1,2) show ?thesis by blast
qed

lemma fold_process_cell_row_swap:
  assumes "(e', a, swap_found_text a b, ty) \<in> set (fold (process_cell_row ft e ep mr) rows rs)"
  shows "(e', a, swap_found_text a b, ty) \<in> set rs
       \<or> (\<exists>r \<in> set rows. \<exists>k c tc. (k, c) \<in> set (first_pass ft ep mr (ep_carrier r))
            \<and> confirms (first_pass ft ep mr (ep_carrier r)) k c tc
            \<and> ((k = a \<and> cd_target c = b) \<or> (cd_target c = a \<and> k = b)))"
  using assms
proof (induction rows arbitrary: rs)
  case Nil
  then show ?case by simp
next
  case (Cons r rows)
  from Cons.prems have "(e', a, swap_found_text a b, ty)
      \<in> set (fold (process_cell_row ft e ep mr) rows (process_cell_row ft e ep mr r rs))"
    by simp
  from Cons.IH [OF this] process_cell_row_swap [of e' a b ty ft e ep mr r rs]
  show ?case by auto
qed

lemma drop_duplicates_on_keys:
  "f ` set (drop_duplicates_on f seen rows) = f ` set rows - set seen"
  by (induction rows arbitrary: seen) auto

lemma process_enodeb_triples:
  "set (map (\<lambda>(name, cell_id, result, cell_type). (name, cell_id, result))
          (process_enodeb settings e ep mr))
     = (\<lambda>(name, cell_id, result, cell_type). (name, cell_id, result))
         ` set (fold (process_cell_row (final_types settings e ep) e ep mr) ep [])"
  by (simp add: process_enodeb_def Let_def drop_duplicates_on_keys)

subsection \<open>Confirmation of a swap\<close>

lemma candidate_of_fields:
  "candidate_of si ty mrs = Some c \<Longrightarrow> cd_cell_type c = ty \<and> cd_is_split c = (ty = ''Sector Split'')"
  by (auto simp: candidate_of_def Let_def split: option.splits)

lemma adaptive_swap_commute: "adaptive_swap x y = adaptive_swap y x"
  by (auto simp: adaptive_swap_def)

lemma entry_for_site:
  assumes "ep_site r = e"
  shows "entry_for (final_types settings e ep) ep mr carrier r =
           (if cell_type_of (final_types settings e ep) (ep_cell r) carrier = ''Massive MIMO''
               \<or> length (attributed mr e (ep_cell r)) < 50
            then None else candidate_for settings e ep mr carrier (ep_cell r))"
  using assms by (simp add: entry_for_def candidate_for_def attributed_def mr_of_cell_def Let_def)

lemma swap_condition_commute:
  "swap_condition settings e ep mr carrier a b = swap_condition settings e ep mr carrier b a"
  unfolding swap_condition_def
  by (subst adaptive_swap_commute) blast

lemma confirms_imp_condition:
  assumes site: "\<forall>r \<in> set ep. ep_site r = e"
    and kc: "(k, c) \<in> set (first_pass (final_types settings e ep) ep mr carrier)"
    and cf: "confirms (first_pass (final_types settings e ep) ep mr carrier) k c tc"
    and ns: "cell_type_of (final_types settings e ep) k carrier \<noteq> ''Sector Split''"
  shows "swap_condition settings e ep mr carrier k (cd_target c)"
proof -
  let ?ft = "final_types settings e ep"
  let ?cs = "first_pass ?ft ep mr carrier"
  from first_pass_member [OF kc] obtain r where r: "r \<in> set ep" "ep_cell r = k"
      "entry_for ?ft ep mr carrier r = Some c" by blast
  with site have ck: "candidate_for settings e ep mr carrier k = Some c"
    by (auto simp: entry_for_site split: if_splits)
  from cf have m: "map_of ?cs (cd_target c) = Some tc" by (simp add: confirms_def)
  then have "(cd_target c, tc) \<in> set ?cs" by (rule map_of_SomeD)
  from first_pass_member [OF this] obtain r' where r': "r' \<in> set ep" "ep_cell r' = cd_target c"
      "entry_for ?ft ep mr carrier r' = Some tc" by blast
  with site have ct: "candidate_for settings e ep mr carrier (cd_target c) = Some tc"
    by (auto simp: entry_for_site split: if_splits)
  from ck have "cd_is_split c = (cell_type_of ?ft k carrier = ''Sector Split'')"
    unfolding candidate_for_def by (simp add: candidate_of_fields)
  with ns have "\<not> cd_is_split c" by simp
  with cf ck ct show ?thesis
    unfolding swap_condition_def confirms_def by auto
qed

lemma condition_imp_confirms:
  assumes site: "\<forall>r \<in> set ep. ep_site r = e"
    and ra: "\<exists>r \<in> set ep. ep_cell r = a \<and> ep_carrier r = carrier"
    and rb: "\<exists>r \<in> set ep. ep_cell r = b \<and> ep_carrier r = carrier"
    and ab: "a \<noteq> b"
    and ta: "cell_type_of (final_types settings e ep) a carrier \<noteq> ''Sector Split''"
            "cell_type_of (final_types settings e ep) a carrier \<noteq> ''Massive MIMO''"
    and tb: "cell_type_of (final_types settings e ep) b carrier \<noteq> ''Massive MIMO''"
    and na: "50 \<le> length (attributed mr e a)" and nb: "50 \<le> length (attributed mr e b)"
    and ca: "candidate_for settings e ep mr carrier a = Some ca"
    and cb: "candidate_for settings e ep mr carrier b = Some cb"
    and cond: "cd_target ca = b" "cd_target cb = a" "cd_total_mr ca \<noteq> 0" "cd_total_mr cb \<noteq> 0"
      "(strict_rule ca \<and> strict_rule cb) \<or> adaptive_swap (direction_ratio ca b) (direction_ratio cb a)"
  shows "(a, ca) \<in> set (first_pass (final_types settings e ep) ep mr carrier)
       \<and> confirms (first_pass (final_types settings e ep) ep mr carrier) a ca cb"
proof -
  let ?ft = "final_types settings e ep"
  let ?cs = "first_pass ?ft ep mr carrier"
  have ma: "map_of ?cs a = Some ca"
    by (rule first_pass_lookup) (use site ra ta na ca in \<open>auto simp: entry_for_site\<close>)
  have mb: "map_of ?cs b = Some cb"
    by (rule first_pass_lookup) (use site rb tb nb cb in \<open>auto simp: entry_for_site\<close>)
  from ca have "cd_is_split ca = (cell_type_of ?ft a carrier = ''Sector Split'')"
    unfolding candidate_for_def by (simp add: candidate_of_fields)
  with ta have "\<not> cd_is_split ca" by simp
  with ma mb cond ab show ?thesis
    unfolding confirms_def by (auto dest: map_of_SomeD)
qed

lemma fold_process_cell_row_adds:
  assumes r: "r \<in> set rows"
    and p: "\<And>rs. \<exists>x \<in> set (process_cell_row ft e ep mr r rs). P x"
  shows "\<exists>x \<in> set (fold (process_cell_row ft e ep mr) rows rs0). P x"
proof -
  from r obtain pre post where rows: "rows = pre @ r # post"
    by (auto simp: in_set_conv_decomp)
  let ?rs1 = "fold (process_cell_row ft e ep mr) pre rs0"
  from p obtain x where "x \<in> set (process_cell_row ft e ep mr r ?rs1)" "P x" by blast
  with fold_process_cell_row_mono [of "process_cell_row ft e ep mr r ?rs1" ft e ep mr post]
  show ?thesis unfolding rows by auto
qed

lemma process_cell_row_passes:
  assumes "ep_site r = e" "ep_cell r = a" "ep_carrier r = carrier"
    and "cell_type_of ft a carrier \<noteq> ''Massive MIMO''"
    and "50 \<le> length (attributed mr e a)"
  shows "process_cell_row ft e ep mr r rs = carrier_passes ft e ep mr carrier rs"
proof -
  from assms have "mr_of_cell mr r = attributed mr e a"
    by (simp add: mr_of_cell_def attributed_def)
  with assms show ?thesis
    by (auto simp: process_cell_row_def Let_def)
qed

lemma process_enodeb_row:
  "t \<in> set (map (\<lambda>(name, cell_id, result, cell_type). (name, cell_id, result))
              (process_enodeb settings e ep mr))
   \<longleftrightarrow> (\<exists>ty. (fst t, fst (snd t), snd (snd t), ty)
              \<in> set (fold (process_cell_row (final_types settings e ep) e ep mr) ep []))"
  unfolding process_enodeb_triples by (cases t) force

lemma swap_row_imp_condition:
  assumes site: "\<forall>r \<in> set ep. ep_site r = e"
    and ta: "cell_type_of (final_types settings e ep) a carrier \<noteq> ''Sector Split''"
    and tb: "cell_type_of (final_types settings e ep) b carrier \<noteq> ''Sector Split''"
    and uniq: "\<forall>r \<in> set ep. ep_cell r = a \<or> ep_cell r = b \<longrightarrow> ep_carrier r = carrier"
    and x: "(x = a \<and> y = b) \<or> (x = b \<and> y = a)"
    and m: "(e, x, swap_found_text x y)
              \<in> set (map (\<lambda>(name, cell_id, result, cell_type). (name, cell_id, result))
                       (process_enodeb settings e ep mr))"
  shows "swap_condition settings e ep mr carrier x y"
proof -
  let ?ft = "final_types settings e ep"
  let ?res = "fold (process_cell_row ?ft e ep mr) ep []"
  from m obtain ty where "(e, x, swap_found_text x y, ty) \<in> set ?res"
    unfolding process_enodeb_row by auto
  from fold_process_cell_row_swap [OF this]
  obtain r k c tc where r: "r \<in> set ep"
    and kc: "(k, c) \<in> set (first_pass ?ft ep mr (ep_carrier r))"
    and cf: "confirms (first_pass ?ft ep mr (ep_carrier r)) k c tc"
    and k: "(k = x \<and> cd_target c = y) \<or> (cd_target c = x \<and> k = y)"
    by auto
  from first_pass_member [OF kc] obtain r' where "r' \<in> set ep" "ep_carrier r' = ep_carrier r"
    "ep_cell r' = k" by blast
  with uniq x k have c': "ep_carrier r = carrier" by auto
  from x k ta tb have "cell_type_of ?ft k carrier \<noteq> ''Sector Split''" by auto
  from confirms_imp_condition [OF site kc [unfolded c'] cf [unfolded c'] this]
  have "swap_condition settings e ep mr carrier k (cd_target c)" .
  with k show ?thesis
    using swap_condition_commute [of settings e ep mr carrier x y] by auto
qed

lemma condition_imp_swap_rows:
  assumes site: "\<forall>r \<in> set ep. ep_site r = e"
    and ra: "\<exists>r \<in> set ep. ep_cell r = a \<and> ep_carrier r = carrier"
    and rb: "\<exists>r \<in> set ep. ep_cell r = b \<and> ep_carrier r = carrier"
    and ab: "a \<noteq> b"
    and ta: "cell_type_of (final_types settings e ep) a carrier \<noteq> ''Sector Split''"
            "cell_type_of (final_types settings e ep) a carrier \<noteq> ''Massive MIMO''"
    and tb: "cell_type_of (final_types settings e ep) b carrier \<noteq> ''Massive MIMO''"
    and na: "50 \<le> length (attributed mr e a)" and nb: "50 \<le> length (attributed mr e b)"
    and cond: "swap_condition settings e ep mr carrier a b"
  shows "(e, a, swap_found_text a b)
            \<in> set (map (\<lambda>(name, cell_id, result, cell_type). (name, cell_id, result))
                     (process_enodeb settings e ep mr))
          \<and> (e, b, swap_found_text b a)
            \<in> set (map (\<lambda>(name, cell_id, result, cell_type). (name, cell_id, result))
                     (process_enodeb settings e ep mr))"
proof -
  let ?ft = "final_types settings e ep"
  let ?res = "fold (process_cell_row ?ft e ep mr) ep []"
  from cond obtain ca cb where c: "candidate_for settings e ep mr carrier a = Some ca"
    "candidate_for settings e ep mr carrier b = Some cb"
    "cd_target ca = b" "cd_target cb = a" "cd_total_mr ca \<noteq> 0" "cd_total_mr cb \<noteq> 0"
    "(strict_rule ca \<and> strict_rule cb) \<or> adaptive_swap (direction_ratio ca b) (direction_ratio cb a)"
    unfolding swap_condition_def by blast
  from condition_imp_confirms [OF site ra rb ab ta tb na nb c]
  have kc: "(a, ca) \<in> set (first_pass ?ft ep mr carrier)"
    and cf: "confirms (first_pass ?ft ep mr carrier) a ca cb" by simp_all
  from ra obtain r where r: "r \<in> set ep" "ep_cell r = a" "ep_carrier r = carrier" by blast
  with site have "ep_site r = e" by simp
  from process_cell_row_passes [OF this r(2,3) ta(2) na]
  have p: "process_cell_row ?ft e ep mr r rs = carrier_passes ?ft e ep mr carrier rs" for rs .
  have 1: "\<exists>x \<in> set (process_cell_row ?ft e ep mr r rs). \<exists>ty. x = (e, a, swap_found_text a b, ty)" for rs
    using carrier_passes_adds [OF kc cf, of e rs] c(3) unfolding p by auto
  have 2: "\<exists>x \<in> set (process_cell_row ?ft e ep mr r rs). \<exists>ty. x = (e, b, swap_found_text b a, ty)" for rs
    using carrier_passes_adds [OF kc cf, of e rs] c(3) unfolding p by auto
  have "\<exists>x \<in> set ?res. \<exists>ty. x = (e, a, swap_found_text a b, ty)"
    by (rule fold_process_cell_row_adds [OF r(1)]) (rule 1)
  moreover have "\<exists>x \<in> set ?res. \<exists>ty. x = (e, b, swap_found_text b a, ty)"
    by (rule fold_process_cell_row_adds [OF r(1)]) (rule 2)
  ultimately have "\<exists>ty. (e, a, swap_found_text a b, ty) \<in> set ?res"
    "\<exists>ty. (e, b, swap_found_text b a, ty) \<in> set ?res" by auto
  then show ?thesis unfolding process_enodeb_row by simp
qed

subsection \<open>A site of two sectors\<close>

lemma azimuth_east: "calculate_azimuth 0 0 0 1 = 90"
  unfolding azimuth_equator using sin_radians_pos [of 1] by (simp add: bearing_east)

lemma azimuth_north: "calculate_azimuth 0 0 1 0 = 0"
  unfolding azimuth_meridian using reciprocal_meridian(1) [of 1] by simp

lemma azimuth_south: "calculate_azimuth 0 0 (- 1) 0 = 180"
  unfolding azimuth_meridian using reciprocal_meridian(2) [of 1] by simp

lemma in_cone_east:
  "\<not> in_cone (180, 0, 0) \<lparr>mr_site = s, mr_cell = c, mr_latitude = 0, mr_longitude = 1, mr_rsrp = p\<rparr>"
  "\<not> in_cone (0, 0, 0) \<lparr>mr_site = s, mr_cell = c, mr_latitude = 0, mr_longitude = 1, mr_rsrp = p\<rparr>"
  by (simp_all add: in_cone_def azimuth_east fmod_def)

lemma in_cone_north:
  "\<not> in_cone (180, 0, 0) \<lparr>mr_site = s, mr_cell = c, mr_latitude = 1, mr_longitude = 0, mr_rsrp = p\<rparr>"
  "in_cone (0, 0, 0) \<lparr>mr_site = s, mr_cell = c, mr_latitude = 1, mr_longitude = 0, mr_rsrp = p\<rparr>"
  by (simp_all add: in_cone_def azimuth_north fmod_def)

lemma in_cone_south:
  "in_cone (180, 0, 0) \<lparr>mr_site = s, mr_cell = c, mr_latitude = - 1, mr_longitude = 0, mr_rsrp = p\<rparr>"
  "\<not> in_cone (0, 0, 0) \<lparr>mr_site = s, mr_cell = c, mr_latitude = - 1, mr_longitude = 0, mr_rsrp = p\<rparr>"
  by (simp_all add: in_cone_def azimuth_south fmod_def)

lemma two_sector_info:
  "sector_info_of
     [\<lparr>ep_site = ''S1'', ep_cell = ''B'', ep_carrier = ''L1800'', ep_latitude = 0, ep_longitude = 0,
       ep_azimuth = 180\<rparr>,
      \<lparr>ep_site = ''S1'', ep_cell = ''A'', ep_carrier = ''L1800'', ep_latitude = 0, ep_longitude = 0,
       ep_azimuth = 0\<rparr>] ''L1800''
   = [(''B'', (180, 0, 0)), (''A'', (0, 0, 0))]"
  by (simp add: sector_info_of_def fmod_def)

lemma two_sector_types:
  "cell_type_of (final_types \<lparr>sector_split = [], massive_mimo = []\<rparr> ''S1''
     [\<lparr>ep_site = ''S1'', ep_cell = ''B'', ep_carrier = ''L1800'', ep_latitude = 0, ep_longitude = 0,
       ep_azimuth = 180\<rparr>,
      \<lparr>ep_site = ''S1'', ep_cell = ''A'', ep_carrier = ''L1800'', ep_latitude = 0, ep_longitude = 0,
       ep_azimuth = 0\<rparr>]) c ''L1800'' = []"
  by (simp add: cell_type_of_def final_types_def configure_cells_def cell_key_of_def
      validate_mimo_groups_def find_split_mimo_overlap_def resolve_final_types_def
      has_mimo_group_def has_split_partner_def Let_def)

lemma candidate_of_two_sectors:
  "candidate_of [(''B'', (180, 0, 0)), (''A'', (0, 0, 0))] ty mrs =
     (let nb = count_where (in_cone (180, 0, 0)) mrs;
          na = count_where (in_cone (0, 0, 0)) mrs
      in Some \<lparr>cd_target = (if nb < na then ''A'' else ''B''),
               cd_max_count = max nb na, cd_total_mr = nb + na,
               cd_second_max_count = min nb na,
               cd_cell_type = ty, cd_is_split = (ty = ''Sector Split''),
               cd_direction_counts = [(''B'', nb), (''A'', na)]\<rparr>)"
proof -
  have d: "distinct (map fst [(''B'', (180 :: real, 0 :: real, 0 :: real)), (''A'', (0, 0, 0))])"
    by simp
  show ?thesis
    unfolding candidate_of_def count_directions_eq [OF d]
    by (auto simp: Let_def max_entry_def max_def min_def)
qed

lemma two_sector_attributed:
  "attributed (replicate n \<lparr>mr_site = ''S1'', mr_cell = ''A'', mr_latitude = la, mr_longitude = lo, mr_rsrp = p\<rparr>
               @ replicate m \<lparr>mr_site = ''S1'', mr_cell = ''B'', mr_latitude = la', mr_longitude = lo', mr_rsrp = p'\<rparr>)
     ''S1'' ''A''
   = replicate n \<lparr>mr_site = ''S1'', mr_cell = ''A'', mr_latitude = la, mr_longitude = lo, mr_rsrp = p\<rparr>"
  "attributed (replicate n \<lparr>mr_site = ''S1'', mr_cell = ''A'', mr_latitude = la, mr_longitude = lo, mr_rsrp = p\<rparr>
               @ replicate m \<lparr>mr_site = ''S1'', mr_cell = ''B'', mr_latitude = la', mr_longitude = lo', mr_rsrp = p'\<rparr>)
     ''S1'' ''B''
   = replicate m \<lparr>mr_site = ''S1'', mr_cell = ''B'', mr_latitude = la', mr_longitude = lo', mr_rsrp = p'\<rparr>"
  by (simp_all add: attributed_def join_key_def filter_replicate)

text \<open>
  Claim C1, as amended. For two distinct cells of a site and carrier that are neither
  sector-split nor massive-MIMO, each with at least 50 attributed MR samples, and whose
  cell ids are used on no other carrier of the site, both cells receive their
  \<open>Sector Swap Found Between ... and ...\<close> row exactly when the pair is mutual, both cells
  have a positive total of direction counts, and the strict or the adaptive rule holds.
\<close>

theorem swap_confirmed_iff:
  assumes site: "\<forall>r \<in> set ep. ep_site r = e"
    and ra: "\<exists>r \<in> set ep. ep_cell r = a \<and> ep_carrier r = carrier"
    and rb: "\<exists>r \<in> set ep. ep_cell r = b \<and> ep_carrier r = carrier"
    and ab: "a \<noteq> b"
    and ta: "cell_type_of (final_types settings e ep) a carrier \<noteq> ''Sector Split''"
            "cell_type_of (final_types settings e ep) a carrier \<noteq> ''Massive MIMO''"
    and tb: "cell_type_of (final_types settings e ep) b carrier \<noteq> ''Sector Split''"
            "cell_type_of (final_types settings e ep) b carrier \<noteq> ''Massive MIMO''"
    and na: "50 \<le> length (attributed mr e a)" and nb: "50 \<le> length (attributed mr e b)"
    and uniq: "\<forall>r \<in> set ep. ep_cell r = a \<or> ep_cell r = b \<longrightarrow> ep_carrier r = carrier"
  shows "((e, a, swap_found_text a b)
            \<in> set (map (\<lambda>(name, cell_id, result, cell_type). (name, cell_id, result))
                     (process_enodeb settings e ep mr))
          \<and> (e, b, swap_found_text b a)
            \<in> set (map (\<lambda>(name, cell_id, result, cell_type). (name, cell_id, result))
                     (process_enodeb settings e ep mr)))
         \<longleftrightarrow>
         (\<exists>ca cb. candidate_for settings e ep mr carrier a = Some ca
            \<and> candidate_for settings e ep mr carrier b = Some cb
            \<and> cd_target ca = b \<and> cd_target cb = a
            \<and> cd_total_mr ca \<noteq> 0 \<and> cd_total_mr cb \<noteq> 0
            \<and> ((strict_rule ca \<and> strict_rule cb)
               \<or> adaptive_swap (direction_ratio ca b) (direction_ratio cb a)))"
proof -
  have "swap_condition settings e ep mr carrier a b"
    if "(e, a, swap_found_text a b)
            \<in> set (map (\<lambda>(name, cell_id, result, cell_type). (name, cell_id, result))
                     (process_enodeb settings e ep mr))"
    by (rule swap_row_imp_condition [OF site ta(1) tb(1) uniq _ that]) simp
  with condition_imp_swap_rows [OF site ra rb ab ta tb(2) na nb]
  show ?thesis unfolding swap_condition_def by blast
qed

theorem swap_confirmed_iff_witness:
  "(''S1'', ''A'', swap_found_text ''A'' ''B'')
     \<in> set (map (\<lambda>(name, cell_id, result, cell_type). (name, cell_id, result))
         (process_enodeb \<lparr>sector_split = [], massive_mimo = []\<rparr> ''S1''
            [\<lparr>ep_site = ''S1'', ep_cell = ''B'', ep_carrier = ''L1800'', ep_latitude = 0,
              ep_longitude = 0, ep_azimuth = 180\<rparr>,
             \<lparr>ep_site = ''S1'', ep_cell = ''A'', ep_carrier = ''L1800'', ep_latitude = 0,
              ep_longitude = 0, ep_azimuth = 0\<rparr>]
            (replicate 50 \<lparr>mr_site = ''S1'', mr_cell = ''A'', mr_latitude = - 1, mr_longitude = 0,
                            mr_rsrp = - 90\<rparr>
             @ replicate 50 \<lparr>mr_site = ''S1'', mr_cell = ''B'', mr_latitude = 1, mr_longitude = 0,
                              mr_rsrp = - 90\<rparr>)))
   \<and> (''S1'', ''B'', swap_found_text ''B'' ''A'')
     \<in> set (map (\<lambda>(name, cell_id, result, cell_type). (name, cell_id, result))
         (process_enodeb \<lparr>sector_split = [], massive_mimo = []\<rparr> ''S1''
            [\<lparr>ep_site = ''S1'', ep_cell = ''B'', ep_carrier = ''L1800'', ep_latitude = 0,
              ep_longitude = 0, ep_azimuth = 180\<rparr>,
             \<lparr>ep_site = ''S1'', ep_cell = ''A'', ep_carrier = ''L1800'', ep_latitude = 0,
              ep_longitude = 0, ep_azimuth = 0\<rparr>]
            (replicate 50 \<lparr>mr_site = ''S1'', mr_cell = ''A'', mr_latitude = - 1, mr_longitude = 0,
                            mr_rsrp = - 90\<rparr>
             @ replicate 50 \<lparr>mr_site = ''S1'', mr_cell = ''B'', mr_latitude = 1, mr_longitude = 0,
                              mr_rsrp = - 90\<rparr>)))"
proof -
  let ?ep = "[\<lparr>ep_site = ''S1'', ep_cell = ''B'', ep_carrier = ''L1800'', ep_latitude = 0 :: real,
              ep_longitude = 0, ep_azimuth = 180\<rparr>,
             \<lparr>ep_site = ''S1'', ep_cell = ''A'', ep_carrier = ''L1800'', ep_latitude = 0,
              ep_longitude = 0, ep_azimuth = 0\<rparr>]"
  let ?mr = "replicate 50 \<lparr>mr_site = ''S1'', mr_cell = ''A'', mr_latitude = - 1 :: real, mr_longitude = 0,
                            mr_rsrp = - 90\<rparr>
             @ replicate 50 \<lparr>mr_site = ''S1'', mr_cell = ''B'', mr_latitude = 1, mr_longitude = 0,
                              mr_rsrp = - 90\<rparr>"
  let ?settings = "\<lparr>sector_split = [], massive_mimo = []\<rparr>"
  have ca: "candidate_for ?settings ''S1'' ?ep ?mr ''L1800'' ''A'' =
      Some \<lparr>cd_target = ''B'', cd_max_count = 50, cd_total_mr = 50, cd_second_max_count = 0,
            cd_cell_type = [], cd_is_split = False, cd_direction_counts = [(''B'', 50), (''A'', 0)]\<rparr>"
    unfolding candidate_for_def two_sector_info two_sector_types two_sector_attributed
      candidate_of_two_sectors
    by (simp add: count_where_replicate in_cone_south)
  have cb: "candidate_for ?settings ''S1'' ?ep ?mr ''L1800'' ''B'' =
      Some \<lparr>cd_target = ''A'', cd_max_count = 50, cd_total_mr = 50, cd_second_max_count = 0,
            cd_cell_type = [], cd_is_split = False, cd_direction_counts = [(''B'', 0), (''A'', 50)]\<rparr>"
    unfolding candidate_for_def two_sector_info two_sector_types two_sector_attributed
      candidate_of_two_sectors
    by (simp add: count_where_replicate in_cone_north)
  show ?thesis
    using swap_confirmed_iff [where ep = ?ep and e = "''S1''" and a = "''A''" and b = "''B''"
        and carrier = "''L1800''" and settings = ?settings and mr = ?mr]
    unfolding ca cb
    by (simp add: two_sector_types two_sector_attributed strict_rule_def)
qed

text \<open>
  Claim C1 as stated fails. Sector B (azimuth 180) comes first and sector A (azimuth 0)
  second, both at the same place. The 50 samples of A lie due east, in no cone, so all its
  direction counts are 0 and its target is the first sector B; the 50 samples of B lie due
  north, in the cone of A. The pair is mutual and the strict rule holds for both (for A as
  \<open>0 \<ge> 0\<close>), yet A receives no swap row: the second pass skips a cell whose total is 0.
\<close>

theorem mutual_strict_pair_without_swap:
  "(\<exists>ca cb.
      candidate_for \<lparr>sector_split = [], massive_mimo = []\<rparr> ''S1''
          [\<lparr>ep_site = ''S1'', ep_cell = ''B'', ep_carrier = ''L1800'', ep_latitude = 0,
            ep_longitude = 0, ep_azimuth = 180\<rparr>,
           \<lparr>ep_site = ''S1'', ep_cell = ''A'', ep_carrier = ''L1800'', ep_latitude = 0,
            ep_longitude = 0, ep_azimuth = 0\<rparr>]
          (replicate 50 \<lparr>mr_site = ''S1'', mr_cell = ''A'', mr_latitude = 0, mr_longitude = 1,
                          mr_rsrp = - 90\<rparr>
           @ replicate 50 \<lparr>mr_site = ''S1'', mr_cell = ''B'', mr_latitude = 1, mr_longitude = 0,
                            mr_rsrp = - 90\<rparr>) ''L1800'' ''A'' = Some ca
      \<and> candidate_for \<lparr>sector_split = [], massive_mimo = []\<rparr> ''S1''
          [\<lparr>ep_site = ''S1'', ep_cell = ''B'', ep_carrier = ''L1800'', ep_latitude = 0,
            ep_longitude = 0, ep_azimuth = 180\<rparr>,
           \<lparr>ep_site = ''S1'', ep_cell = ''A'', ep_carrier = ''L1800'', ep_latitude = 0,
            ep_longitude = 0, ep_azimuth = 0\<rparr>]
          (replicate 50 \<lparr>mr_site = ''S1'', mr_cell = ''A'', mr_latitude = 0, mr_longitude = 1,
                          mr_rsrp = - 90\<rparr>
           @ replicate 50 \<lparr>mr_site = ''S1'', mr_cell = ''B'', mr_latitude = 1, mr_longitude = 0,
                            mr_rsrp = - 90\<rparr>) ''L1800'' ''B'' = Some cb
      \<and> cd_cell_type ca = [] \<and> cd_cell_type cb = []
      \<and> cd_target ca = ''B'' \<and> cd_target cb = ''A''
      \<and> cd_max_count ca = 0 \<and> cd_second_max_count ca = 0 \<and> cd_total_mr ca = 0
      \<and> cd_max_count cb = 50 \<and> cd_second_max_count cb = 0 \<and> cd_total_mr cb = 50
      \<and> strict_rule ca \<and> strict_rule cb)
   \<and> length (attributed
         (replicate 50 \<lparr>mr_site = ''S1'', mr_cell = ''A'', mr_latitude = 0, mr_longitude = 1,
                         mr_rsrp = - 90\<rparr>
          @ replicate 50 \<lparr>mr_site = ''S1'', mr_cell = ''B'', mr_latitude = 1, mr_longitude = 0,
                           mr_rsrp = - 90\<rparr>) ''S1'' ''A'') = 50
   \<and> length (attributed
         (replicate 50 \<lparr>mr_site = ''S1'', mr_cell = ''A'', mr_latitude = 0, mr_longitude = 1,
                         mr_rsrp = - 90\<rparr>
          @ replicate 50 \<lparr>mr_site = ''S1'', mr_cell = ''B'', mr_latitude = 1, mr_longitude = 0,
                           mr_rsrp = - 90\<rparr>) ''S1'' ''B'') = 50
   \<and> (''S1'', ''A'', swap_found_text ''A'' ''B'')
     \<notin> set (map (\<lambda>(name, cell_id, result, cell_type). (name, cell_id, result))
         (process_enodeb \<lparr>sector_split = [], massive_mimo = []\<rparr> ''S1''
            [\<lparr>ep_site = ''S1'', ep_cell = ''B'', ep_carrier = ''L1800'', ep_latitude = 0,
              ep_longitude = 0, ep_azimuth = 180\<rparr>,
             \<lparr>ep_site = ''S1'', ep_cell = ''A'', ep_carrier = ''L1800'', ep_latitude = 0,
              ep_longitude = 0, ep_azimuth = 0\<rparr>]
            (replicate 50 \<lparr>mr_site = ''S1'', mr_cell = ''A'', mr_latitude = 0, mr_longitude = 1,
                            mr_rsrp = - 90\<rparr>
             @ replicate 50 \<lparr>mr_site = ''S1'', mr_cell = ''B'', mr_latitude = 1, mr_longitude = 0,
                              mr_rsrp = - 90\<rparr>)))"
proof -
  let ?ep = "[\<lparr>ep_site = ''S1'', ep_cell = ''B'', ep_carrier = ''L1800'', ep_latitude = 0 :: real,
              ep_longitude = 0, ep_azimuth = 180\<rparr>,
             \<lparr>ep_site = ''S1'', ep_cell = ''A'', ep_carrier = ''L1800'', ep_latitude = 0,
              ep_longitude = 0, ep_azimuth = 0\<rparr>]"
  let ?mr = "replicate 50 \<lparr>mr_site = ''S1'', mr_cell = ''A'', mr_latitude = 0 :: real, mr_longitude = 1,
                            mr_rsrp = - 90\<rparr>
             @ replicate 50 \<lparr>mr_site = ''S1'', mr_cell = ''B'', mr_latitude = 1, mr_longitude = 0,
                              mr_rsrp = - 90\<rparr>"
  let ?settings = "\<lparr>sector_split = [], massive_mimo = []\<rparr>"
  have ca: "candidate_for ?settings ''S1'' ?ep ?mr ''L1800'' ''A'' =
      Some \<lparr>cd_target = ''B'', cd_max_count = 0, cd_total_mr = 0, cd_second_max_count = 0,
            cd_cell_type = [], cd_is_split = False, cd_direction_counts = [(''B'', 0), (''A'', 0)]\<rparr>"
    unfolding candidate_for_def two_sector_info two_sector_types two_sector_attributed
      candidate_of_two_sectors
    by (simp add: count_where_replicate in_cone_east)
  have cb: "candidate_for ?settings ''S1'' ?ep ?mr ''L1800'' ''B'' =
      Some \<lparr>cd_target = ''A'', cd_max_count = 50, cd_total_mr = 50, cd_second_max_count = 0,
            cd_cell_type = [], cd_is_split = False, cd_direction_counts = [(''B'', 0), (''A'', 50)]\<rparr>"
    unfolding candidate_for_def two_sector_info two_sector_types two_sector_attributed
      candidate_of_two_sectors
    by (simp add: count_where_replicate in_cone_north)
  have "\<not> swap_condition ?settings ''S1'' ?ep ?mr ''L1800'' ''A'' ''B''"
    unfolding swap_condition_def ca cb by simp
  moreover have "swap_condition ?settings ''S1'' ?ep ?mr ''L1800'' ''A'' ''B''"
    if "(''S1'', ''A'', swap_found_text ''A'' ''B'')
          \<in> set (map (\<lambda>(name, cell_id, result, cell_type). (name, cell_id, result))
                   (process_enodeb ?settings ''S1'' ?ep ?mr))"
    by (rule swap_row_imp_condition [where a = "''A''" and b = "''B''", OF _ _ _ _ _ that])
      (simp_all add: two_sector_types)
  ultimately have "(''S1'', ''A'', swap_found_text ''A'' ''B'')
          \<notin> set (map (\<lambda>(name, cell_id, result, cell_type). (name, cell_id, result))
                   (process_enodeb ?settings ''S1'' ?ep ?mr))"
    by blast
  then show ?thesis
    unfolding ca cb by (simp add: strict_rule_def two_sector_attributed)
qed

subsection \<open>Massive-MIMO groups and the cell key\<close>

text \<open>
  Claim C2. The claim promises the row \<open>No Sector Swap Found - Massive MIMO\<close> for every
  cell of a configured group whose four beams exist at the site and carrier. The code
  recovers the carrier from the cell key with \<open>cell_key.split('_')[1]\<close>; for the carrier
  \<open>L_1800\<close> that is \<open>L\<close>, the beam keys built from it are not found, the group is
  recorded as invalid, and the four beam cells are processed as ordinary cells: here each
  gets \<open>NO MR Data found for the cell\<close> with an empty cell type.
\<close>

theorem mimo_group_missed_for_carrier_with_underscore:
  "process_enodeb
     \<lparr>sector_split = [],
      massive_mimo = [\<lparr>mm_layer = ''L_1800'', mm_beam0 = ''1'', mm_beam1 = ''2'', mm_beam2 = ''3'',
                       mm_beam3 = ''4''\<rparr>]\<rparr>
     ''S1''
     [\<lparr>ep_site = ''S1'', ep_cell = ''1'', ep_carrier = ''L_1800'', ep_latitude = 0, ep_longitude = 0,
       ep_azimuth = 0\<rparr>,
      \<lparr>ep_site = ''S1'', ep_cell = ''2'', ep_carrier = ''L_1800'', ep_latitude = 0, ep_longitude = 0,
       ep_azimuth = 90\<rparr>,
      \<lparr>ep_site = ''S1'', ep_cell = ''3'', ep_carrier = ''L_1800'', ep_latitude = 0, ep_longitude = 0,
       ep_azimuth = 180\<rparr>,
      \<lparr>ep_site = ''S1'', ep_cell = ''4'', ep_carrier = ''L_1800'', ep_latitude = 0, ep_longitude = 0,
       ep_azimuth = 270\<rparr>]
     []
   = [(''S1'', ''1'', ''NO MR Data found for the cell'', []),
      (''S1'', ''2'', ''NO MR Data found for the cell'', []),
      (''S1'', ''3'', ''NO MR Data found for the cell'', []),
      (''S1'', ''4'', ''NO MR Data found for the cell'', [])]"
  by (simp add: process_enodeb_def final_types_def configure_cells_def cell_exists_def
      cell_key_of_def validate_mimo_groups_def has_mimo_group_def group_of_def key_carrier_def
      mimo_group_key_of_def find_split_mimo_overlap_def has_split_partner_def
      resolve_final_types_def group_is_valid_def process_cell_row_def cell_type_of_def
      mr_of_cell_def Let_def)

text \<open>The same site with the carrier \<open>L1800\<close>: the four beam cells are reported as massive MIMO.\<close>

lemma mimo_group_found_for_plain_carrier:
  "process_enodeb
     \<lparr>sector_split = [],
      massive_mimo = [\<lparr>mm_layer = ''L1800'', mm_beam0 = ''1'', mm_beam1 = ''2'', mm_beam2 = ''3'',
                       mm_beam3 = ''4''\<rparr>]\<rparr>
     ''S1''
     [\<lparr>ep_site = ''S1'', ep_cell = ''1'', ep_carrier = ''L1800'', ep_latitude = 0, ep_longitude = 0,
       ep_azimuth = 0\<rparr>,
      \<lparr>ep_site = ''S1'', ep_cell = ''2'', ep_carrier = ''L1800'', ep_latitude = 0, ep_longitude = 0,
       ep_azimuth = 90\<rparr>,
      \<lparr>ep_site = ''S1'', ep_cell = ''3'', ep_carrier = ''L1800'', ep_latitude = 0, ep_longitude = 0,
       ep_azimuth = 180\<rparr>,
      \<lparr>ep_site = ''S1'', ep_cell = ''4'', ep_carrier = ''L1800'', ep_latitude = 0, ep_longitude = 0,
       ep_azimuth = 270\<rparr>]
     []
   = [(''S1'', ''1'', ''No Sector Swap Found - Massive MIMO'', ''Massive MIMO''),
      (''S1'', ''2'', ''No Sector Swap Found - Massive MIMO'', ''Massive MIMO''),
      (''S1'', ''3'', ''No Sector Swap Found - Massive MIMO'', ''Massive MIMO''),
      (''S1'', ''4'', ''No Sector Swap Found - Massive MIMO'', ''Massive MIMO'')]"
  by (simp add: process_enodeb_def final_types_def configure_cells_def cell_exists_def
      cell_key_of_def validate_mimo_groups_def has_mimo_group_def group_of_def key_carrier_def
      mimo_group_key_of_def find_split_mimo_overlap_def has_split_partner_def
      resolve_final_types_def group_is_valid_def process_cell_row_def cell_type_of_def
      mr_of_cell_def Let_def)

end
